(* ===== verification/Prelude.thy ===== *)
theory Prelude
  imports Main "HOL-Library.Word" "HOL-Library.Char_ord" "HOL-Library.List_Lexorder"
    "HOL-Library.Code_Target_Nat"
begin

text \<open>
  Shared vocabulary of the development: results of fallible code, the part of Rust's
  string and slice library that the crates use, and the generic lemmas on lists and maps
  that several components rest on.

  A Rust \<open>String\<close> is the list of the bytes of its UTF-8 encoding (\<open>len\<close> counts bytes,
  \<open>Ord\<close> compares bytes), so it is a HOL \<open>string\<close>; byte slices are strings too.
  \<open>Result<T, E>\<close> is \<open>E + T\<close> (\<open>Inl\<close> is \<open>Err\<close>), \<open>Option<T>\<close> is \<open>T option\<close>.
\<close>

named_theorems checks \<open>defining equations of validators, unfolded together\<close>
named_theorems str_simps \<open>evaluation of the string library\<close>

section \<open>Results\<close>

fun rbind :: "'e + 'a \<Rightarrow> ('a \<Rightarrow> 'e + 'b) \<Rightarrow> 'e + 'b" where
  "rbind (Inl e) f = Inl e"
| "rbind (Inr x) f = f x"

definition ok_or :: "'a option \<Rightarrow> 'e \<Rightarrow> 'e + 'a" where
  "ok_or m e = (case m of None \<Rightarrow> Inl e | Some x \<Rightarrow> Inr x)"

fun map_err :: "('e \<Rightarrow> 'f) \<Rightarrow> 'e + 'a \<Rightarrow> 'f + 'a" where
  "map_err f (Inl e) = Inl (f e)"
| "map_err f (Inr x) = Inr x"

fun is_ok :: "'e + 'a \<Rightarrow> bool" where
  "is_ok (Inl e) = False"
| "is_ok (Inr x) = True"

lemma rbind_Inr_iff [simp]: "rbind m f = Inr y \<longleftrightarrow> (\<exists>x. m = Inr x \<and> f x = Inr y)"
  by (cases m) auto

lemma rbind_Inl_iff: "rbind m f = Inl e \<longleftrightarrow> m = Inl e \<or> (\<exists>x. m = Inr x \<and> f x = Inl e)"
  by (cases m) auto

lemma ok_or_Inr_iff [simp]: "ok_or m e = Inr x \<longleftrightarrow> m = Some x"
  by (auto simp: ok_or_def split: option.splits)

lemma ok_or_simps [simp]: "ok_or None e = Inl e" "ok_or (Some x) e = Inr x"
  by (simp_all add: ok_or_def)

lemma map_err_Inr_iff [simp]: "map_err f m = Inr x \<longleftrightarrow> m = Inr x"
  by (cases m) auto

lemma is_ok_iff: "is_ok m \<longleftrightarrow> (\<exists>x. m = Inr x)"
  by (cases m) auto

lemma rbind_cong [fundef_cong]:
  "m = m' \<Longrightarrow> (\<And>x. m' = Inr x \<Longrightarrow> f x = g x) \<Longrightarrow> rbind m f = rbind m' g"
  by (cases m') auto

text \<open>\<open>iter().map(f).collect::<Result<Vec<_>, _>>()\<close>: the first error, or all the values.\<close>

fun collect_results :: "('a \<Rightarrow> 'e + 'b) \<Rightarrow> 'a list \<Rightarrow> 'e + 'b list" where
  "collect_results f [] = Inr []"
| "collect_results f (x # xs) =
     rbind (f x) (\<lambda>y. rbind (collect_results f xs) (\<lambda>ys. Inr (y # ys)))"

lemma collect_results_Inr_iff:
  "collect_results f xs = Inr ys \<longleftrightarrow> list_all2 (\<lambda>x y. f x = Inr y) xs ys"
proof (induction xs arbitrary: ys)
  case Nil
  show ?case by (cases ys) auto
next
  case (Cons x xs)
  show ?case by (cases ys) (auto simp: Cons.IH)
qed

lemma collect_results_total:
  "(\<And>x. x \<in> set xs \<Longrightarrow> f x = Inr (g x)) \<Longrightarrow> collect_results f xs = Inr (map g xs)"
  by (induction xs) auto

lemma case_option_False_iff:
  "(case m of None \<Rightarrow> False | Some x \<Rightarrow> P x) \<longleftrightarrow> (\<exists>x. m = Some x \<and> P x)"
  by (cases m) auto

section \<open>Strings\<close>

abbreviation byte :: "char \<Rightarrow> nat" where
  "byte c \<equiv> of_char c"

fun strip_prefix :: "string \<Rightarrow> string \<Rightarrow> string option" where
  "strip_prefix [] s = Some s"
| "strip_prefix (p # ps) [] = None"
| "strip_prefix (p # ps) (c # cs) = (if p = c then strip_prefix ps cs else None)"

definition starts_with :: "string \<Rightarrow> string \<Rightarrow> bool" where
  "starts_with s p \<longleftrightarrow> strip_prefix p s \<noteq> None"

definition strip_suffix :: "string \<Rightarrow> string \<Rightarrow> string option" where
  "strip_suffix p s = map_option rev (strip_prefix (rev p) (rev s))"

lemma strip_prefix_Some_iff: "strip_prefix p s = Some r \<longleftrightarrow> s = p @ r"
  by (induction p s rule: strip_prefix.induct) auto

lemma strip_prefix_append [simp]: "strip_prefix p (p @ r) = Some r"
  by (simp add: strip_prefix_Some_iff)

lemma starts_with_iff: "starts_with s p \<longleftrightarrow> (\<exists>r. s = p @ r)"
  by (auto simp: starts_with_def strip_prefix_Some_iff)

lemma starts_with_append [simp]: "starts_with (p @ r) p"
  by (auto simp: starts_with_iff)

lemma strip_suffix_Some_iff: "strip_suffix p s = Some r \<longleftrightarrow> s = r @ p"
  unfolding strip_suffix_def map_option_eq_Some strip_prefix_Some_iff
  by (metis rev_append rev_rev_ident)

text \<open>\<open>str::split(char)\<close>, \<open>[..].join(sep)\<close>, \<open>str::replace(char, ..)\<close>, \<open>trim_start_matches(char)\<close>.\<close>

fun split_on :: "char \<Rightarrow> string \<Rightarrow> string list" where
  "split_on c [] = [[]]"
| "split_on c (x # xs) =
     (if x = c then [] # split_on c xs
      else (case split_on c xs of [] \<Rightarrow> [[x]] | y # ys \<Rightarrow> (x # y) # ys))"

fun join :: "string \<Rightarrow> string list \<Rightarrow> string" where
  "join sep [] = []"
| "join sep [x] = x"
| "join sep (x # y # ys) = x @ sep @ join sep (y # ys)"

definition replace_char :: "char \<Rightarrow> char \<Rightarrow> string \<Rightarrow> string" where
  "replace_char a b s = map (\<lambda>c. if c = a then b else c) s"

fun trim_start_char :: "char \<Rightarrow> string \<Rightarrow> string" where
  "trim_start_char c [] = []"
| "trim_start_char c (x # xs) = (if x = c then trim_start_char c xs else x # xs)"

lemma split_on_nonempty [simp]: "split_on c s \<noteq> []"
  by (induction s) (auto split: list.splits)

lemma split_on_no_sep: "c \<notin> set s \<Longrightarrow> split_on c s = [s]"
  by (induction s) auto

lemma split_on_append_sep:
  "c \<notin> set a \<Longrightarrow> split_on c (a @ c # r) = a # split_on c r"
  by (induction a) auto

lemma split_on_parts: "x \<in> set (split_on c s) \<Longrightarrow> c \<notin> set x"
  by (induction s arbitrary: x) (auto split: list.splits if_splits)

lemma join_split_on: "join [c] (split_on c s) = s"
proof (induction s)
  case (Cons x xs)
  obtain y ys where y: "split_on c xs = y # ys"
    using split_on_nonempty [of c xs] by (meson neq_Nil_conv)
  with Cons.IH have "join [c] (y # ys) = xs" by simp
  with y show ?case by (cases ys) auto
qed simp

subsection \<open>White space and control characters\<close>

text \<open>
  \<open>char::is_whitespace\<close> on the UTF-8 bytes: the length of the white-space character a
  string starts with, 0 when it starts with none (U+0009 to U+000D, U+0020, U+0085, U+00A0,
  U+1680, U+2000 to U+200A, U+2028, U+2029, U+202F, U+205F, U+3000).
\<close>

definition ws3 :: "nat \<Rightarrow> nat \<Rightarrow> nat \<Rightarrow> bool" where
  "ws3 a b c \<longleftrightarrow>
     (a = 225 \<and> b = 154 \<and> c = 128)
   \<or> (a = 226 \<and> b = 128 \<and> (128 \<le> c \<and> c \<le> 138 \<or> c = 168 \<or> c = 169 \<or> c = 175))
   \<or> (a = 226 \<and> b = 129 \<and> c = 159)
   \<or> (a = 227 \<and> b = 128 \<and> c = 128)"

definition ws1 :: "nat \<Rightarrow> bool" where
  "ws1 a \<longleftrightarrow> 9 \<le> a \<and> a \<le> 13 \<or> a = 32"

definition ws2 :: "nat \<Rightarrow> nat \<Rightarrow> bool" where
  "ws2 a b \<longleftrightarrow> a = 194 \<and> (b = 133 \<or> b = 160)"

fun ws_len :: "string \<Rightarrow> nat" where
  "ws_len [] = 0"
| "ws_len [a] = (if ws1 (byte a) then 1 else 0)"
| "ws_len [a, b] = (if ws1 (byte a) then 1 else if ws2 (byte a) (byte b) then 2 else 0)"
| "ws_len (a # b # c # r) =
     (if ws1 (byte a) then 1 else if ws2 (byte a) (byte b) then 2
      else if ws3 (byte a) (byte b) (byte c) then 3 else 0)"

text \<open>The same for the character a reversed string starts with (its bytes are reversed).\<close>

fun ws_len_rev :: "string \<Rightarrow> nat" where
  "ws_len_rev [] = 0"
| "ws_len_rev [a] = (if ws1 (byte a) then 1 else 0)"
| "ws_len_rev [a, b] = (if ws1 (byte a) then 1 else if ws2 (byte b) (byte a) then 2 else 0)"
| "ws_len_rev (a # b # c # r) =
     (if ws1 (byte a) then 1 else if ws2 (byte b) (byte a) then 2
      else if ws3 (byte c) (byte b) (byte a) then 3 else 0)"

lemma ws_len_le: "ws_len s \<le> length s"
  by (induction s rule: ws_len.induct) auto

lemma ws_len_rev_le: "ws_len_rev s \<le> length s"
  by (induction s rule: ws_len_rev.induct) auto

function trim_start :: "string \<Rightarrow> string" where
  "trim_start s = (if ws_len s = 0 then s else trim_start (drop (ws_len s) s))"
  by pat_completeness auto
termination
proof (relation "measure length")
  fix s :: string assume "ws_len s \<noteq> 0"
  with ws_len_le [of s] show "(drop (ws_len s) s, s) \<in> measure length"
    by (cases s) auto
qed simp

function trim_rev :: "string \<Rightarrow> string" where
  "trim_rev s = (if ws_len_rev s = 0 then s else trim_rev (drop (ws_len_rev s) s))"
  by pat_completeness auto
termination
proof (relation "measure length")
  fix s :: string assume "ws_len_rev s \<noteq> 0"
  with ws_len_rev_le [of s] show "(drop (ws_len_rev s) s, s) \<in> measure length"
    by (cases s) auto
qed simp

declare trim_start.simps [simp del] trim_rev.simps [simp del]

definition trim :: "string \<Rightarrow> string" where
  "trim s = rev (trim_rev (rev (trim_start s)))"

definition is_blank :: "string \<Rightarrow> bool" where
  "is_blank s \<longleftrightarrow> trim s = []"

lemma is_blank_Nil [simp]: "is_blank []"
  by (simp add: is_blank_def trim_def trim_start.simps trim_rev.simps)

text \<open>\<open>char::is_control\<close> (category Cc: U+0000 to U+001F, U+007F to U+009F) on the bytes.\<close>

fun has_control :: "string \<Rightarrow> bool" where
  "has_control [] = False"
| "has_control [a] = (byte a < 32 \<or> byte a = 127)"
| "has_control (a # b # r) =
     (byte a < 32 \<or> byte a = 127 \<or> (byte a = 194 \<and> 128 \<le> byte b \<and> byte b \<le> 159)
      \<or> has_control (b # r))"

definition is_ascii_alphanumeric :: "char \<Rightarrow> bool" where
  "is_ascii_alphanumeric c \<longleftrightarrow>
     48 \<le> byte c \<and> byte c \<le> 57 \<or> 65 \<le> byte c \<and> byte c \<le> 90 \<or> 97 \<le> byte c \<and> byte c \<le> 122"

section \<open>Lists, maps and folds\<close>

text \<open>\<open>iter().find(p)\<close> is \<open>List.find\<close>; \<open>iter().any(p)\<close> is \<open>list_ex\<close>, \<open>all\<close> is \<open>list_all\<close>.\<close>

lemma find_Some_mem: "List.find P xs = Some x \<Longrightarrow> x \<in> set xs \<and> P x"
  by (auto simp: find_Some_iff)

lemma list_ex_eq_mem: "list_ex (\<lambda>v. v = x) xs \<longleftrightarrow> x \<in> set xs"
  by (auto simp: list_ex_iff)

lemma list_ex_mem [simp]: "list_ex ((=) x) xs \<longleftrightarrow> x \<in> set xs"
  by (auto simp: list_ex_iff)

text \<open>\<open>windows(2).any(|p| p[0] >= p[1])\<close> fails exactly on strictly ascending slices.\<close>

fun window_ge :: "'a::linorder list \<Rightarrow> bool" where
  "window_ge (x # y # r) = (x \<ge> y \<or> window_ge (y # r))"
| "window_ge _ = False"

lemma not_window_ge_iff: "\<not> window_ge xs \<longleftrightarrow> sorted_wrt (<) xs"
proof (induction xs rule: window_ge.induct)
  case (1 x y r)
  show ?case using 1 by (force simp: not_le)
qed auto

text \<open>\<open>BTreeMap\<close> as an association list with strictly ascending keys: \<open>insert\<close>.\<close>

fun btree_insert :: "'k::linorder \<Rightarrow> 'v \<Rightarrow> ('k \<times> 'v) list \<Rightarrow> ('k \<times> 'v) list" where
  "btree_insert k v [] = [(k, v)]"
| "btree_insert k v ((k', v') # r) =
     (if k < k' then (k, v) # (k', v') # r
      else if k = k' then (k, v) # r
      else (k', v') # btree_insert k v r)"

abbreviation keys :: "('k \<times> 'v) list \<Rightarrow> 'k list" where
  "keys kvs \<equiv> map fst kvs"

lemma set_keys_btree_insert [simp]:
  "fst ` set (btree_insert k v m) = insert k (fst ` set m)"
  by (induction m rule: btree_insert.induct) auto

lemma sorted_btree_insert:
  "sorted_wrt (<) (keys m) \<Longrightarrow> sorted_wrt (<) (keys (btree_insert k v m))"
proof (induction k v m rule: btree_insert.induct)
  case (2 k v k' v' r)
  show ?case
  proof (cases "k' < k")
    case True
    have "\<forall>x\<in>set (keys (btree_insert k v r)). k' < x"
      using True "2.prems" by (simp only: set_map set_keys_btree_insert) auto
    with True 2 show ?thesis by auto
  qed (use 2 in \<open>auto intro: less_trans\<close>)
qed simp

lemma map_of_btree_insert:
  "sorted_wrt (<) (keys m) \<Longrightarrow> map_of (btree_insert k v m) = (map_of m)(k \<mapsto> v)"
proof (induction k v m rule: btree_insert.induct)
  case (2 k v k' v' r)
  have "k \<notin> set (keys r)" if "k < k'" using that 2(2) by auto
  then show ?case using 2 by (auto simp: fun_eq_iff)
qed simp

lemma map_of_rev_distinct: "distinct (keys kvs) \<Longrightarrow> map_of (rev kvs) = map_of kvs"
  by (subst map_of_inject_set) (simp_all add: rev_map [symmetric])

lemma sorted_keys_eqI:
  assumes "sorted_wrt (<) (keys m)" and "sorted_wrt (<) (keys n)" and "map_of m = map_of n"
  shows "m = (n :: ('k::linorder \<times> 'v) list)"
proof -
  have d: "distinct (keys m)" "distinct (keys n)"
    using assms(1,2) strict_sorted_iff by blast+
  have "set m = set n"
    using assms(3) d by (metis (no_types, lifting) map_of_eq_Some_iff subrelI subset_antisym)
  moreover have "sorted (keys m)" "sorted (keys n)"
    using assms(1,2) strict_sorted_iff by blast+
  ultimately show ?thesis
    using d map_sorted_distinct_set_unique [of fst m n]
    by (simp add: distinct_map inj_on_Un)
qed

end
