(* ===== verification/DomainTree.thy ===== *)
theory DomainTree
  imports Prelude
begin

text \<open>
  The two domain forests of \<open>crates/oan-core\<close>: the capability tag tree and the authorized
  domain taxonomy. Both are lists of entries with parent pointers, filled from a nested
  tree by \<open>flatten_tree\<close>, and both answer ancestry questions by the same pointer walk with
  a set of visited parents. The walk is defined once, over the (id, parent) pairs.
\<close>

section \<open>The pointer walk\<close>

type_synonym edges = "(string \<times> string option) list"

text \<open>\<open>collect::<BTreeMap<_, _>>()\<close> keeps the last entry of an id.\<close>

definition parent_of :: "edges \<Rightarrow> string \<Rightarrow> string option" where
  "parent_of es x = Option.bind (map_of (rev es) x) (\<lambda>p. p)"

function ancestor_loop :: "edges \<Rightarrow> string \<Rightarrow> string list \<Rightarrow> string option \<Rightarrow> bool" where
  "ancestor_loop es goal seen current =
     (case current of
        None \<Rightarrow> False
      | Some parent \<Rightarrow>
          if parent = goal then True
          else if parent \<in> set seen then False
          else ancestor_loop es goal (parent # seen) (parent_of es parent))"
  by pat_completeness auto

text \<open>Every round either leaves the entries or marks one more of their ids.\<close>

termination
proof (relation "measure (\<lambda>(es, goal, seen, current).
    case current of None \<Rightarrow> 0 | Some p \<Rightarrow> Suc (card (fst ` set es - set seen)))")
  fix es :: edges and goal parent :: string and seen :: "string list" and current
  assume "current = Some parent" "parent \<notin> set seen"
  moreover have "card (fst ` set es - insert parent (set seen)) < card (fst ` set es - set seen)"
    if "parent_of es parent = Some q" for q
  proof (rule psubset_card_mono)
    from that have "parent \<in> fst ` set es"
      by (auto simp: parent_of_def bind_eq_Some_conv dest!: map_of_SomeD intro: rev_image_eqI)
    with \<open>parent \<notin> set seen\<close>
    show "fst ` set es - insert parent (set seen) \<subset> fst ` set es - set seen" by blast
  qed simp
  ultimately show "((es, goal, parent # seen, parent_of es parent), es, goal, seen, current)
    \<in> measure (\<lambda>(es, goal, seen, current).
        case current of None \<Rightarrow> 0 | Some p \<Rightarrow> Suc (card (fst ` set es - set seen)))"
    by (cases "parent_of es parent") auto
qed simp

declare ancestor_loop.simps [simp del]

definition descendant_or_same :: "edges \<Rightarrow> string \<Rightarrow> string \<Rightarrow> bool" where
  "descendant_or_same es x goal =
     (if goal = ''*'' \<or> x = goal then True
      else ancestor_loop es goal [] (parent_of es x))"

text \<open>\<open>find_map\<close> over the entries: the id of the first one that carries the value.\<close>

fun normalize_entry :: "(string \<times> string list) list \<Rightarrow> string \<Rightarrow> string option" where
  "normalize_entry [] v = None"
| "normalize_entry ((i, aliases) # r) v =
     (if i = v \<or> list_ex (\<lambda>a. a = v) aliases then Some i else normalize_entry r v)"

section \<open>Ancestry is reachability\<close>

abbreviation parent_step :: "edges \<Rightarrow> string \<Rightarrow> string \<Rightarrow> bool" where
  "parent_step es x y \<equiv> parent_of es x = Some y"

lemma stuck_cycle:
  assumes "(parent_step es)\<^sup>*\<^sup>* x y" "x \<in> S" "\<forall>s \<in> S. \<forall>t. parent_step es s t \<longrightarrow> t \<in> S"
  shows "y \<in> S"
  using assms by (induction rule: rtranclp_induct) auto

text \<open>
  The walk has not met the goal, and the visited parents only lead to visited parents or to
  the current one; so meeting one again proves that the goal is out of reach.
\<close>

lemma ancestor_loop_iff:
  "goal \<notin> set seen \<Longrightarrow>
   (\<forall>s \<in> set seen. \<forall>t. parent_step es s t \<longrightarrow> t \<in> set seen \<or> current = Some t) \<Longrightarrow>
   ancestor_loop es goal seen current \<longleftrightarrow>
     (\<exists>p. current = Some p \<and> (parent_step es)\<^sup>*\<^sup>* p goal)"
proof (induction es goal seen current rule: ancestor_loop.induct)
  case (1 es goal seen current)
  show ?case
  proof (cases current)
    case None
    then show ?thesis by (subst ancestor_loop.simps) simp
  next
    case (Some p)
    consider "p = goal" | "p \<noteq> goal" "p \<in> set seen" | "p \<noteq> goal" "p \<notin> set seen" by blast
    then show ?thesis
    proof cases
      case 1
      then show ?thesis using Some by (subst ancestor_loop.simps) auto
    next
      case 2
      then have "\<forall>s \<in> set seen. \<forall>t. parent_step es s t \<longrightarrow> t \<in> set seen"
        using "1.prems"(2) Some by auto
      then have "\<not> (parent_step es)\<^sup>*\<^sup>* p goal"
        using stuck_cycle [of es p goal "set seen"] 2 "1.prems"(1) by blast
      then show ?thesis using 2 Some by (subst ancestor_loop.simps) simp
    next
      case 3
      have "ancestor_loop es goal seen current \<longleftrightarrow>
              ancestor_loop es goal (p # seen) (parent_of es p)"
        using 3 Some by (subst ancestor_loop.simps) simp
      also have "\<dots> \<longleftrightarrow> (\<exists>q. parent_of es p = Some q \<and> (parent_step es)\<^sup>*\<^sup>* q goal)"
        using 3 Some "1.prems" by (intro "1.IH") auto
      also have "\<dots> \<longleftrightarrow> (parent_step es)\<^sup>*\<^sup>* p goal"
        using 3(1) by (auto elim: converse_rtranclpE intro: converse_rtranclp_into_rtranclp)
      finally show ?thesis using Some by simp
    qed
  qed
qed

lemma descendant_or_same_iff:
  "descendant_or_same es x goal \<longleftrightarrow> goal = ''*'' \<or> (parent_step es)\<^sup>*\<^sup>* x goal"
proof -
  have "ancestor_loop es goal [] (parent_of es x) \<longleftrightarrow> (parent_step es)\<^sup>+\<^sup>+ x goal"
    using ancestor_loop_iff [of goal "[]" es "parent_of es x"]
    by (auto dest: tranclpD intro: rtranclp_into_tranclp2)
  then show ?thesis
    by (auto simp: descendant_or_same_def dest: tranclp_into_rtranclp rtranclpD)
qed

lemma normalize_entry_Some:
  "normalize_entry es v = Some i \<Longrightarrow> \<exists>al. (i, al) \<in> set es \<and> (i = v \<or> v \<in> set al)"
  by (induction es v rule: normalize_entry.induct) (auto simp: list_ex_iff split: if_splits)

lemma normalize_entry_None_iff:
  "normalize_entry es v = None \<longleftrightarrow> (\<forall>(i, al) \<in> set es. i \<noteq> v \<and> v \<notin> set al)"
  by (induction es v rule: normalize_entry.induct) (auto simp: list_ex_iff split: if_splits)

section \<open>The capability tag tree\<close>

record capability_tag =
  ct_id :: string
  ct_label :: string
  ct_parent :: "string option"
  ct_aliases :: "string list"

datatype capability_tree_node =
  CapabilityTreeNode (ctn_id: string) (ctn_label: string) (ctn_children: "capability_tree_node list")

record capability_tag_tree =
  ctt_version :: "64 word"
  ctt_tags :: "capability_tag list"
  ctt_tree :: "capability_tree_node list"

definition normalize_tag :: "capability_tag_tree \<Rightarrow> string \<Rightarrow> string option" where
  "normalize_tag t v = normalize_entry (map (\<lambda>c. (ct_id c, ct_aliases c)) (ctt_tags t)) v"

definition tag_descendant_or_same :: "capability_tag_tree \<Rightarrow> string \<Rightarrow> string \<Rightarrow> bool" where
  "tag_descendant_or_same t tag_id domain_id =
     descendant_or_same (map (\<lambda>c. (ct_id c, ct_parent c)) (ctt_tags t)) tag_id domain_id"

definition unwrap_or :: "'a option \<Rightarrow> 'a \<Rightarrow> 'a" where
  "unwrap_or m x = (case m of None \<Rightarrow> x | Some y \<Rightarrow> y)"

definition matches_authorized_domains ::
  "capability_tag_tree \<Rightarrow> string list \<Rightarrow> string list \<Rightarrow> bool" where
  "matches_authorized_domains t capability_tags authorized_domains =
     (if list_ex (\<lambda>d. d = ''*'') authorized_domains then True
      else list_ex (\<lambda>capability.
             let c = unwrap_or (normalize_tag t capability) capability in
             list_ex (\<lambda>domain.
               let d = unwrap_or (normalize_tag t domain) domain in
               tag_descendant_or_same t c d) authorized_domains) capability_tags)"

text \<open>\<open>walk\<close> pushes a node and then its children, depth first.\<close>

fun walk_tags :: "capability_tree_node \<Rightarrow> string option \<Rightarrow> capability_tag list" where
  "walk_tags (CapabilityTreeNode i l children) parent =
     \<lparr>ct_id = i, ct_label = l, ct_parent = parent, ct_aliases = []\<rparr>
     # concat (map (\<lambda>child. walk_tags child (Some i)) children)"

definition flatten_tag_tree :: "capability_tag_tree \<Rightarrow> capability_tag_tree" where
  "flatten_tag_tree t =
     (if ctt_tags t \<noteq> [] \<or> ctt_tree t = [] then t
      else t\<lparr>ctt_tags := ctt_tags t @ concat (map (\<lambda>n. walk_tags n None) (ctt_tree t))\<rparr>)"

section \<open>The authorized domain taxonomy\<close>

record authorized_domain =
  dom_id :: string
  dom_label :: string
  dom_parent :: "string option"
  dom_aliases :: "string list"

datatype authorized_domain_tree_node =
  AuthorizedDomainTreeNode (dtn_id: string) (dtn_label: string)
    (dtn_children: "authorized_domain_tree_node list")

record authorized_domain_taxonomy =
  tax_version :: "64 word"
  tax_snapshot_hash :: "string option"
  tax_domains :: "authorized_domain list"
  tax_tree :: "authorized_domain_tree_node list"

datatype authorized_domain_error =
  WildcardMixed | DuplicateOrUnsorted | EmptyDomain | NonCanonicalDomain | UnknownDomain

definition normalize_domain :: "authorized_domain_taxonomy \<Rightarrow> string \<Rightarrow> string option" where
  "normalize_domain t v = normalize_entry (map (\<lambda>d. (dom_id d, dom_aliases d)) (tax_domains t)) v"

definition domain_descendant_or_same ::
  "authorized_domain_taxonomy \<Rightarrow> string \<Rightarrow> string \<Rightarrow> bool" where
  "domain_descendant_or_same t domain_id granted_domain_id =
     descendant_or_same (map (\<lambda>d. (dom_id d, dom_parent d)) (tax_domains t))
       domain_id granted_domain_id"

fun canonical_domains ::
  "authorized_domain_taxonomy \<Rightarrow> string list \<Rightarrow> authorized_domain_error + string list" where
  "canonical_domains t [] = Inr []"
| "canonical_domains t (domain # rest) =
     (if domain = [] then Inl EmptyDomain
      else rbind (ok_or (normalize_domain t domain) UnknownDomain) (\<lambda>canonical.
        if canonical \<noteq> domain then Inl NonCanonicalDomain
        else if count_list canonical (CHR ''.'') > 1 then Inl NonCanonicalDomain
        else rbind (canonical_domains t rest) (\<lambda>normalized. Inr (canonical # normalized))))"

definition validate_authorized_domains ::
  "authorized_domain_taxonomy \<Rightarrow> string list \<Rightarrow> authorized_domain_error + string list" where
  "validate_authorized_domains t domains =
     (if domains = [] then Inr []
      else if list_ex (\<lambda>d. d = ''*'') domains
      then (if length domains = 1 then Inr [''*''] else Inl WildcardMixed)
      else rbind (canonical_domains t domains) (\<lambda>normalized.
        if window_ge normalized then Inl DuplicateOrUnsorted else Inr normalized))"

definition covers_authorized_domains ::
  "authorized_domain_taxonomy \<Rightarrow> string list \<Rightarrow> string list \<Rightarrow> bool" where
  "covers_authorized_domains t requested_domains granted_domains =
     (if requested_domains = [] then True
      else if list_ex (\<lambda>d. d = ''*'') granted_domains then True
      else if granted_domains = [] then False
      else list_all (\<lambda>requested.
             case normalize_domain t requested of
               None \<Rightarrow> False
             | Some normalized_requested \<Rightarrow>
                 list_ex (\<lambda>granted.
                   case normalize_domain t granted of
                     None \<Rightarrow> False
                   | Some normalized_granted \<Rightarrow>
                       domain_descendant_or_same t normalized_requested normalized_granted)
                 granted_domains) requested_domains)"

fun walk_domains ::
  "authorized_domain_tree_node \<Rightarrow> string option \<Rightarrow> authorized_domain list" where
  "walk_domains (AuthorizedDomainTreeNode i l children) parent =
     \<lparr>dom_id = i, dom_label = l, dom_parent = parent, dom_aliases = []\<rparr>
     # concat (map (\<lambda>child. walk_domains child (Some i)) children)"

definition flatten_domain_tree :: "authorized_domain_taxonomy \<Rightarrow> authorized_domain_taxonomy" where
  "flatten_domain_tree t =
     (if tax_domains t \<noteq> [] \<or> tax_tree t = [] then t
      else t\<lparr>tax_domains := tax_domains t @ concat (map (\<lambda>n. walk_domains n None) (tax_tree t))\<rparr>)"

section \<open>The interface: names and an order below the wildcard\<close>

text \<open>
  What the authorisation checks rely on: a partial naming and a relation that is reflexive,
  puts everything below the wildcard and is transitive through concrete domains.
\<close>

locale ancestry =
  fixes normalize :: "string \<Rightarrow> string option"
    and below :: "string \<Rightarrow> string \<Rightarrow> bool"
  assumes below_refl: "below x x"
    and below_star: "below x ''*''"
    and below_trans: "y \<noteq> ''*'' \<Longrightarrow> below x y \<Longrightarrow> below y z \<Longrightarrow> below x z"
begin

definition named :: "string \<Rightarrow> string set \<Rightarrow> bool" where
  "named x S \<longleftrightarrow> (\<exists>s \<in> S. \<exists>s'. normalize s = Some s' \<and> below x s')"

definition covered :: "string set \<Rightarrow> string set \<Rightarrow> bool" where
  "covered R G \<longleftrightarrow> R = {} \<or> ''*'' \<in> G \<or> (\<forall>r \<in> R. \<exists>r'. normalize r = Some r' \<and> named r' G)"

definition related :: "string set \<Rightarrow> string set \<Rightarrow> bool" where
  "related C D \<longleftrightarrow> ''*'' \<in> D \<or>
     (\<exists>c \<in> C. \<exists>d \<in> D. below (unwrap_or (normalize c) c) (unwrap_or (normalize d) d))"

lemma covered_mono: "covered R G \<Longrightarrow> R' \<subseteq> R \<Longrightarrow> G \<subseteq> G' \<Longrightarrow> covered R' G'"
  unfolding covered_def named_def by blast

lemma covered_refl: "(\<forall>r \<in> R. \<exists>r'. normalize r = Some r') \<Longrightarrow> covered R R"
  unfolding covered_def named_def using below_refl by blast

lemma named_trans:
  assumes "named x G" and "covered G H" and "''*'' \<notin> H"
    and "\<And>g g'. g \<in> G \<Longrightarrow> normalize g = Some g' \<Longrightarrow> g' \<noteq> ''*''"
  shows "named x H"
proof -
  from assms(1) obtain g g' where g: "g \<in> G" "normalize g = Some g'" "below x g'"
    by (auto simp: named_def)
  with assms(2,3) have "named g' H" by (auto simp: covered_def)
  then obtain h h' where h: "h \<in> H" "normalize h = Some h'" "below g' h'"
    by (auto simp: named_def)
  with g assms(4) below_trans have "below x h'" by blast
  with h show ?thesis by (auto simp: named_def)
qed

text \<open>Delegation: what is covered by a scope that is itself covered is covered.\<close>

lemma covered_trans:
  assumes "covered R G" and "covered G H" and "normalize ''*'' = None"
    and "\<And>g g'. normalize g = Some g' \<Longrightarrow> g' \<noteq> ''*''"
  shows "covered R H"
proof (cases "R = {} \<or> ''*'' \<in> H")
  case True
  then show ?thesis by (auto simp: covered_def)
next
  case False
  have "''*'' \<notin> G"
    using assms(2,3) False by (auto simp: covered_def)
  with assms(1) False have "\<forall>r \<in> R. \<exists>r'. normalize r = Some r' \<and> named r' G"
    by (auto simp: covered_def)
  with named_trans [OF _ assms(2)] False assms(4) show ?thesis
    unfolding covered_def by blast
qed

lemma related_widen:
  assumes "related C D" and "\<And>d. d \<in> D \<Longrightarrow> related {d} D'"
    and "''*'' \<notin> D" and "\<And>d. d \<in> D \<Longrightarrow> unwrap_or (normalize d) d \<noteq> ''*''"
  shows "related C D'"
proof -
  from assms(1,3) obtain c d where "c \<in> C" "d \<in> D"
    "below (unwrap_or (normalize c) c) (unwrap_or (normalize d) d)"
    by (auto simp: related_def)
  with assms(2) [of d] assms(4) [of d] below_trans show ?thesis
    unfolding related_def by blast
qed

end

lemma descendant_or_same_trans:
  "y \<noteq> ''*'' \<Longrightarrow> descendant_or_same es x y \<Longrightarrow> descendant_or_same es y z \<Longrightarrow>
     descendant_or_same es x z"
  by (auto simp: descendant_or_same_iff intro: rtranclp_trans)

lemma descendant_or_same_refl: "descendant_or_same es x x" "descendant_or_same es x ''*''"
  by (simp_all add: descendant_or_same_iff)

interpretation tags: ancestry "normalize_tag t" "tag_descendant_or_same t" for t
  by unfold_locales
    (simp_all add: tag_descendant_or_same_def descendant_or_same_refl,
     blast intro: descendant_or_same_trans)

interpretation taxonomy: ancestry "normalize_domain t" "domain_descendant_or_same t" for t
  by unfold_locales
    (simp_all add: domain_descendant_or_same_def descendant_or_same_refl,
     blast intro: descendant_or_same_trans)

lemma matches_iff_related:
  "matches_authorized_domains t cs ds \<longleftrightarrow> tags.related t (set cs) (set ds)"
  by (auto simp: matches_authorized_domains_def tags.related_def Let_def list_ex_iff)

lemma covers_iff_covered:
  "covers_authorized_domains t rs gs \<longleftrightarrow> taxonomy.covered t (set rs) (set gs)"
  by (auto simp: covers_authorized_domains_def taxonomy.covered_def taxonomy.named_def
      list_ex_iff list_all_iff case_option_False_iff)

lemma canonical_domains_iff:
  "canonical_domains t ds = Inr ns \<longleftrightarrow> ns = ds \<and>
     (\<forall>d \<in> set ds. d \<noteq> [] \<and> normalize_domain t d = Some d \<and> count_list d (CHR ''.'') \<le> 1)"
  by (induction t ds arbitrary: ns rule: canonical_domains.induct) auto


lemma validate_authorized_domains_Inr:
  "validate_authorized_domains t ds = Inr ns \<longleftrightarrow> ns = ds \<and>
     (ds = [] \<or> ds = [''*''] \<or>
      (''*'' \<notin> set ds \<and> sorted_wrt (<) ds
       \<and> (\<forall>d \<in> set ds. d \<noteq> [] \<and> normalize_domain t d = Some d \<and> count_list d (CHR ''.'') \<le> 1)))"
proof -
  consider "ds = []" | "''*'' \<in> set ds" | "ds \<noteq> []" "''*'' \<notin> set ds" by blast
  then show ?thesis
  proof cases
    case 2
    then have "length ds = 1 \<longleftrightarrow> ds = [''*'']" by (cases ds) auto
    with 2 show ?thesis by (auto simp: validate_authorized_domains_def list_ex_eq_mem)
  next
    case 3
    then show ?thesis
      by (auto simp: validate_authorized_domains_def list_ex_eq_mem canonical_domains_iff
          not_window_ge_iff [symmetric])
  qed (auto simp: validate_authorized_domains_def)
qed

section \<open>Flattening a tree\<close>

fun subnodes :: "authorized_domain_tree_node \<Rightarrow> authorized_domain_tree_node list" where
  "subnodes (AuthorizedDomainTreeNode i l children) =
     AuthorizedDomainTreeNode i l children # concat (map subnodes children)"

abbreviation domain_edges :: "authorized_domain list \<Rightarrow> edges" where
  "domain_edges ds \<equiv> map (\<lambda>d. (dom_id d, dom_parent d)) ds"

definition forest_nodes :: "authorized_domain_tree_node list \<Rightarrow> authorized_domain_tree_node list"
  where "forest_nodes ns = concat (map subnodes ns)"

lemma subnodes_self: "n \<in> set (subnodes n)"
  by (cases n) simp

lemma subnodes_child: "c \<in> set (dtn_children m) \<Longrightarrow> m \<in> set (subnodes n) \<Longrightarrow> c \<in> set (subnodes n)"
proof (induction n rule: subnodes.induct)
  case (1 i l cs)
  then show ?case using subnodes_self [of c] by auto
qed

lemma subnodes_subset: "n \<in> set (forest_nodes ns) \<Longrightarrow> set (subnodes n) \<subseteq> set (forest_nodes ns)"
proof -
  have "m \<in> set (subnodes r) \<Longrightarrow> set (subnodes m) \<subseteq> set (subnodes r)" for m r
    by (induction r rule: subnodes.induct) auto
  then show "n \<in> set (forest_nodes ns) \<Longrightarrow> ?thesis" by (fastforce simp: forest_nodes_def)
qed

lemma walk_ids: "map dom_id (walk_domains n p) = map dtn_id (subnodes n)"
proof (induction n p rule: walk_domains.induct)
  case (1 i l cs p)
  then have "map (\<lambda>c. map dom_id (walk_domains c (Some i))) cs = map (\<lambda>c. map dtn_id (subnodes c)) cs"
    by simp
  from arg_cong [OF this, of concat] show ?case by (simp add: map_concat comp_def)
qed

lemma walk_edges:
  "(x, Some y) \<in> set (domain_edges (walk_domains n p)) \<longleftrightarrow>
     (x = dtn_id n \<and> p = Some y)
     \<or> (\<exists>m \<in> set (subnodes n). \<exists>c \<in> set (dtn_children m). x = dtn_id c \<and> y = dtn_id m)"
proof (induction n p rule: walk_domains.induct)
  case (1 i l cs p)
  have "(x, Some y) \<in> set (domain_edges (walk_domains (AuthorizedDomainTreeNode i l cs) p)) \<longleftrightarrow>
          (x = i \<and> p = Some y) \<or>
          (\<exists>c \<in> set cs. (x, Some y) \<in> set (domain_edges (walk_domains c (Some i))))"
    by auto
  also have "(\<exists>c \<in> set cs. (x, Some y) \<in> set (domain_edges (walk_domains c (Some i)))) \<longleftrightarrow>
      (\<exists>c \<in> set cs. (x = dtn_id c \<and> Some i = Some y)
         \<or> (\<exists>m \<in> set (subnodes c). \<exists>c \<in> set (dtn_children m). x = dtn_id c \<and> y = dtn_id m))"
    by (rule bex_cong [OF refl 1])
  finally show ?case by (rule ssubst) auto
qed

lemma subnodes_reach:
  assumes "\<And>m c. m \<in> set (subnodes n) \<Longrightarrow> c \<in> set (dtn_children m) \<Longrightarrow> R (dtn_id c) (dtn_id m)"
  shows "m \<in> set (subnodes n) \<Longrightarrow> R\<^sup>*\<^sup>* (dtn_id m) (dtn_id n)"
  using assms
proof (induction n rule: subnodes.induct)
  case (1 i l cs)
  then consider "m = AuthorizedDomainTreeNode i l cs"
    | c where "c \<in> set cs" "m \<in> set (subnodes c)" by auto
  then show ?case
  proof cases
    case 2
    then have "R\<^sup>*\<^sup>* (dtn_id m) (dtn_id c)" using 1(1) [of c] 1(3) by auto
    moreover have "R (dtn_id c) i" using 1(3) [of "AuthorizedDomainTreeNode i l cs" c] 2 by simp
    ultimately show ?thesis by simp
  qed simp
qed

lemma flat_parent_iff:
  assumes "distinct (map dtn_id (forest_nodes ns))"
  shows "parent_of (domain_edges (concat (map (\<lambda>n. walk_domains n None) ns))) x = Some y \<longleftrightarrow>
    (\<exists>m \<in> set (forest_nodes ns). \<exists>c \<in> set (dtn_children m). x = dtn_id c \<and> y = dtn_id m)"
proof -
  let ?es = "domain_edges (concat (map (\<lambda>n. walk_domains n None) ns))"
  have "keys ?es = map dtn_id (forest_nodes ns)"
    by (simp add: forest_nodes_def map_concat comp_def walk_ids)
  with assms have d: "distinct (keys ?es)" by simp
  then have "parent_of ?es x = Some y \<longleftrightarrow> (x, Some y) \<in> set ?es"
    by (simp only: parent_of_def map_of_rev_distinct bind_eq_Some_conv map_of_eq_Some_iff)
      auto
  also have "\<dots> \<longleftrightarrow> (\<exists>n \<in> set ns. (x, Some y) \<in> set (domain_edges (walk_domains n None)))"
    by auto
  also have "\<dots> \<longleftrightarrow> (\<exists>m \<in> set (forest_nodes ns). \<exists>c \<in> set (dtn_children m).
                          x = dtn_id c \<and> y = dtn_id m)"
    unfolding walk_edges by (auto simp: forest_nodes_def)
  finally show ?thesis .
qed

lemma flat_reach_iff:
  assumes "distinct (map dtn_id (forest_nodes ns))" and n: "n \<in> set (forest_nodes ns)"
  defines "es \<equiv> domain_edges (concat (map (\<lambda>n. walk_domains n None) ns))"
  shows "(parent_step es)\<^sup>*\<^sup>* x (dtn_id n) \<longleftrightarrow> x \<in> dtn_id ` set (subnodes n)"
proof
  have inj: "inj_on dtn_id (set (forest_nodes ns))" using assms(1) by (simp add: distinct_map)
  assume "(parent_step es)\<^sup>*\<^sup>* x (dtn_id n)"
  then show "x \<in> dtn_id ` set (subnodes n)"
  proof (induction rule: converse_rtranclp_induct)
    case base
    then show ?case by (simp add: subnodes_self)
  next
    case (step x y)
    then obtain m c where m: "m \<in> set (forest_nodes ns)" "c \<in> set (dtn_children m)"
      "x = dtn_id c" "y = dtn_id m"
      using flat_parent_iff [OF assms(1)] by (auto simp: es_def)
    moreover from step(3) obtain m' where "m' \<in> set (subnodes n)" "y = dtn_id m'" by blast
    ultimately have "m \<in> set (subnodes n)" using inj subnodes_subset [OF n] by (auto dest: inj_onD)
    with m subnodes_child show ?case by blast
  qed
next
  assume "x \<in> dtn_id ` set (subnodes n)"
  with subnodes_subset [OF n] show "(parent_step es)\<^sup>*\<^sup>* x (dtn_id n)"
    using subnodes_reach [of n "parent_step es"] flat_parent_iff [OF assms(1)]
    unfolding es_def by blast
qed

section \<open>Properties\<close>

text \<open>A small taxonomy for the witnesses: \<open>finance\<close> with \<open>finance.loans\<close> below it, and \<open>law\<close>.\<close>

definition demo_taxonomy :: authorized_domain_taxonomy where
  "demo_taxonomy = \<lparr>tax_version = 1, tax_snapshot_hash = None,
     tax_domains =
       [\<lparr>dom_id = ''finance'', dom_label = [], dom_parent = None, dom_aliases = [''money'']\<rparr>,
        \<lparr>dom_id = ''finance.loans'', dom_label = [], dom_parent = Some ''finance'', dom_aliases = []\<rparr>,
        \<lparr>dom_id = ''law'', dom_label = [], dom_parent = None, dom_aliases = []\<rparr>],
     tax_tree = []\<rparr>"

text \<open>
  C18. The ancestry walk of both forests is total on any data, cyclic parents and unknown ids
  included, and answers reachability: \<open>x\<close> is a descendant of \<open>g\<close> exactly when \<open>g\<close> is the
  wildcard or following parents from \<open>x\<close> reaches \<open>g\<close>.
\<close>

theorem ancestry_is_reachability:
  "(tag_descendant_or_same tags x g \<longleftrightarrow> g = ''*'' \<or>
      (\<lambda>a b. parent_of (map (\<lambda>c. (ct_id c, ct_parent c)) (ctt_tags tags)) a = Some b)\<^sup>*\<^sup>* x g)
   \<and> (domain_descendant_or_same taxonomy x g \<longleftrightarrow> g = ''*'' \<or>
      (\<lambda>a b. parent_of (map (\<lambda>d. (dom_id d, dom_parent d)) (tax_domains taxonomy)) a = Some b)\<^sup>*\<^sup>* x g)"
  unfolding tag_descendant_or_same_def domain_descendant_or_same_def descendant_or_same_iff
  by (intro conjI refl)

text \<open>
  C17. Authorisation can be delegated along a chain: when no entry of the taxonomy is named
  by the wildcard, a request covered by a grant that another grant covers is covered by the
  latter.
\<close>

theorem coverage_is_transitive:
  assumes "covers_authorized_domains t requested intermediate"
    and "covers_authorized_domains t intermediate granted"
    and "\<forall>d \<in> set (tax_domains t). dom_id d \<noteq> ''*'' \<and> ''*'' \<notin> set (dom_aliases d)"
  shows "covers_authorized_domains t requested granted"
proof -
  have star: "normalize_domain t ''*'' = None"
    using assms(3) by (auto simp: normalize_domain_def normalize_entry_None_iff)
  have "d' \<noteq> ''*''" if "normalize_domain t d = Some d'" for d d'
    using that assms(3) by (fastforce simp: normalize_domain_def dest: normalize_entry_Some)
  with assms(1,2) star show ?thesis
    unfolding covers_iff_covered by (blast intro: taxonomy.covered_trans)
qed

theorem coverage_is_transitive_witness:
  "covers_authorized_domains demo_taxonomy [''finance.loans''] [''money'', ''law'']"
proof (rule coverage_is_transitive)
  show "covers_authorized_domains demo_taxonomy [''finance.loans''] [''finance'']" by code_simp
  show "covers_authorized_domains demo_taxonomy [''finance''] [''money'', ''law'']" by code_simp
  show "\<forall>d \<in> set (tax_domains demo_taxonomy). dom_id d \<noteq> ''*'' \<and> ''*'' \<notin> set (dom_aliases d)"
    by (simp add: demo_taxonomy_def)
qed

text \<open>
  The validator of authorized domains returns its input unchanged, and accepts exactly
  the empty list, the lone wildcard, and strictly ascending lists of canonical ids of the
  taxonomy of at most two levels.
\<close>

theorem validate_authorized_domains_iff:
  "validate_authorized_domains t ds = Inr ns \<longleftrightarrow> ns = ds \<and>
     (ds = [] \<or> ds = [''*''] \<or>
      (''*'' \<notin> set ds \<and> sorted_wrt (<) ds
       \<and> (\<forall>d \<in> set ds. d \<noteq> [] \<and> normalize_domain t d = Some d \<and> count_list d (CHR ''.'') \<le> 1)))"
  by (rule validate_authorized_domains_Inr)

theorem validate_authorized_domains_iff_witness:
  "validate_authorized_domains demo_taxonomy [''finance.loans'', ''law'']
     = Inr [''finance.loans'', ''law'']
   \<and> validate_authorized_domains demo_taxonomy [''law'', ''finance''] \<noteq> Inr [''law'', ''finance'']"
proof
  have "\<forall>d \<in> set [''finance.loans'', ''law'']. d \<noteq> [] \<and> normalize_domain demo_taxonomy d = Some d
          \<and> count_list d (CHR ''.'') \<le> 1"
    "\<not> window_ge [''finance.loans'', ''law'']" "\<not> list_ex (\<lambda>d. d = ''*'') [''finance.loans'', ''law'']"
    by code_simp+
  then show "validate_authorized_domains demo_taxonomy [''finance.loans'', ''law'']
               = Inr [''finance.loans'', ''law'']"
    unfolding validate_authorized_domains_iff not_window_ge_iff list_ex_eq_mem by blast
qed code_simp

text \<open>
  C19. Flattening a tree with distinct ids keeps its shape: below a node are exactly the ids
  of the subtree under it.
\<close>

theorem flatten_tree_keeps_ancestry:
  assumes "tax_domains t = []" and "distinct (map dtn_id (forest_nodes (tax_tree t)))"
    and "n \<in> set (forest_nodes (tax_tree t))" and "dtn_id n \<noteq> ''*''"
  shows "domain_descendant_or_same (flatten_domain_tree t) x (dtn_id n) \<longleftrightarrow>
           x \<in> dtn_id ` set (subnodes n)"
proof -
  have "tax_tree t \<noteq> []" using assms(3) by (auto simp: forest_nodes_def)
  then have "tax_domains (flatten_domain_tree t)
               = concat (map (\<lambda>n. walk_domains n None) (tax_tree t))"
    using assms(1) by (simp add: flatten_domain_tree_def)
  with flat_reach_iff [OF assms(2,3)] assms(4) show ?thesis
    by (simp add: domain_descendant_or_same_def descendant_or_same_iff)
qed

theorem flatten_tree_keeps_ancestry_witness:
  "let leaf = AuthorizedDomainTreeNode ''finance.loans'' [] [];
       node = AuthorizedDomainTreeNode ''finance'' [] [leaf];
       t = \<lparr>tax_version = 1, tax_snapshot_hash = None, tax_domains = [], tax_tree = [node]\<rparr>
   in domain_descendant_or_same (flatten_domain_tree t) ''finance.loans'' ''finance''
      \<and> \<not> domain_descendant_or_same (flatten_domain_tree t) ''law'' ''finance''"
proof -
  let ?node = "AuthorizedDomainTreeNode ''finance'' [] [AuthorizedDomainTreeNode ''finance.loans'' [] []]"
  let ?t = "\<lparr>tax_version = 1, tax_snapshot_hash = None, tax_domains = [], tax_tree = [?node]\<rparr>"
  have "domain_descendant_or_same (flatten_domain_tree ?t) x (dtn_id ?node) \<longleftrightarrow>
          x \<in> dtn_id ` set (subnodes ?node)" for x
    by (rule flatten_tree_keeps_ancestry) (simp_all add: forest_nodes_def)
  then show ?thesis by (simp add: Let_def)
qed

end
