(* ===== verification/Json.thy ===== *)
theory Json
  imports Prelude
begin

text \<open>
  The JSON values the crates exchange (\<open>serde_json::Value\<close>, whose maps are \<open>BTreeMap\<close>s:
  the workspace enables neither \<open>preserve_order\<close> nor \<open>arbitrary_precision\<close>), the record of
  the third-party operations the code calls, and the canonical text of a value: the
  hand-written printers \<open>canonical_json_value\<close> (\<open>crates/oan-crypto\<close>) and
  \<open>oan_canonical_json\<close> (\<open>crates/oan-core\<close>).
\<close>

section \<open>Values\<close>

text \<open>A float carries the text that \<open>serde_json\<close> prints for it.\<close>

datatype jnum = JInt int | JFloat string

datatype json =
  JNull
| JBool bool
| JNumber jnum
| JString string
| JArray "json list"
| JObject "(string \<times> json) list"

text \<open>
  What the code calls and does not define: digests, text encodings, JSON string quoting and
  time stamps as text, URL and IRI parsing, the two signature schemes, and the JWK and
  JSON-LD Data Integrity libraries. Keys and signatures are byte strings. \<open>ed_*\<close> is Ed25519
  (\<open>ed_public_ok\<close>: the bytes are a curve point), \<open>sm2_*\<close> is SM2 with the fixed distinguished
  id (\<open>sm2_secret\<close> and \<open>sm2_sec1\<close> read key bytes and give the key's own encoding).
  \<open>jwk_parse\<close> is the value of the parsed JWK, \<open>ld_sign\<close> and \<open>ld_verify\<close> take the document,
  the method id and the key (\<open>ld_verify\<close> the controller and the key bytes).
\<close>

record externs =
  sha256 :: "string \<Rightarrow> string"
  sm3 :: "string \<Rightarrow> string"
  hex :: "string \<Rightarrow> string"
  b58_encode :: "string \<Rightarrow> string"
  b58_decode :: "string \<Rightarrow> string option"
  b64_encode :: "string \<Rightarrow> string"
  b64_decode :: "string \<Rightarrow> string option"
  quote :: "string \<Rightarrow> string"
  time_text :: "int \<Rightarrow> string"
  url_parse :: "string \<Rightarrow> (string \<times> string \<times> string option) option"
  ed_public :: "string \<Rightarrow> string"
  ed_public_ok :: "string \<Rightarrow> bool"
  ed_sign :: "string \<Rightarrow> string \<Rightarrow> string"
  ed_verify :: "string \<Rightarrow> string \<Rightarrow> string \<Rightarrow> bool"
  sm2_secret :: "string \<Rightarrow> string option"
  sm2_public :: "string \<Rightarrow> string"
  sm2_sec1 :: "string \<Rightarrow> string option"
  sm2_sign :: "string \<Rightarrow> string \<Rightarrow> string"
  sm2_sig_ok :: "string \<Rightarrow> bool"
  sm2_verify :: "string \<Rightarrow> string \<Rightarrow> string \<Rightarrow> bool"
  jwk_parse :: "json \<Rightarrow> string + json"
  jwk_to_public :: "json \<Rightarrow> json"
  iri_error :: "string \<Rightarrow> string option"
  uri_ok :: "string \<Rightarrow> bool"
  ld_contexts :: "string + unit"
  ld_parse_error :: "json \<Rightarrow> string option"
  ld_sign :: "json \<Rightarrow> string \<Rightarrow> json \<Rightarrow> string + json"
  ld_verify :: "json \<Rightarrow> string \<Rightarrow> string \<Rightarrow> string \<Rightarrow> string + unit"

section \<open>Access and construction\<close>

definition json_get :: "string \<Rightarrow> json \<Rightarrow> json option" where
  "json_get k v = (case v of JObject kvs \<Rightarrow> map_of kvs k | _ \<Rightarrow> None)"

definition json_as_str :: "json \<Rightarrow> string option" where
  "json_as_str v = (case v of JString s \<Rightarrow> Some s | _ \<Rightarrow> None)"

definition json_as_array :: "json \<Rightarrow> json list option" where
  "json_as_array v = (case v of JArray vs \<Rightarrow> Some vs | _ \<Rightarrow> None)"

definition json_is_object :: "json \<Rightarrow> bool" where
  "json_is_object v = (case v of JObject kvs \<Rightarrow> True | _ \<Rightarrow> False)"

text \<open>\<open>value.get(k).and_then(Value::as_str)\<close>\<close>

definition json_get_str :: "string \<Rightarrow> json \<Rightarrow> string option" where
  "json_get_str k v = Option.bind (json_get k v) json_as_str"

definition json_remove :: "string \<Rightarrow> json \<Rightarrow> json" where
  "json_remove k v =
     (case v of JObject kvs \<Rightarrow> JObject (filter (\<lambda>kv. fst kv \<noteq> k) kvs) | _ \<Rightarrow> v)"

definition json_insert :: "string \<Rightarrow> json \<Rightarrow> json \<Rightarrow> json" where
  "json_insert k x v = (case v of JObject kvs \<Rightarrow> JObject (btree_insert k x kvs) | _ \<Rightarrow> v)"

definition btree_of :: "(string \<times> 'v) list \<Rightarrow> (string \<times> 'v) list" where
  "btree_of kvs = fold (\<lambda>kv. btree_insert (fst kv) (snd kv)) kvs []"

text \<open>\<open>json!({..})\<close>, and the value of a struct (its fields inserted in declaration order).\<close>

definition json_object :: "(string \<times> json) list \<Rightarrow> json" where
  "json_object kvs = JObject (btree_of kvs)"

definition json_strings :: "string list \<Rightarrow> json" where
  "json_strings ss = JArray (map JString ss)"

text \<open>A field with \<open>skip_serializing_if = "Option::is_none"\<close>, and one without it.\<close>

definition opt_field :: "string \<Rightarrow> ('a \<Rightarrow> json) \<Rightarrow> 'a option \<Rightarrow> (string \<times> json) list" where
  "opt_field k f m = (case m of None \<Rightarrow> [] | Some x \<Rightarrow> [(k, f x)])"

definition null_field :: "string \<Rightarrow> ('a \<Rightarrow> json) \<Rightarrow> 'a option \<Rightarrow> (string \<times> json) list" where
  "null_field k f m = [(k, case m of None \<Rightarrow> JNull | Some x \<Rightarrow> f x)]"

text \<open>A field with \<open>skip_serializing_if = "Vec::is_empty"\<close>.\<close>

definition list_field :: "string \<Rightarrow> ('a \<Rightarrow> json) \<Rightarrow> 'a list \<Rightarrow> (string \<times> json) list" where
  "list_field k f xs = (if xs = [] then [] else [(k, JArray (map f xs))])"

lemma sorted_btree_of: "sorted_wrt (<) (keys (btree_of kvs))"
proof -
  have "sorted_wrt (<) (keys m) \<Longrightarrow>
          sorted_wrt (<) (keys (fold (\<lambda>kv. btree_insert (fst kv) (snd kv)) kvs m))" for m
    by (induction kvs arbitrary: m) (auto simp: sorted_btree_insert)
  then show ?thesis by (simp add: btree_of_def)
qed

lemma map_of_btree_of: "map_of (btree_of kvs) = map_of (rev kvs)"
proof -
  have "sorted_wrt (<) (keys m) \<Longrightarrow>
          map_of (fold (\<lambda>kv. btree_insert (fst kv) (snd kv)) kvs m) = map_of m ++ map_of (rev kvs)" for m
    by (induction kvs arbitrary: m) (auto simp: sorted_btree_insert map_of_btree_insert fun_eq_iff map_add_def
        split: option.splits)
  then show ?thesis by (simp add: btree_of_def)
qed

lemma set_keys_btree_of [simp]: "fst ` set (btree_of kvs) = fst ` set kvs"
proof -
  have "fst ` set (fold (\<lambda>kv. btree_insert (fst kv) (snd kv)) kvs m) = fst ` set m \<union> fst ` set kvs" for m
    by (induction kvs arbitrary: m) simp_all
  then show ?thesis by (simp add: btree_of_def)
qed

lemma json_get_object: "distinct (keys kvs) \<Longrightarrow> json_get k (json_object kvs) = map_of kvs k"
  by (simp add: json_get_def json_object_def map_of_btree_of map_of_rev_distinct)

lemma json_object_inject:
  "json_object kvs = json_object kvs' \<longleftrightarrow> map_of (rev kvs) = map_of (rev kvs')"
proof -
  have "map_of (rev kvs) = map_of (rev kvs') \<Longrightarrow> btree_of kvs = btree_of kvs'"
    by (rule sorted_keys_eqI) (simp_all add: sorted_btree_of map_of_btree_of)
  then show ?thesis
    using map_of_btree_of [of kvs] map_of_btree_of [of kvs'] by (auto simp: json_object_def)
qed

lemma json_object_eqD:
  "json_object kvs = json_object kvs' \<Longrightarrow> distinct (keys kvs) \<Longrightarrow> distinct (keys kvs') \<Longrightarrow>
     map_of kvs k = map_of kvs' k"
  by (simp add: json_object_inject map_of_rev_distinct)

lemma json_remove_object:
  assumes "map_of (rev (filter (\<lambda>kv. fst kv \<noteq> k) kvs)) = map_of (rev (filter (\<lambda>kv. fst kv \<noteq> k) kws))"
  shows "json_remove k (json_object kvs) = json_remove k (json_object kws)"
proof -
  have m: "map_of (filter (\<lambda>kv. fst kv \<noteq> k) xs) x = (if x = k then None else map_of xs x)" for xs x
    by (induction xs) (auto split: if_splits)
  have sorted: "sorted_wrt (<) (keys (filter (\<lambda>kv. fst kv \<noteq> k) (btree_of xs)))" for xs :: "(string \<times> json) list"
    using sorted_btree_of [of xs] unfolding sorted_wrt_map by (rule sorted_wrt_filter)
  have "filter (\<lambda>kv. fst kv \<noteq> k) (btree_of kvs) = filter (\<lambda>kv. fst kv \<noteq> k) (btree_of kws)"
  proof (rule sorted_keys_eqI)
    have "map_of (rev (filter (\<lambda>kv. fst kv \<noteq> k) xs)) x = (if x = k then None else map_of (rev xs) x)"
      for xs x unfolding rev_filter m by simp
    from this [of kvs] this [of kws] assms
    show "map_of (filter (\<lambda>kv. fst kv \<noteq> k) (btree_of kvs))
            = map_of (filter (\<lambda>kv. fst kv \<noteq> k) (btree_of kws))"
      unfolding fun_eq_iff m map_of_btree_of by metis
  qed (use sorted in simp_all)
  then show ?thesis by (simp add: json_object_def json_remove_def)
qed

section \<open>Numbers as text\<close>

fun nat_text :: "nat \<Rightarrow> string" where
  "nat_text n =
     (if n < 10 then [char_of (48 + n)] else nat_text (n div 10) @ [char_of (48 + n mod 10)])"

declare nat_text.simps [simp del]

definition int_text :: "int \<Rightarrow> string" where
  "int_text i = (if i < 0 then CHR ''-'' # nat_text (nat (- i)) else nat_text (nat i))"

fun number_text :: "jnum \<Rightarrow> string" where
  "number_text (JInt i) = int_text i"
| "number_text (JFloat s) = s"

section \<open>Canonical text\<close>

lemma json_size_snd [termination_simp]:
  "kv \<in> set kvs \<Longrightarrow> size (snd kv) < Suc (size_list (size_prod (\<lambda>_. 0) size) kvs)"
  by (induction kvs) auto

fun canonical_json_value :: "externs \<Rightarrow> json \<Rightarrow> string" where
  "canonical_json_value X JNull = ''null''"
| "canonical_json_value X (JBool b) = (if b then ''true'' else ''false'')"
| "canonical_json_value X (JNumber n) = number_text n"
| "canonical_json_value X (JString s) = quote X s"
| "canonical_json_value X (JArray vs) =
     ''['' @ join '','' (map (canonical_json_value X) vs) @ '']''"
| "canonical_json_value X (JObject kvs) =
     ''{'' @ join '',''
       (map (\<lambda>kv. quote X (fst kv) @ '':'' @ canonical_json_value X (snd kv)) kvs) @ ''}''"

text \<open>\<open>oan_canonical_json\<close> sorts the keys itself and looks each value up.\<close>

lemma json_size_lookup [termination_simp]:
  "map_of kvs k = Some v \<Longrightarrow> size v < Suc (size_list (size_prod (\<lambda>_. 0) size) kvs)"
  by (induction kvs) (auto split: if_splits)

function (sequential) oan_canonical_json :: "externs \<Rightarrow> json \<Rightarrow> string" where
  "oan_canonical_json X JNull = ''null''"
| "oan_canonical_json X (JBool b) = (if b then ''true'' else ''false'')"
| "oan_canonical_json X (JNumber n) = number_text n"
| "oan_canonical_json X (JString s) = quote X s"
| "oan_canonical_json X (JArray vs) =
     ''['' @ join '','' (map (oan_canonical_json X) vs) @ '']''"
| "oan_canonical_json X (JObject kvs) =
     ''{'' @ join '',''
       (map (\<lambda>k. quote X k @ '':'' @
              (case map_of kvs k of None \<Rightarrow> [] | Some v \<Rightarrow> oan_canonical_json X v))
          (sort (keys kvs))) @ ''}''"
  by pat_completeness auto
termination
  by (relation "measure (\<lambda>(X, v). size v)")
    (auto simp: less_Suc_eq_le dest: json_size_lookup
      elim: order.trans [OF size_list_estimation' [OF _ order_refl]])

section \<open>Well-formed values and the hypothesis on string quoting\<close>

definition num_chars :: "char set" where
  "num_chars = set ''0123456789+-.eE''"

fun num_ok :: "jnum \<Rightarrow> bool" where
  "num_ok (JInt i) = True"
| "num_ok (JFloat s) = (s \<noteq> [] \<and> set s \<subseteq> num_chars \<and> (CHR ''.'' \<in> set s \<or> CHR ''e'' \<in> set s))"

text \<open>Object keys ascend strictly (they come from a \<open>BTreeMap\<close>).\<close>

fun json_ok :: "json \<Rightarrow> bool" where
  "json_ok (JNumber n) = num_ok n"
| "json_ok (JArray vs) = list_all json_ok vs"
| "json_ok (JObject kvs) =
     (sorted_wrt (<) (keys kvs) \<and> list_all (\<lambda>kv. json_ok (snd kv)) kvs)"
| "json_ok _ = True"

text \<open>
  JSON string quoting: the text opens with a quotation mark and can be read back from the
  front of any longer text.
\<close>

definition quote_ok :: "externs \<Rightarrow> bool" where
  "quote_ok X \<longleftrightarrow>
     (\<forall>s t x y. quote X s @ x = quote X t @ y \<longrightarrow> s = t \<and> x = y)
     \<and> (\<forall>s. \<exists>r. quote X s = CHR 0x22 # r)"

text \<open>A concrete quoting that has the property: every character escaped.\<close>

definition demo_quote :: "string \<Rightarrow> string" where
  "demo_quote s = CHR 0x22 # concat (map (\<lambda>c. [CHR 0x5C, c]) s) @ [CHR 0x22]"

lemma demo_quote_prefix:
  "concat (map (\<lambda>c. [CHR 0x5C, c]) s) @ CHR 0x22 # x
     = concat (map (\<lambda>c. [CHR 0x5C, c]) t) @ CHR 0x22 # y \<Longrightarrow> s = t \<and> x = y"
proof (induction s arbitrary: t)
  case Nil
  then show ?case by (cases t) auto
next
  case (Cons c s)
  then show ?case by (cases t) auto
qed

lemma demo_quote_ok: "quote X = demo_quote \<Longrightarrow> quote_ok X"
proof -
  assume q: "quote X = demo_quote"
  have "s = t \<and> x = y" if "demo_quote s @ x = demo_quote t @ y" for s t x y
    by (rule demo_quote_prefix) (use that in \<open>simp add: demo_quote_def\<close>)
  moreover have "\<exists>r. demo_quote s = CHR 0x22 # r" for s by (simp add: demo_quote_def)
  ultimately show ?thesis unfolding quote_ok_def q by blast
qed

lemma snd_btree_insert: "snd ` set (btree_insert k v m) \<subseteq> insert v (snd ` set m)"
  by (induction k v m rule: btree_insert.induct) auto

lemma snd_btree_of: "snd ` set (btree_of kvs) \<subseteq> snd ` set kvs"
proof -
  have "snd ` set (fold (\<lambda>kv. btree_insert (fst kv) (snd kv)) kvs m) \<subseteq> snd ` set m \<union> snd ` set kvs"
    for m
  proof (induction kvs arbitrary: m)
    case (Cons kv kvs)
    show ?case using Cons.IH [of "btree_insert (fst kv) (snd kv) m"] snd_btree_insert [of "fst kv" "snd kv" m]
      by auto
  qed simp
  from this [of "[]"] show ?thesis by (simp add: btree_of_def)
qed

lemma json_ok_object: "(\<forall>kv \<in> set kvs. json_ok (snd kv)) \<Longrightarrow> json_ok (json_object kvs)"
  using snd_btree_of [of kvs] by (force simp: json_object_def list_all_iff sorted_btree_of)

lemma json_ok_remove: "json_ok v \<Longrightarrow> json_ok (json_remove k v)"
proof (cases v)
  case (JObject kvs)
  moreover assume "json_ok v"
  ultimately show ?thesis
    by (simp add: json_remove_def list_all_iff sorted_wrt_filter sorted_wrt_map)
qed (simp_all add: json_remove_def)

lemma json_ok_strings [simp]: "json_ok (json_strings ss)"
  by (simp add: json_strings_def list_all_iff)

lemma json_ok_fields [simp]:
  "(\<forall>kv \<in> set (opt_field k f m). json_ok (snd kv)) \<longleftrightarrow> (\<forall>x. m = Some x \<longrightarrow> json_ok (f x))"
  "(\<forall>kv \<in> set (null_field k f m). json_ok (snd kv)) \<longleftrightarrow> (\<forall>x. m = Some x \<longrightarrow> json_ok (f x))"
  "(\<forall>kv \<in> set (list_field k f xs). json_ok (snd kv)) \<longleftrightarrow> (\<forall>x \<in> set xs. json_ok (f x))"
  by (auto simp: opt_field_def null_field_def list_field_def list_all_iff split: option.splits)

section \<open>The two printers agree\<close>

lemma oan_canonical_json_eq:
  "json_ok v \<Longrightarrow> oan_canonical_json X v = canonical_json_value X v"
proof (induction X v rule: oan_canonical_json.induct)
  case (5 X vs)
  then have "map (oan_canonical_json X) vs = map (canonical_json_value X) vs"
    by (auto simp: list_all_iff)
  then show ?case by (simp only: oan_canonical_json.simps canonical_json_value.simps)
next
  case (6 X kvs)
  then have s: "sorted_wrt (<) (keys kvs)" and d: "distinct (keys kvs)"
    using strict_sorted_iff by auto
  then have k: "sort (keys kvs) = keys kvs"
    by (simp add: sorted_sort_id strict_sorted_iff)
  have "quote X (fst kv) @ '':'' @
      (case map_of kvs (fst kv) of None \<Rightarrow> [] | Some v \<Rightarrow> oan_canonical_json X v)
      = quote X (fst kv) @ '':'' @ canonical_json_value X (snd kv)" if kv: "kv \<in> set kvs" for kv
  proof -
    have "map_of kvs (fst kv) = Some (snd kv)" using kv d by simp
    moreover have "oan_canonical_json X (snd kv) = canonical_json_value X (snd kv)"
      using 6 kv calculation k by (auto simp: list_all_iff)
    ultimately show ?thesis by simp
  qed
  then have "map (\<lambda>k. quote X k @ '':'' @
      (case map_of kvs k of None \<Rightarrow> [] | Some v \<Rightarrow> oan_canonical_json X v)) (keys kvs)
      = map (\<lambda>kv. quote X (fst kv) @ '':'' @ canonical_json_value X (snd kv)) kvs"
    by simp
  then show ?case by (simp only: oan_canonical_json.simps canonical_json_value.simps k)
qed simp_all

section \<open>Canonical text determines the value\<close>

definition delims :: "char set" where
  "delims = set '',]}''"

definition delim :: "string \<Rightarrow> bool" where
  "delim x \<longleftrightarrow> x = [] \<or> hd x \<in> delims"

lemma delim_Cons: "c \<in> delims \<Longrightarrow> delim (c # x)"
  by (simp add: delim_def)

text \<open>Decimal text is injective: reading the digits back gives the number.\<close>

definition read_digits :: "string \<Rightarrow> nat" where
  "read_digits = foldl (\<lambda>a c. 10 * a + (byte c - 48)) 0"

lemma read_nat_text: "read_digits (nat_text n) = n"
proof (induction n rule: nat_text.induct)
  case (1 n)
  show ?case
  proof (cases "n < 10")
    case True
    then show ?thesis by (subst nat_text.simps) (simp add: read_digits_def)
  next
    case False
    with 1 have "read_digits (nat_text (n div 10)) = n div 10" by simp
    then show ?thesis using False
      by (subst nat_text.simps) (simp add: read_digits_def)
  qed
qed

lemma nat_text_digits: "set (nat_text n) \<subseteq> set ''0123456789'' \<and> nat_text n \<noteq> []"
proof (induction n rule: nat_text.induct)
  case (1 n)
  have "\<forall>k \<in> set [0..<10]. char_of (48 + k) \<in> set ''0123456789''" by code_simp
  then have d: "char_of (48 + k) \<in> set ''0123456789''" if "k < 10" for k :: nat
    using that by simp
  show ?case
    using 1 d [of n] d [of "n mod 10"] by (subst (1 2) nat_text.simps) auto
qed

lemma nat_text_inject: "nat_text m = nat_text n \<longleftrightarrow> m = n"
  using read_nat_text by metis

lemma int_text_inject: "int_text i = int_text j \<longleftrightarrow> i = j"
proof -
  have "hd (nat_text n) \<noteq> CHR ''-''" for n
    using nat_text_digits [of n] by (cases "nat_text n") auto
  moreover have "CHR ''-'' # s = nat_text n \<Longrightarrow> hd (nat_text n) = CHR ''-''" for s n
    by (metis list.sel(1))
  ultimately show ?thesis
    by (auto simp: int_text_def nat_text_inject) (metis list.sel(1))
qed

lemma int_text_chars: "set (int_text i) \<subseteq> set ''-0123456789'' \<and> int_text i \<noteq> []"
proof -
  let ?S = "set ''-0123456789''"
  have D: "set ''0123456789'' \<subseteq> ?S" by simp
  have n: "set (nat_text n) \<subseteq> ?S" for n
    by (rule subset_trans [OF conjunct1 [OF nat_text_digits] D])
  have m: "CHR ''-'' \<in> ?S" by simp
  have "set (int_text i) \<subseteq> ?S"
  proof (cases "i < 0")
    case True
    then have e: "set (int_text i) = insert (CHR ''-'') (set (nat_text (nat (- i))))"
      by (simp add: int_text_def)
    show ?thesis unfolding e insert_subset using n m by blast
  next
    case False
    then have e: "set (int_text i) = set (nat_text (nat i))" by (simp add: int_text_def)
    show ?thesis unfolding e by (rule n)
  qed
  moreover have "int_text i \<noteq> []" using nat_text_digits by (simp add: int_text_def)
  ultimately show ?thesis by blast
qed

lemma number_text_chars:
  assumes "num_ok n" shows "set (number_text n) \<subseteq> num_chars \<and> number_text n \<noteq> []"
proof (cases n)
  case (JInt i)
  have "set ''-0123456789'' \<subseteq> num_chars" by (simp add: num_chars_def)
  with int_text_chars [of i] show ?thesis by (simp add: JInt) blast
qed (use assms in simp)

lemma number_text_inject:
  assumes "num_ok m" "num_ok n" "number_text m = number_text n"
  shows "m = n"
proof -
  have "CHR ''.'' \<notin> set (int_text i) \<and> CHR ''e'' \<notin> set (int_text i)" for i
    using int_text_chars [of i] by auto
  with assms show ?thesis
    by (cases m; cases n) (auto simp: int_text_inject)
qed

lemma chars_then_delim:
  assumes "set a \<subseteq> N" "set b \<subseteq> N" "N \<inter> delims = {}" "delim x" "delim y" "a @ x = b @ y"
  shows "a = b \<and> x = y"
proof -
  have t: "takeWhile (\<lambda>c. c \<in> N) (u @ z) = u" if "set u \<subseteq> N" "delim z" for u z
    using that assms(3) by (cases z) (auto simp: delim_def subset_iff)
  from t [OF assms(1,4)] t [OF assms(2,5)] assms(6) have "a = b" by metis
  with assms(6) show ?thesis by simp
qed

lemma join_Cons: "join sep (x # xs) = x @ concat (map (\<lambda>y. sep @ y) xs)"
  by (induction xs arbitrary: x) auto

text \<open>Lists of items, each readable from the front before a delimiter.\<close>

lemma tail_items_inject:
  assumes "concat (map (\<lambda>v. CHR '','' # f v) vs) @ c # x
             = concat (map (\<lambda>v. CHR '','' # f v) ws) @ c # y"
    and "c \<in> delims" "c \<noteq> CHR '',''"
    and "\<And>v w x y. v \<in> set vs \<Longrightarrow> w \<in> set ws \<Longrightarrow> delim x \<Longrightarrow> delim y \<Longrightarrow>
           f v @ x = f w @ y \<Longrightarrow> v = w \<and> x = y"
  shows "vs = ws \<and> x = y"
  using assms
proof (induction vs arbitrary: ws)
  case Nil
  from Nil.prems(1,3) show ?case by (cases ws) auto
next
  case (Cons v vs)
  from Cons.prems(1,3) obtain w ws' where ws: "ws = w # ws'" by (cases ws) auto
  have dl: "delim (concat (map (\<lambda>v. CHR '','' # f v) us) @ c # z)" for us z
    using Cons.prems(2) by (cases us) (auto simp: delim_def delims_def)
  have e: "f v @ concat (map (\<lambda>v. CHR '','' # f v) vs) @ c # x
          = f w @ concat (map (\<lambda>v. CHR '','' # f v) ws') @ c # y"
    using Cons.prems(1) by (simp add: ws)
  have "v = w \<and> concat (map (\<lambda>v. CHR '','' # f v) vs) @ c # x
          = concat (map (\<lambda>v. CHR '','' # f v) ws') @ c # y"
    by (rule Cons.prems(4) [OF _ _ dl dl e]) (simp_all add: ws)
  moreover have "vs = ws' \<and> x = y"
  proof (rule Cons.IH [OF conjunct2 [OF calculation] Cons.prems(2,3)])
    fix va wa xa ya
    assume "va \<in> set vs" "wa \<in> set ws'" "delim xa" "delim ya" "f va @ xa = f wa @ ya"
    then show "va = wa \<and> xa = ya" by (intro Cons.prems(4)) (simp_all add: ws)
  qed
  ultimately show ?case by (simp add: ws)
qed

lemma items_inject:
  assumes eq: "join '','' (map f vs) @ c # x = join '','' (map f ws) @ c # y"
    and c: "c \<in> delims" "c \<noteq> CHR '',''"
    and ne: "\<And>v. v \<in> set vs \<union> set ws \<Longrightarrow> f v \<noteq> [] \<and> hd (f v) \<notin> delims"
    and item: "\<And>v w x y. v \<in> set vs \<Longrightarrow> w \<in> set ws \<Longrightarrow> delim x \<Longrightarrow> delim y \<Longrightarrow>
           f v @ x = f w @ y \<Longrightarrow> v = w \<and> x = y"
  shows "vs = ws \<and> x = y"
proof (cases vs; cases ws)
  fix v vs' w ws' assume vs: "vs = v # vs'" and ws: "ws = w # ws'"
  have tail: "concat (map ((@) '','') (map f us)) = concat (map (\<lambda>v. CHR '','' # f v) us)" for us
    by (induction us) auto
  have dl: "delim (concat (map (\<lambda>v. CHR '','' # f v) us) @ c # z)" for us z
    using c by (cases us) (auto simp: delim_def delims_def)
  have e: "f v @ concat (map (\<lambda>v. CHR '','' # f v) vs') @ c # x
          = f w @ concat (map (\<lambda>v. CHR '','' # f v) ws') @ c # y"
    using eq by (simp only: vs ws list.map join_Cons tail append_assoc)
  have "v = w \<and> concat (map (\<lambda>v. CHR '','' # f v) vs') @ c # x
          = concat (map (\<lambda>v. CHR '','' # f v) ws') @ c # y"
    by (rule item [OF _ _ dl dl e]) (simp_all add: vs ws)
  moreover have "vs' = ws' \<and> x = y"
  proof (rule tail_items_inject [OF conjunct2 [OF calculation] c])
    fix va wa xa ya
    assume "va \<in> set vs'" "wa \<in> set ws'" "delim xa" "delim ya" "f va @ xa = f wa @ ya"
    then show "va = wa \<and> xa = ya" by (intro item) (simp_all add: vs ws)
  qed
  ultimately show ?thesis by (simp add: vs ws)
next
  fix v vs' assume vs: "vs = v # vs'" and ws: "ws = []"
  then show ?thesis using eq c ne [of v] by (cases "f v") (auto simp: join_Cons)
next
  fix w ws' assume vs: "vs = []" and ws: "ws = w # ws'"
  then show ?thesis using eq c ne [of w] by (cases "f w") (auto simp: join_Cons)
qed (use eq in auto)

lemma quote_hd: "quote_ok X \<Longrightarrow> \<exists>r. quote X s = CHR 0x22 # r"
  unfolding quote_ok_def by blast

lemma quote_prefix: "quote_ok X \<Longrightarrow> quote X s @ x = quote X t @ y \<Longrightarrow> s = t \<and> x = y"
  unfolding quote_ok_def by blast

lemma canon_hd: "quote_ok X \<Longrightarrow> json_ok v \<Longrightarrow>
    canonical_json_value X v \<noteq> [] \<and> hd (canonical_json_value X v) \<notin> delims"
proof (cases v)
  case (JNumber n)
  moreover assume "json_ok v"
  ultimately have "set (number_text n) \<subseteq> num_chars" "number_text n \<noteq> []"
    using number_text_chars by auto
  moreover have "num_chars \<inter> delims = {}" by (simp add: num_chars_def delims_def)
  ultimately show ?thesis using JNumber by (auto dest: hd_in_set)
next
  case (JString s)
  moreover assume "quote_ok X"
  then obtain r where "quote X s = CHR 0x22 # r" using quote_hd by blast
  ultimately show ?thesis by (simp add: delims_def)
qed (auto simp: delims_def)

text \<open>The constructor of a value can be read from the first character of its text.\<close>

definition kind :: "json \<Rightarrow> nat" where
  "kind v = (case v of JNull \<Rightarrow> 0 | JBool b \<Rightarrow> (if b then 1 else 2) | JNumber n \<Rightarrow> 3
     | JString s \<Rightarrow> 4 | JArray vs \<Rightarrow> 5 | JObject kvs \<Rightarrow> 6)"

definition kind_of_char :: "char \<Rightarrow> nat" where
  "kind_of_char c =
     (if c = CHR ''n'' then 0 else if c = CHR ''t'' then 1 else if c = CHR ''f'' then 2
      else if c = CHR 0x22 then 4 else if c = CHR ''['' then 5 else if c = CHR ''{'' then 6 else 3)"

lemma kind_hd:
  assumes "quote_ok X" "json_ok v"
  shows "kind_of_char (hd (canonical_json_value X v @ x)) = kind v"
proof (cases v)
  case (JNumber n)
  with assms(2) have "set (number_text n) \<subseteq> num_chars" "number_text n \<noteq> []"
    using number_text_chars by auto
  then have "hd (number_text n) \<in> num_chars" by (auto dest: hd_in_set)
  moreover have "\<forall>c \<in> num_chars. kind_of_char c = 3" by (simp add: num_chars_def kind_of_char_def)
  ultimately show ?thesis using JNumber \<open>number_text n \<noteq> []\<close> by (simp add: kind_def)
next
  case (JString s)
  obtain r where "quote X s = CHR 0x22 # r" using quote_hd assms(1) by blast
  with JString show ?thesis by (simp add: kind_def kind_of_char_def)
qed (simp_all add: kind_def kind_of_char_def)

lemma kind_eq:
  assumes "quote_ok X" "json_ok v" "json_ok w"
    and "canonical_json_value X v @ x = canonical_json_value X w @ y"
  shows "kind v = kind w"
  using kind_hd [OF assms(1,2), of x] kind_hd [OF assms(1,3), of y] assms(4) by simp

lemma kind_iff:
  "kind w = kind (JNumber n) \<longleftrightarrow> (\<exists>m. w = JNumber m)"
  "kind w = kind (JString s) \<longleftrightarrow> (\<exists>t. w = JString t)"
  "kind w = kind (JArray vs) \<longleftrightarrow> (\<exists>ws. w = JArray ws)"
  "kind w = kind (JObject kvs) \<longleftrightarrow> (\<exists>kws. w = JObject kws)"
  "kind w = kind JNull \<longleftrightarrow> w = JNull"
  "kind w = kind (JBool b) \<longleftrightarrow> w = JBool b"
  by (cases w; simp add: kind_def)+

lemma canon_inject_aux:
  "quote_ok X \<Longrightarrow> json_ok v \<Longrightarrow> json_ok w \<Longrightarrow> delim x \<Longrightarrow> delim y \<Longrightarrow>
    canonical_json_value X v @ x = canonical_json_value X w @ y \<Longrightarrow> v = w \<and> x = y"
proof (induction X v arbitrary: w x y rule: canonical_json_value.induct)
  case (1 X)
  from kind_eq [OF 1(1,2,3,6), symmetric] have "w = JNull" unfolding kind_iff .
  with 1(6) show ?case by simp
next
  case (2 X b)
  from kind_eq [OF 2(1,2,3,6), symmetric] have "w = JBool b" unfolding kind_iff .
  with 2(6) show ?case by simp
next
  case (3 X n)
  from kind_eq [OF 3(1,2,3,6), symmetric] obtain m where w: "w = JNumber m"
    unfolding kind_iff by blast
  have "num_chars \<inter> delims = {}" by (simp add: num_chars_def delims_def)
  then have "number_text n = number_text m \<and> x = y"
    using 3 w number_text_chars by (intro chars_then_delim) auto
  then show ?case using 3(2,3) w number_text_inject by auto
next
  case (4 X s)
  from kind_eq [OF 4(1,2,3,6), symmetric] obtain t where w: "w = JString t"
    unfolding kind_iff by blast
  with 4(6) quote_prefix [OF 4(1), of s x t y] show ?case by simp
next
  case (5 X vs)
  from kind_eq [OF 5(2,3,4,7), symmetric] obtain ws where w: "w = JArray ws"
    unfolding kind_iff by blast
  from 5 w have ok: "\<And>v. v \<in> set vs \<union> set ws \<Longrightarrow> json_ok v" by (auto simp: list_all_iff)
  from 5(7) w have "join '','' (map (canonical_json_value X) vs) @ CHR '']'' # x
                  = join '','' (map (canonical_json_value X) ws) @ CHR '']'' # y" by simp
  then have "vs = ws \<and> x = y"
  proof (rule items_inject)
    fix v w' x y
    assume "v \<in> set vs" "w' \<in> set ws" "delim x" "delim y"
      "canonical_json_value X v @ x = canonical_json_value X w' @ y"
    then show "v = w' \<and> x = y" using 5(1,2) ok by blast
  next
    fix v assume "v \<in> set vs \<union> set ws"
    then show "canonical_json_value X v \<noteq> [] \<and> hd (canonical_json_value X v) \<notin> delims"
      using canon_hd 5(2) ok by blast
  qed (simp_all add: delims_def)
  with w show ?case by simp
next
  case (6 X kvs)
  from kind_eq [OF 6(2,3,4,7), symmetric] obtain kws where w: "w = JObject kws"
    unfolding kind_iff by blast
  from 6 w have ok: "\<And>kv. kv \<in> set kvs \<union> set kws \<Longrightarrow> json_ok (snd kv)"
    by (auto simp: list_all_iff)
  let ?f = "\<lambda>kv. quote X (fst kv) @ '':'' @ canonical_json_value X (snd kv)"
  from 6(7) w have "join '','' (map ?f kvs) @ CHR ''}'' # x = join '','' (map ?f kws) @ CHR ''}'' # y"
    by simp
  then have "kvs = kws \<and> x = y"
  proof (rule items_inject)
    fix a b x y
    assume a: "a \<in> set kvs" "b \<in> set kws" "delim x" "delim y" "?f a @ x = ?f b @ y"
    have "fst a = fst b \<and> CHR '':'' # canonical_json_value X (snd a) @ x
                 = CHR '':'' # canonical_json_value X (snd b) @ y"
      by (rule quote_prefix [OF 6(2)]) (use a(5) in simp)
    moreover from this have "snd a = snd b \<and> x = y"
      using 6(1,2) a ok by blast
    ultimately show "a = b \<and> x = y" by (simp add: prod_eq_iff)
  next
    fix kv :: "string \<times> json"
    obtain r where "quote X (fst kv) = CHR 0x22 # r" using quote_hd 6(2) by blast
    then show "?f kv \<noteq> [] \<and> hd (?f kv) \<notin> delims" by (simp add: delims_def)
  qed (simp_all add: delims_def)
  with w show ?case by simp
qed

lemma canonical_json_inject:
  assumes "quote_ok X" "json_ok v" "json_ok w"
    and "canonical_json_value X v = canonical_json_value X w"
  shows "v = w"
  using canon_inject_aux [OF assms(1-3), of "[]" "[]"] assms(4) by (simp add: delim_def)

section \<open>Properties\<close>

text \<open>Concrete externals for witnesses: readable stand-ins, used only to exhibit inputs.\<close>

definition hex_digit :: "nat \<Rightarrow> char" where
  "hex_digit n = ''0123456789abcdef'' ! n"

definition demo_hex :: "string \<Rightarrow> string" where
  "demo_hex s = concat (map (\<lambda>c. [hex_digit (byte c div 16), hex_digit (byte c mod 16)]) s)"

definition demo_externs :: externs where
  "demo_externs = \<lparr>
     sha256 = (\<lambda>s. take 32 (s @ replicate 32 (CHR ''0''))), sm3 = rev, hex = demo_hex,
     b58_encode = (\<lambda>s. s), b58_decode = Some, b64_encode = (\<lambda>s. s), b64_decode = Some,
     quote = demo_quote, time_text = int_text,
     url_parse = (\<lambda>s. if s = [] then None else Some (''https'', [], None)),
     ed_public = (\<lambda>k. k), ed_public_ok = (\<lambda>_. True),
     ed_sign = (\<lambda>k m. take 64 (k @ m @ replicate 64 (CHR ''0''))),
     ed_verify = (\<lambda>k m s. s = take 64 (k @ m @ replicate 64 (CHR ''0''))),
     sm2_secret = (\<lambda>k. if length k = 32 then Some k else None),
     sm2_public = (\<lambda>k. CHR 0x04 # k @ k),
     sm2_sec1 = (\<lambda>k. if length k = 65 \<and> hd k = CHR 0x04 then Some k else None),
     sm2_sign = (\<lambda>k m. take 64 (CHR 0x04 # k @ k @ m @ replicate 64 (CHR ''0''))),
     sm2_sig_ok = (\<lambda>s. length s = 64),
     sm2_verify = (\<lambda>k m s. s = take 64 (k @ m @ replicate 64 (CHR ''0''))),
     jwk_parse = Inr, jwk_to_public = json_remove ''d'',
     iri_error = (\<lambda>_. None), uri_ok = (\<lambda>_. True), ld_contexts = Inr (),
     ld_parse_error = (\<lambda>_. None), ld_sign = (\<lambda>d m k. Inr d), ld_verify = (\<lambda>d m c k. Inl ''unsupported'')\<rparr>"

lemma demo_externs_quote [simp]: "quote_ok demo_externs"
  by (rule demo_quote_ok) (simp add: demo_externs_def)

text \<open>
  C16. Canonical text determines the value: two JSON values that print to the same canonical
  text are equal, for any string quoting that can be read back.
\<close>

theorem canonical_json_injective:
  assumes "quote_ok X" and "json_ok v" and "json_ok w"
  shows "canonical_json_value X v = canonical_json_value X w \<longleftrightarrow> v = w"
  using canonical_json_inject [OF assms] by blast

theorem canonical_json_injective_witness:
  "canonical_json_value demo_externs (JArray [JString ''1'', JNumber (JInt 1)])
     \<noteq> canonical_json_value demo_externs (JArray [JNumber (JInt 1), JString ''1''])"
  by (subst canonical_json_injective) simp_all

text \<open>
  The two canonical printers of the workspace, \<open>oan_canonical_json\<close> of \<open>oan-core\<close> (which
  sorts keys and looks them up) and \<open>canonical_json_value\<close> of \<open>oan-crypto\<close>, produce the same
  text, so hashes computed by one crate can be checked by the other.
\<close>

theorem canonical_printers_agree:
  assumes "json_ok v"
  shows "oan_canonical_json X v = canonical_json_value X v"
  using assms by (rule oan_canonical_json_eq)

theorem canonical_printers_agree_witness:
  "oan_canonical_json demo_externs (JObject [(''a'', JNull), (''b'', JArray [JBool True])])
     = canonical_json_value demo_externs (JObject [(''a'', JNull), (''b'', JArray [JBool True])])"
  by (rule canonical_printers_agree) code_simp

end
