(* ===== verification/CoreTypes.thy ===== *)
theory CoreTypes
  imports Json
begin

text \<open>
  The shared data model of \<open>crates/oan-core\<close>: crypto suites, subject and resource types,
  node roles and the DID Document with its parts, each struct as a record with the value
  that its \<open>Serialize\<close> derivation produces (renamed, skipped and flattened fields as the
  attributes say). A \<open>DateTime<Utc>\<close> is its nanosecond count, an \<open>int\<close>.
\<close>

type_synonym datetime = int

section \<open>Crypto suites\<close>

datatype crypto_suite = Ed25519Sha256Legacy | Ed25519Sha256 | Sm2Sm3

definition signing_algorithm :: "crypto_suite \<Rightarrow> string" where
  "signing_algorithm s = (case s of Sm2Sm3 \<Rightarrow> ''SM2'' | _ \<Rightarrow> ''Ed25519'')"

definition hash_algorithm :: "crypto_suite \<Rightarrow> string" where
  "hash_algorithm s = (case s of Sm2Sm3 \<Rightarrow> ''SM3'' | _ \<Rightarrow> ''SHA-256'')"

definition canonical_hash_algorithm :: "crypto_suite \<Rightarrow> string" where
  "canonical_hash_algorithm s = (case s of Sm2Sm3 \<Rightarrow> ''sm3'' | _ \<Rightarrow> ''sha256'')"

definition verification_method_type :: "crypto_suite \<Rightarrow> string" where
  "verification_method_type s =
     (case s of Sm2Sm3 \<Rightarrow> ''SM2VerificationKey2020'' | _ \<Rightarrow> ''Ed25519VerificationKey2020'')"

definition proof_type :: "crypto_suite \<Rightarrow> string" where
  "proof_type s = (case s of Sm2Sm3 \<Rightarrow> ''SM2Signature2020'' | _ \<Rightarrow> ''Ed25519Signature2020'')"

definition from_verification_method_type :: "string \<Rightarrow> crypto_suite option" where
  "from_verification_method_type v =
     (if v = ''Ed25519VerificationKey2020'' then Some Ed25519Sha256
      else if v = ''SM2VerificationKey2020'' then Some Sm2Sm3 else None)"

definition from_proof_type :: "string \<Rightarrow> crypto_suite option" where
  "from_proof_type v =
     (if v = ''Ed25519Signature2020'' then Some Ed25519Sha256
      else if v = ''SM2Signature2020'' then Some Sm2Sm3 else None)"

definition suite_json :: "crypto_suite \<Rightarrow> json" where
  "suite_json s = JString (case s of
     Ed25519Sha256Legacy \<Rightarrow> ''ed25519-sha256-legacy''
   | Ed25519Sha256 \<Rightarrow> ''ed25519-sha256''
   | Sm2Sm3 \<Rightarrow> ''sm2-sm3'')"

section \<open>Types and roles\<close>

datatype subject_type =
  SAgentInstance | SAgentProduct | SRootNode | SRegistrarNode | SDiscoveryNode | SCdnNode
| SVcIssuerNode | STrustIndexerNode | SUnspecified | SAgent | SAgentService | SSkill
| SMcpServer | SToolApi | SOrganization | SDeveloper | SInfrastructureNode | SController

datatype resource_type =
  RAgentInstance | RAgentProduct | RAgentService | RSkill | RMcpServer | RToolApi
| RInfrastructureNode | ROrganization | RDeveloper | RRootNode | RRegistrarNode
| RDiscoveryNode | RCdnNode | RVcIssuerNode | RTrustIndexerNode | RUnspecified | RController

definition resource_type_as_str :: "resource_type \<Rightarrow> string" where
  "resource_type_as_str r = (case r of
     RAgentInstance \<Rightarrow> ''agent_instance''
   | RAgentProduct \<Rightarrow> ''agent_product''
   | RAgentService \<Rightarrow> ''agent_service''
   | RSkill \<Rightarrow> ''skill''
   | RMcpServer \<Rightarrow> ''mcp_server''
   | RToolApi \<Rightarrow> ''tool_api''
   | RInfrastructureNode \<Rightarrow> ''infrastructure_node''
   | ROrganization \<Rightarrow> ''organization''
   | RDeveloper \<Rightarrow> ''developer''
   | RRootNode \<Rightarrow> ''root_node''
   | RRegistrarNode \<Rightarrow> ''registrar_node''
   | RDiscoveryNode \<Rightarrow> ''discovery_node''
   | RCdnNode \<Rightarrow> ''cdn_node''
   | RVcIssuerNode \<Rightarrow> ''vc_issuer_node''
   | RTrustIndexerNode \<Rightarrow> ''trust_indexer_node''
   | RUnspecified \<Rightarrow> ''unspecified''
   | RController \<Rightarrow> ''controller'')"

text \<open>The derived serialisation of \<open>SubjectType\<close> fails on the skipped variant \<open>Agent\<close>.\<close>

definition subject_type_text :: "subject_type \<Rightarrow> string option" where
  "subject_type_text s = (case s of
     SAgentInstance \<Rightarrow> Some ''agent_instance''
   | SAgentProduct \<Rightarrow> Some ''agent_product''
   | SRootNode \<Rightarrow> Some ''root_node''
   | SRegistrarNode \<Rightarrow> Some ''registrar_node''
   | SDiscoveryNode \<Rightarrow> Some ''discovery_node''
   | SCdnNode \<Rightarrow> Some ''cdn_node''
   | SVcIssuerNode \<Rightarrow> Some ''vc_issuer_node''
   | STrustIndexerNode \<Rightarrow> Some ''trust_indexer_node''
   | SUnspecified \<Rightarrow> Some ''unspecified''
   | SAgent \<Rightarrow> None
   | SAgentService \<Rightarrow> Some ''agent_service''
   | SSkill \<Rightarrow> Some ''skill''
   | SMcpServer \<Rightarrow> Some ''mcp_server''
   | SToolApi \<Rightarrow> Some ''tool_api''
   | SOrganization \<Rightarrow> Some ''organization''
   | SDeveloper \<Rightarrow> Some ''developer''
   | SInfrastructureNode \<Rightarrow> Some ''infrastructure_node''
   | SController \<Rightarrow> Some ''controller'')"

datatype node_role = Root | Registrar | Discovery | ServiceAgent | UserAgent | TestAgent

definition node_role_subject_type :: "node_role \<Rightarrow> subject_type" where
  "node_role_subject_type r = (case r of
     ServiceAgent \<Rightarrow> SAgent | UserAgent \<Rightarrow> SAgent | TestAgent \<Rightarrow> SAgent
   | Root \<Rightarrow> SInfrastructureNode | Registrar \<Rightarrow> SInfrastructureNode
   | Discovery \<Rightarrow> SInfrastructureNode)"

section \<open>Verification methods, proofs and service endpoints\<close>

record verification_method =
  vm_id :: string
  vm_type :: string
  vm_controller :: string
  vm_crypto_suite :: "crypto_suite option"
  vm_public_key_format :: "string option"
  vm_public_key_multibase :: "string option"
  vm_public_key_jwk :: "json option"

definition vm_suite :: "verification_method \<Rightarrow> crypto_suite option" where
  "vm_suite m = (case vm_crypto_suite m of
     Some s \<Rightarrow> Some s | None \<Rightarrow> from_verification_method_type (vm_type m))"

definition vm_json :: "verification_method \<Rightarrow> json" where
  "vm_json m = json_object
     ([(''id'', JString (vm_id m)), (''type'', JString (vm_type m)),
       (''controller'', JString (vm_controller m))]
      @ opt_field ''cryptoSuite'' suite_json (vm_crypto_suite m)
      @ opt_field ''publicKeyFormat'' JString (vm_public_key_format m)
      @ opt_field ''publicKeyMultibase'' JString (vm_public_key_multibase m)
      @ opt_field ''publicKeyJwk'' (\<lambda>j. j) (vm_public_key_jwk m))"

record data_integrity_proof =
  pf_context :: "string option"
  pf_type :: string
  pf_creator :: string
  pf_created :: datetime
  pf_purpose :: string
  pf_value :: string
  pf_crypto_suite :: "crypto_suite option"
  pf_hash_algorithm :: "string option"
  pf_verification_method :: "string option"

definition pf_suite :: "data_integrity_proof \<Rightarrow> crypto_suite option" where
  "pf_suite p = (case pf_crypto_suite p of
     Some s \<Rightarrow> Some s | None \<Rightarrow> from_proof_type (pf_type p))"

definition proof_json :: "externs \<Rightarrow> data_integrity_proof \<Rightarrow> json" where
  "proof_json X p = json_object
     (opt_field ''@context'' JString (pf_context p)
      @ [(''type'', JString (pf_type p))]
      @ (if pf_creator p = [] then [] else [(''creator'', JString (pf_creator p))])
      @ [(''created'', JString (time_text X (pf_created p))),
         (''proofPurpose'', JString (pf_purpose p)), (''proofValue'', JString (pf_value p))]
      @ opt_field ''cryptoSuite'' suite_json (pf_crypto_suite p)
      @ opt_field ''hashAlgorithm'' JString (pf_hash_algorithm p)
      @ opt_field ''verificationMethod'' JString (pf_verification_method p))"

record service_endpoint =
  se_id :: string
  se_type :: string
  se_endpoint :: string
  se_version :: "string option"
  se_protocol :: "string option"
  se_server_type :: "string option"
  se_port :: "16 word option"

definition service_json :: "service_endpoint \<Rightarrow> json" where
  "service_json s = json_object
     ([(''id'', JString (se_id s)), (''type'', JString (se_type s)),
       (''serviceEndpoint'', JString (se_endpoint s))]
      @ opt_field ''version'' JString (se_version s)
      @ opt_field ''protocol'' JString (se_protocol s)
      @ opt_field ''serverType'' JString (se_server_type s)
      @ opt_field ''port'' (\<lambda>p. JNumber (JInt (uint p))) (se_port s))"

record address_binding =
  ab_id :: string
  ab_address_type :: string
  ab_network :: string
  ab_address :: string
  ab_controller :: string
  ab_purpose :: string

section \<open>Resource metadata\<close>

record agent_description =
  ad_capability_description :: string
  ad_capability_tags :: "string list"
  ad_use_case_examples :: "string list"

definition agent_description_json :: "agent_description \<Rightarrow> json" where
  "agent_description_json d = json_object
     [(''capabilityDescription'', JString (ad_capability_description d)),
      (''capabilityTags'', json_strings (ad_capability_tags d)),
      (''useCaseExamples'', json_strings (ad_use_case_examples d))]"

record resource_description =
  rd_name :: "string option"
  rd_description :: "string option"
  rd_capability_description :: "string option"
  rd_capability_tags :: "string list"
  rd_use_case_examples :: "string list"
  rd_input_schema :: "json option"
  rd_output_schema :: "json option"
  rd_examples :: "json list"
  rd_audience :: "json option"
  rd_domain :: "json option"
  rd_language :: "json option"
  rd_version :: "string option"

definition resource_description_json :: "resource_description \<Rightarrow> json" where
  "resource_description_json d = json_object
     (opt_field ''name'' JString (rd_name d)
      @ opt_field ''description'' JString (rd_description d)
      @ opt_field ''capabilityDescription'' JString (rd_capability_description d)
      @ [(''capabilityTags'', json_strings (rd_capability_tags d)),
         (''useCaseExamples'', json_strings (rd_use_case_examples d))]
      @ opt_field ''inputSchema'' (\<lambda>j. j) (rd_input_schema d)
      @ opt_field ''outputSchema'' (\<lambda>j. j) (rd_output_schema d)
      @ list_field ''examples'' (\<lambda>j. j) (rd_examples d)
      @ opt_field ''audience'' (\<lambda>j. j) (rd_audience d)
      @ opt_field ''domain'' (\<lambda>j. j) (rd_domain d)
      @ opt_field ''language'' (\<lambda>j. j) (rd_language d)
      @ opt_field ''version'' JString (rd_version d))"

record protocol_binding =
  pb_id :: string
  pb_protocol :: string
  pb_version :: "string option"
  pb_transport :: "string option"
  pb_service_ref :: "string option"
  pb_schema_ref :: "string option"
  pb_extra :: "(string \<times> json) list"

definition protocol_binding_json :: "protocol_binding \<Rightarrow> json" where
  "protocol_binding_json b = json_object
     ([(''id'', JString (pb_id b)), (''protocol'', JString (pb_protocol b))]
      @ opt_field ''version'' JString (pb_version b)
      @ opt_field ''transport'' JString (pb_transport b)
      @ opt_field ''serviceRef'' JString (pb_service_ref b)
      @ opt_field ''schemaRef'' JString (pb_schema_ref b)
      @ pb_extra b)"

record implementation_link =
  il_relation :: string
  il_target_did :: string
  il_target_type :: "resource_type option"
  il_target_service :: "string option"
  il_version_constraint :: "string option"

definition resource_type_json :: "resource_type \<Rightarrow> json" where
  "resource_type_json r = JString (resource_type_as_str r)"

definition implementation_link_json :: "implementation_link \<Rightarrow> json" where
  "implementation_link_json l = json_object
     ([(''relation'', JString (il_relation l)), (''targetDid'', JString (il_target_did l))]
      @ opt_field ''targetType'' resource_type_json (il_target_type l)
      @ opt_field ''targetService'' JString (il_target_service l)
      @ opt_field ''versionConstraint'' JString (il_version_constraint l))"

datatype credential_issuer = IssuerDid string | IssuerDids "string list"

definition credential_issuer_json :: "credential_issuer \<Rightarrow> json" where
  "credential_issuer_json i =
     (case i of IssuerDid d \<Rightarrow> JString d | IssuerDids ds \<Rightarrow> json_strings ds)"

record credential_requirement =
  cr_id :: string
  cr_purpose :: string
  cr_credential_type :: string
  cr_issuer :: "credential_issuer option"
  cr_scope :: "json option"
  cr_presentation_mode :: "string option"
  cr_required :: bool

definition credential_requirement_json :: "credential_requirement \<Rightarrow> json" where
  "credential_requirement_json r = json_object
     ([(''id'', JString (cr_id r)), (''purpose'', JString (cr_purpose r)),
       (''credentialType'', JString (cr_credential_type r))]
      @ opt_field ''issuer'' credential_issuer_json (cr_issuer r)
      @ opt_field ''scope'' (\<lambda>j. j) (cr_scope r)
      @ opt_field ''presentationMode'' JString (cr_presentation_mode r)
      @ [(''required'', JBool (cr_required r))])"

record package_info =
  pi_manifest_url :: "string option"
  pi_download_url :: "string option"
  pi_package_hash :: "string option"
  pi_metadata_hash :: "string option"
  pi_root_proof_ref :: "string option"
  pi_version :: "string option"
  pi_version_scheme :: "string option"
  pi_previous_version :: "string option"
  pi_release_notes_url :: "string option"
  pi_created_at :: "datetime option"
  pi_updated_at :: "datetime option"
  pi_expires_at :: "datetime option"

definition package_info_json :: "externs \<Rightarrow> package_info \<Rightarrow> json" where
  "package_info_json X p = json_object
     (opt_field ''manifestUrl'' JString (pi_manifest_url p)
      @ opt_field ''downloadUrl'' JString (pi_download_url p)
      @ opt_field ''packageHash'' JString (pi_package_hash p)
      @ opt_field ''metadataHash'' JString (pi_metadata_hash p)
      @ opt_field ''rootProofRef'' JString (pi_root_proof_ref p)
      @ opt_field ''version'' JString (pi_version p)
      @ opt_field ''versionScheme'' JString (pi_version_scheme p)
      @ opt_field ''previousVersion'' JString (pi_previous_version p)
      @ opt_field ''releaseNotesUrl'' JString (pi_release_notes_url p)
      @ opt_field ''createdAt'' (\<lambda>t. JString (time_text X t)) (pi_created_at p)
      @ opt_field ''updatedAt'' (\<lambda>t. JString (time_text X t)) (pi_updated_at p)
      @ opt_field ''expiresAt'' (\<lambda>t. JString (time_text X t)) (pi_expires_at p))"

record external_identifier =
  ei_id :: string
  ei_endpoint :: "string option"

definition external_identifier_json :: "external_identifier \<Rightarrow> json" where
  "external_identifier_json e = json_object
     ([(''id'', JString (ei_id e))]
      @ opt_field ''resolutionServiceEndpoint'' JString (ei_endpoint e))"

record oan_metadata =
  md_subject_type :: subject_type
  md_resource_type :: resource_type
  md_external_identifiers :: "external_identifier list"
  md_identity_type :: "string option"
  md_controller_did :: "string option"
  md_publisher_did :: "string option"
  md_issuer_did :: "string option"
  md_ttl :: "64 word option"
  md_resource_description :: "resource_description option"
  md_agent_description :: "agent_description option"
  md_capability_tags :: "string list"
  md_authorized_domains :: "string list"
  md_protocol_bindings :: "protocol_binding list"
  md_implementation_links :: "implementation_link list"
  md_credential_requirements :: "credential_requirement list"
  md_package_info :: "package_info option"
  md_service_policy :: "string option"
  md_network_scope :: "string option"
  md_lifecycle_state :: "string option"
  md_extra :: "(string \<times> json) list"

definition metadata_json :: "externs \<Rightarrow> oan_metadata \<Rightarrow> json option" where
  "metadata_json X m = map_option (\<lambda>subject. json_object
     ([(''subjectType'', JString subject),
       (''resourceType'', resource_type_json (md_resource_type m))]
      @ list_field ''externalIdentifiers'' external_identifier_json (md_external_identifiers m)
      @ opt_field ''identityType'' JString (md_identity_type m)
      @ opt_field ''controllerDid'' JString (md_controller_did m)
      @ opt_field ''publisherDid'' JString (md_publisher_did m)
      @ opt_field ''issuerDid'' JString (md_issuer_did m)
      @ opt_field ''ttl'' (\<lambda>t. JNumber (JInt (uint t))) (md_ttl m)
      @ opt_field ''resourceDescription'' resource_description_json (md_resource_description m)
      @ opt_field ''agentDescription'' agent_description_json (md_agent_description m)
      @ [(''capabilityTags'', json_strings (md_capability_tags m)),
         (''authorizedDomains'', json_strings (md_authorized_domains m))]
      @ list_field ''protocolBindings'' protocol_binding_json (md_protocol_bindings m)
      @ list_field ''implementationLinks'' implementation_link_json (md_implementation_links m)
      @ list_field ''credentialRequirements'' credential_requirement_json
          (md_credential_requirements m)
      @ opt_field ''packageInfo'' (package_info_json X) (md_package_info m)
      @ opt_field ''servicePolicy'' JString (md_service_policy m)
      @ opt_field ''networkScope'' JString (md_network_scope m)
      @ opt_field ''lifecycleState'' JString (md_lifecycle_state m)
      @ md_extra m))
     (subject_type_text (md_subject_type m))"

section \<open>The DID Document\<close>

datatype did_controller = Did string | Dids "string list"

definition controller_contains :: "did_controller \<Rightarrow> string \<Rightarrow> bool" where
  "controller_contains c did =
     (case c of Did v \<Rightarrow> v = did | Dids vs \<Rightarrow> list_ex (\<lambda>v. v = did) vs)"

definition controller_json :: "did_controller \<Rightarrow> json" where
  "controller_json c = (case c of Did v \<Rightarrow> JString v | Dids vs \<Rightarrow> json_strings vs)"

record did_document =
  dd_context :: "string list"
  dd_id :: string
  dd_controller :: "did_controller option"
  dd_verification_method :: "verification_method list"
  dd_authentication :: "string list"
  dd_assertion_method :: "string list"
  dd_capability_invocation :: "string list"
  dd_service :: "service_endpoint list"
  dd_proof :: "data_integrity_proof option"
  dd_metadata :: "oan_metadata option"

text \<open>\<open>serde_json::to_value(document)\<close>; \<open>None\<close> is the serialisation error.\<close>

definition did_document_json :: "externs \<Rightarrow> did_document \<Rightarrow> json option" where
  "did_document_json X d =
     map_option (\<lambda>metadata. json_object
       ([(''@context'', json_strings (dd_context d)), (''id'', JString (dd_id d))]
        @ opt_field ''controller'' controller_json (dd_controller d)
        @ [(''verificationMethod'', JArray (map vm_json (dd_verification_method d))),
           (''authentication'', json_strings (dd_authentication d)),
           (''assertionMethod'', json_strings (dd_assertion_method d))]
        @ list_field ''capabilityInvocation'' JString (dd_capability_invocation d)
        @ [(''service'', JArray (map service_json (dd_service d)))]
        @ opt_field ''proof'' (proof_json X) (dd_proof d)
        @ opt_field ''oanMetadata'' (\<lambda>j. j) metadata))
     (case dd_metadata d of
        None \<Rightarrow> Some None
      | Some m \<Rightarrow> map_option Some (metadata_json X m))"

section \<open>Lemmas\<close>

lemma controller_contains_iff:
  "controller_contains c did \<longleftrightarrow> (case c of Did v \<Rightarrow> v = did | Dids vs \<Rightarrow> did \<in> set vs)"
  by (auto simp: controller_contains_def list_ex_iff split: did_controller.split)

lemma from_proof_type_proof_type:
  "from_proof_type (proof_type s) = Some (if s = Sm2Sm3 then Sm2Sm3 else Ed25519Sha256)"
  by (cases s) (simp_all add: from_proof_type_def proof_type_def)

lemma from_verification_method_type_inverse:
  "from_verification_method_type (verification_method_type s)
     = Some (if s = Sm2Sm3 then Sm2Sm3 else Ed25519Sha256)"
  by (cases s) (simp_all add: from_verification_method_type_def verification_method_type_def)

lemma did_document_json_None_iff:
  "did_document_json X d = None \<longleftrightarrow>
     (\<exists>m. dd_metadata d = Some m \<and> md_subject_type m = SAgent)"
  by (cases "dd_metadata d")
    (auto simp: did_document_json_def metadata_json_def subject_type_text_def
      split: subject_type.splits)

end
