(* ===== verification/DidOan.thy ===== *)
theory DidOan
  imports Prelude
begin

text \<open>
  \<open>crates/oan-did-oan\<close>: the identifier \<open>did:oan:<routing-code>:<suffix-code>\<close>, its parser,
  the two generators and the code checks. SHA-256 and the operating system's random source
  are parameters: \<open>derive\<close> takes the digest function, \<open>generate\<close> the stream of the blocks
  the random source delivers.
\<close>

section \<open>Constants, errors and the identifier\<close>

definition DID_PREFIX :: string where
  "DID_PREFIX = ''did:oan:''"

definition ROUTING_CODE_LEN :: nat where
  "ROUTING_CODE_LEN = 5"

definition SUFFIX_CODE_LEN :: nat where
  "SUFFIX_CODE_LEN = 32"

definition DID_LEN :: nat where
  "DID_LEN = 46"

definition BASE58_ALPHABET :: string where
  "BASE58_ALPHABET = ''123456789ABCDEFGHJKLMNPQRSTUVWXYZabcdefghijkmnopqrstuvwxyz''"

datatype did_oan_error =
  InvalidPrefix
| InvalidPartCount
| InvalidRoutingCode
| InvalidSuffixCode
| InvalidSyntax

record did_oan =
  did_value :: string
  did_routing_code :: string
  did_suffix_code :: string

section \<open>Parsing\<close>

text \<open>
  The byte class \<open>[1-9A-HJ-NP-Za-km-z]\<close> of \<open>did_regex\<close> and the anchored pattern. A
  Unicode regex cannot match a byte of a multi-byte character with this class, so matching
  bytes is matching characters.
\<close>

definition in_range :: "char \<Rightarrow> char \<Rightarrow> char \<Rightarrow> bool" where
  "in_range lo hi c \<longleftrightarrow> byte lo \<le> byte c \<and> byte c \<le> byte hi"

definition regex_class :: "char \<Rightarrow> bool" where
  "regex_class c \<longleftrightarrow>
     in_range (CHR ''1'') (CHR ''9'') c \<or> in_range (CHR ''A'') (CHR ''H'') c
     \<or> in_range (CHR ''J'') (CHR ''N'') c \<or> in_range (CHR ''P'') (CHR ''Z'') c
     \<or> in_range (CHR ''a'') (CHR ''k'') c \<or> in_range (CHR ''m'') (CHR ''z'') c"

definition did_regex :: "string \<Rightarrow> bool" where
  "did_regex s =
     (case strip_prefix ''did:oan:'' s of
        None \<Rightarrow> False
      | Some t \<Rightarrow>
          length t = 38 \<and> list_all regex_class (take 5 t) \<and> t ! 5 = CHR '':''
          \<and> list_all regex_class (drop 6 t))"

definition validate_routing_code :: "string \<Rightarrow> did_oan_error + unit" where
  "validate_routing_code v =
     (if length v = ROUTING_CODE_LEN \<and> list_all (\<lambda>ch. ch \<in> set BASE58_ALPHABET) v
      then Inr () else Inl InvalidRoutingCode)"

definition validate_suffix_code :: "string \<Rightarrow> did_oan_error + unit" where
  "validate_suffix_code v =
     (if length v = SUFFIX_CODE_LEN \<and> list_all (\<lambda>ch. ch \<in> set BASE58_ALPHABET) v
      then Inr () else Inl InvalidSuffixCode)"

definition parse :: "string \<Rightarrow> did_oan_error + did_oan" where
  "parse v =
     (if \<not> starts_with v DID_PREFIX then Inl InvalidPrefix
      else let parts = split_on (CHR '':'') v in
        if length parts \<noteq> 4 then Inl InvalidPartCount
        else let routing_code = parts ! 2; suffix_code = parts ! 3 in
          rbind (validate_routing_code routing_code) (\<lambda>_.
          rbind (validate_suffix_code suffix_code) (\<lambda>_.
          if \<not> did_regex v then Inl InvalidSyntax
          else Inr \<lparr>did_value = v, did_routing_code = routing_code,
                    did_suffix_code = suffix_code\<rparr>)))"

definition validate :: "string \<Rightarrow> did_oan_error + unit" where
  "validate v = rbind (parse v) (\<lambda>_. Inr ())"

text \<open>\<open>Display\<close>, \<open>FromStr\<close> and the accessors.\<close>

definition as_str :: "did_oan \<Rightarrow> string" where
  "as_str d = did_value d"

definition from_str :: "string \<Rightarrow> did_oan_error + did_oan" where
  "from_str v = parse v"

definition key_id :: "did_oan \<Rightarrow> string \<Rightarrow> string" where
  "key_id d fragment = did_value d @ ''#'' @ trim_start_char (CHR ''#'') fragment"

definition display_error :: "did_oan_error \<Rightarrow> string" where
  "display_error e = (case e of
     InvalidPrefix \<Rightarrow> ''did must start with did:oan''
   | InvalidPartCount \<Rightarrow> ''did must have 4 colon-separated parts''
   | InvalidRoutingCode \<Rightarrow> ''routing-code must be exactly 5 case-sensitive Base58 characters''
   | InvalidSuffixCode \<Rightarrow> ''suffix-code must be exactly 32 Base58 characters''
   | InvalidSyntax \<Rightarrow> ''invalid did:oan current did:oan syntax'')"

section \<open>Generation\<close>

text \<open>
  \<open>u8::MAX - (u8::MAX % alphabet.len() as u8)\<close>, in 8-bit arithmetic, and the loop that
  appends a character for each accepted byte until the suffix is full.
\<close>

definition rejection_zone :: "8 word" where
  "rejection_zone = 255 - 255 mod (word_of_nat (length BASE58_ALPHABET))"

fun push_unbiased_base58_chars :: "string \<Rightarrow> 8 word list \<Rightarrow> string" where
  "push_unbiased_base58_chars out [] = out"
| "push_unbiased_base58_chars out (b # bs) =
     (if b < rejection_zone
      then let out' = out @ [BASE58_ALPHABET ! (unat b mod length BASE58_ALPHABET)] in
        if length out' = SUFFIX_CODE_LEN then out' else push_unbiased_base58_chars out' bs
      else push_unbiased_base58_chars out bs)"

text \<open>
  The \<open>while suffix.len() < SUFFIX_CODE_LEN\<close> loop over blocks of bytes: \<open>blocks i\<close> is the
  \<open>i\<close>-th block. It is not bounded by the code (a source that only delivers rejected bytes
  keeps it running), so it carries fuel; \<open>fill_suffix_enough\<close> says how much suffices.
\<close>

fun fill_suffix :: "nat \<Rightarrow> (nat \<Rightarrow> 8 word list) \<Rightarrow> nat \<Rightarrow> string \<Rightarrow> string option" where
  "fill_suffix fuel blocks i suffix =
     (if length suffix < SUFFIX_CODE_LEN
      then (case fuel of
              0 \<Rightarrow> None
            | Suc f \<Rightarrow>
                fill_suffix f blocks (Suc i) (push_unbiased_base58_chars suffix (blocks i)))
      else Some (take SUFFIX_CODE_LEN suffix))"

declare fill_suffix.simps [simp del]

definition random_base58_suffix :: "nat \<Rightarrow> (nat \<Rightarrow> 8 word list) \<Rightarrow> string option" where
  "random_base58_suffix fuel os_rng = fill_suffix fuel os_rng 0 []"

definition generate ::
  "nat \<Rightarrow> (nat \<Rightarrow> 8 word list) \<Rightarrow> string \<Rightarrow> (did_oan_error + did_oan) option" where
  "generate fuel os_rng routing_code =
     (case validate_routing_code routing_code of
        Inl e \<Rightarrow> Some (Inl e)
      | Inr _ \<Rightarrow> map_option
          (\<lambda>suffix. parse (DID_PREFIX @ routing_code @ '':'' @ suffix))
          (random_base58_suffix fuel os_rng))"

text \<open>\<open>u64::to_be_bytes\<close>, and the block stream of \<open>derive\<close>: the digest of seed and counter.\<close>

definition to_be_bytes :: "64 word \<Rightarrow> 8 word list" where
  "to_be_bytes w = map (\<lambda>i. ucast (drop_bit (8 * (7 - i)) w)) [0..<8]"

definition derived_base58_suffix ::
  "nat \<Rightarrow> (8 word list \<Rightarrow> 8 word list) \<Rightarrow> 8 word list \<Rightarrow> string option" where
  "derived_base58_suffix fuel sha256 seed =
     fill_suffix fuel (\<lambda>i. sha256 (seed @ to_be_bytes (word_of_nat i))) 0 []"

definition str_bytes :: "string \<Rightarrow> 8 word list" where
  "str_bytes s = map of_char s"

definition derive ::
  "nat \<Rightarrow> (8 word list \<Rightarrow> 8 word list) \<Rightarrow> string \<Rightarrow> 8 word list \<Rightarrow> 8 word list
     \<Rightarrow> (did_oan_error + did_oan) option" where
  "derive fuel sha256 routing_code controller_material nonce =
     (case validate_routing_code routing_code of
        Inl e \<Rightarrow> Some (Inl e)
      | Inr _ \<Rightarrow> map_option
          (\<lambda>suffix. parse (DID_PREFIX @ routing_code @ '':'' @ suffix))
          (derived_base58_suffix fuel sha256
             (str_bytes ''OAN-DID-SUFFIX-v2'' @ str_bytes routing_code
              @ controller_material @ nonce)))"

section \<open>Lemmas\<close>

lemmas did_consts = DID_PREFIX_def ROUTING_CODE_LEN_def SUFFIX_CODE_LEN_def DID_LEN_def

lemma alphabet_bytes:
  "map byte BASE58_ALPHABET =
     [49..<58] @ [65..<73] @ [74..<79] @ [80..<91] @ [97..<108] @ [109..<123]"
  by (simp add: BASE58_ALPHABET_def upt_rec_numeral)

lemma length_alphabet [simp]: "length BASE58_ALPHABET = 58"
  by (simp add: BASE58_ALPHABET_def)

lemma distinct_alphabet: "distinct BASE58_ALPHABET"
proof -
  have "distinct (map byte BASE58_ALPHABET)"
    unfolding alphabet_bytes by simp
  then show ?thesis by (simp add: distinct_map)
qed

lemma mem_alphabet_iff: "c \<in> set BASE58_ALPHABET \<longleftrightarrow> byte c \<in> set (map byte BASE58_ALPHABET)"
  by auto

lemma regex_class_iff: "regex_class c \<longleftrightarrow> c \<in> set BASE58_ALPHABET"
proof -
  have r: "in_range lo hi d \<longleftrightarrow> byte d \<in> set [byte lo..<Suc (byte hi)]" for lo hi d
    unfolding in_range_def set_upt atLeastLessThan_iff less_Suc_eq_le by simp
  show ?thesis
    unfolding mem_alphabet_iff alphabet_bytes regex_class_def r set_append Un_iff
    by simp
qed

lemma colon_not_base58: "CHR '':'' \<notin> set BASE58_ALPHABET"
  by (simp add: BASE58_ALPHABET_def)

lemma validate_routing_code_iff:
  "validate_routing_code r = Inr () \<longleftrightarrow> length r = 5 \<and> set r \<subseteq> set BASE58_ALPHABET"
  by (auto simp: validate_routing_code_def ROUTING_CODE_LEN_def list_all_iff)

lemma validate_suffix_code_iff:
  "validate_suffix_code s = Inr () \<longleftrightarrow> length s = 32 \<and> set s \<subseteq> set BASE58_ALPHABET"
  by (auto simp: validate_suffix_code_def SUFFIX_CODE_LEN_def list_all_iff)

lemma split_did:
  assumes "CHR '':'' \<notin> set r"
  shows "split_on (CHR '':'') (''did:oan:'' @ r @ '':'' @ s)
           = [''did'', ''oan'', r] @ split_on (CHR '':'') s"
  using split_on_append_sep [OF assms, of s] by simp

lemma did_regex_compose:
  assumes "length r = 5" "length s = 32"
    "set r \<subseteq> set BASE58_ALPHABET" "set s \<subseteq> set BASE58_ALPHABET"
  shows "did_regex (''did:oan:'' @ r @ '':'' @ s)"
proof -
  let ?t = "r @ CHR '':'' # s"
  have "strip_prefix ''did:oan:'' (''did:oan:'' @ ?t) = Some ?t"
    by (rule strip_prefix_append)
  then show ?thesis
    using assms by (auto simp: did_regex_def nth_append list_all_iff regex_class_iff)
qed

lemma parse_compose:
  assumes "length r = 5" "length s = 32"
    "set r \<subseteq> set BASE58_ALPHABET" "set s \<subseteq> set BASE58_ALPHABET"
  shows "parse (DID_PREFIX @ r @ '':'' @ s) =
           Inr \<lparr>did_value = DID_PREFIX @ r @ '':'' @ s, did_routing_code = r, did_suffix_code = s\<rparr>"
proof -
  have c: "CHR '':'' \<notin> set r" "CHR '':'' \<notin> set s"
    using assms(3,4) colon_not_base58 by auto
  have sp: "split_on (CHR '':'') (DID_PREFIX @ r @ '':'' @ s) = [''did'', ''oan'', r, s]"
    using split_did [OF c(1), of s] split_on_no_sep [OF c(2)] by (simp add: DID_PREFIX_def)
  have "validate_routing_code r = Inr ()" "validate_suffix_code s = Inr ()"
    using assms by (simp_all add: validate_routing_code_iff validate_suffix_code_iff)
  moreover have "did_regex (DID_PREFIX @ r @ '':'' @ s)"
    using did_regex_compose [OF assms] by (simp add: DID_PREFIX_def)
  ultimately show ?thesis
    unfolding parse_def sp by (simp add: Let_def)
qed

lemma parse_InrD:
  assumes "parse v = Inr d"
  shows "\<exists>r s. length r = 5 \<and> length s = 32 \<and> set r \<subseteq> set BASE58_ALPHABET
           \<and> set s \<subseteq> set BASE58_ALPHABET \<and> v = DID_PREFIX @ r @ '':'' @ s
           \<and> d = \<lparr>did_value = v, did_routing_code = r, did_suffix_code = s\<rparr>"
proof -
  let ?p = "split_on (CHR '':'') v"
  from assms obtain t where pre: "v = DID_PREFIX @ t" and len: "length ?p = 4"
    and r: "validate_routing_code (?p ! 2) = Inr ()"
    and s: "validate_suffix_code (?p ! 3) = Inr ()"
    and d: "d = \<lparr>did_value = v, did_routing_code = ?p ! 2, did_suffix_code = ?p ! 3\<rparr>"
    by (auto simp: parse_def Let_def starts_with_iff split: if_splits)
  have "?p = ''did'' # ''oan'' # split_on (CHR '':'') t"
    by (simp add: pre DID_PREFIX_def)
  with len obtain a b where ab: "split_on (CHR '':'') t = [a, b]"
    by (auto simp: length_Suc_conv numeral_eq_Suc)
  have "v = DID_PREFIX @ a @ '':'' @ b"
    using join_split_on [of "CHR '':''" t] by (simp add: ab pre)
  with r s d show ?thesis
    using \<open>?p = _\<close> by (auto simp: ab validate_routing_code_iff validate_suffix_code_iff)
qed

section \<open>The sampling loop\<close>

definition accepted :: "8 word list \<Rightarrow> nat" where
  "accepted bs = length (filter (\<lambda>b. b < rejection_zone) bs)"

lemma rejection_zone_eq: "rejection_zone = 232"
  by (simp add: rejection_zone_def unsigned_of_nat)

lemma push_length:
  "length out < 32 \<Longrightarrow>
     length (push_unbiased_base58_chars out bs) = min 32 (length out + accepted bs)"
proof (induction out bs rule: push_unbiased_base58_chars.induct)
  case (2 out b bs)
  then show ?case
    by (cases "length out = 31") (auto simp: accepted_def SUFFIX_CODE_LEN_def Let_def)
qed (simp add: accepted_def)

lemma push_alphabet:
  "set out \<subseteq> set BASE58_ALPHABET \<Longrightarrow>
     set (push_unbiased_base58_chars out bs) \<subseteq> set BASE58_ALPHABET"
  by (induction out bs rule: push_unbiased_base58_chars.induct) (auto simp: Let_def)

lemma fill_suffix_valid:
  "fill_suffix fuel blocks i out = Some s \<Longrightarrow> length out \<le> 32 \<Longrightarrow>
     set out \<subseteq> set BASE58_ALPHABET \<Longrightarrow> length s = 32 \<and> set s \<subseteq> set BASE58_ALPHABET"
proof (induction fuel arbitrary: i out)
  case 0
  then show ?case
    by (auto simp: fill_suffix.simps SUFFIX_CODE_LEN_def split: if_splits)
next
  case (Suc f)
  show ?case
  proof (cases "length out < 32")
    case True
    let ?o = "push_unbiased_base58_chars out (blocks i)"
    have "fill_suffix f blocks (Suc i) ?o = Some s"
      using Suc.prems(1) True by (subst (asm) fill_suffix.simps) (simp add: SUFFIX_CODE_LEN_def)
    moreover have "length ?o \<le> 32" using push_length [OF True] by simp
    moreover have "set ?o \<subseteq> set BASE58_ALPHABET" by (rule push_alphabet [OF Suc.prems(3)])
    ultimately show ?thesis by (rule Suc.IH)
  next
    case False
    with Suc.prems show ?thesis
      by (subst (asm) fill_suffix.simps) (auto simp: SUFFIX_CODE_LEN_def)
  qed
qed

lemma fill_suffix_enough:
  "length out \<le> 32 \<Longrightarrow> 32 \<le> length out + (\<Sum>j<fuel. accepted (blocks (i + j))) \<Longrightarrow>
     \<exists>s. fill_suffix fuel blocks i out = Some s"
proof (induction fuel arbitrary: i out)
  case 0
  then show ?case by (subst fill_suffix.simps) (simp add: SUFFIX_CODE_LEN_def)
next
  case (Suc f)
  show ?case
  proof (cases "length out < 32")
    case True
    let ?o = "push_unbiased_base58_chars out (blocks i)"
    have "(\<Sum>j<Suc f. accepted (blocks (i + j)))
            = accepted (blocks i) + (\<Sum>j<f. accepted (blocks (Suc i + j)))"
      unfolding sum.lessThan_Suc_shift by simp
    with Suc.prems push_length [OF True, of "blocks i"]
    have "length ?o \<le> 32" "32 \<le> length ?o + (\<Sum>j<f. accepted (blocks (Suc i + j)))"
      by auto
    from Suc.IH [OF this] True show ?thesis
      by (subst fill_suffix.simps) (simp add: SUFFIX_CODE_LEN_def)
  next
    case False
    then show ?thesis by (subst fill_suffix.simps) (simp add: SUFFIX_CODE_LEN_def)
  qed
qed

lemma routing_code_cases:
  "validate_routing_code r = Inr u \<longleftrightarrow> length r = 5 \<and> set r \<subseteq> set BASE58_ALPHABET"
  using validate_routing_code_iff by (cases u) simp

lemma suffix_gives_did:
  assumes "validate_routing_code r = Inr u" and "length s = 32" and "set s \<subseteq> set BASE58_ALPHABET"
  shows "parse (DID_PREFIX @ r @ '':'' @ s) =
           Inr \<lparr>did_value = DID_PREFIX @ r @ '':'' @ s, did_routing_code = r, did_suffix_code = s\<rparr>"
  using assms parse_compose by (simp add: routing_code_cases)

lemma derived_valid:
  assumes "derived_base58_suffix fuel sha256 seed = Some s"
  shows "length s = 32 \<and> set s \<subseteq> set BASE58_ALPHABET"
  using fill_suffix_valid assms unfolding derived_base58_suffix_def by fastforce

lemma random_valid:
  assumes "random_base58_suffix fuel rng = Some s"
  shows "length s = 32 \<and> set s \<subseteq> set BASE58_ALPHABET"
  using fill_suffix_valid assms unfolding random_base58_suffix_def by fastforce

lemma derive_InrD:
  assumes "derive fuel sha256 r material nonce = Some (Inr d)"
  shows "parse (as_str d) = Inr d \<and> did_routing_code d = r"
proof (cases "validate_routing_code r")
  case (Inr u)
  with assms obtain s where s: "derived_base58_suffix fuel sha256 (str_bytes ''OAN-DID-SUFFIX-v2''
      @ str_bytes r @ material @ nonce) = Some s"
    by (auto simp: derive_def split: option.splits)
  from suffix_gives_did [OF Inr] derived_valid [OF s] s Inr assms show ?thesis
    by (auto simp: derive_def as_str_def)
qed (use assms in \<open>simp add: derive_def\<close>)

lemma byte_of_nat: "x < 256 \<Longrightarrow> unat (word_of_nat x :: 8 word) = x"
  by (simp add: unat_of_nat take_bit_nat_eq_self)

section \<open>Properties\<close>

text \<open>
  C25. The parser accepts exactly the strings \<open>did:oan:r:s\<close> whose routing code \<open>r\<close> has 5 and
  whose suffix code \<open>s\<close> has 32 Base58 characters, and returns these parts and the string.
\<close>

theorem parse_accepts_exactly:
  "parse v = Inr d \<longleftrightarrow>
     (\<exists>r s. length r = ROUTING_CODE_LEN \<and> length s = SUFFIX_CODE_LEN
        \<and> set r \<subseteq> set BASE58_ALPHABET \<and> set s \<subseteq> set BASE58_ALPHABET
        \<and> v = DID_PREFIX @ r @ '':'' @ s
        \<and> d = \<lparr>did_value = v, did_routing_code = r, did_suffix_code = s\<rparr>)"
  using parse_InrD [of v d] parse_compose
  by (auto simp: ROUTING_CODE_LEN_def SUFFIX_CODE_LEN_def)

text \<open>
  Printing a parsed identifier and parsing it again gives the same identifier, its text
  has \<open>DID_LEN\<close> bytes, and the final regex check never rejects what the code checks let pass.
\<close>

theorem parse_print_roundtrip:
  "(parse v = Inr d \<longrightarrow> from_str (as_str d) = Inr d \<and> length (as_str d) = DID_LEN)
   \<and> parse v \<noteq> Inl InvalidSyntax"
proof -
  have "parse v \<noteq> Inl InvalidSyntax"
  proof
    assume a: "parse v = Inl InvalidSyntax"
    let ?p = "split_on (CHR '':'') v"
    from a obtain t where pre: "v = DID_PREFIX @ t" and len: "length ?p = 4"
      and r: "validate_routing_code (?p ! 2) = Inr ()"
      and s: "validate_suffix_code (?p ! 3) = Inr ()" and n: "\<not> did_regex v"
      by (auto simp: parse_def Let_def starts_with_iff rbind_Inl_iff
            validate_routing_code_def validate_suffix_code_def split: if_splits)
    have p: "?p = ''did'' # ''oan'' # split_on (CHR '':'') t"
      by (simp add: pre DID_PREFIX_def)
    with len obtain a b where ab: "split_on (CHR '':'') t = [a, b]"
      by (auto simp: length_Suc_conv numeral_eq_Suc)
    have "v = ''did:oan:'' @ a @ '':'' @ b"
      using join_split_on [of "CHR '':''" t] by (simp add: ab pre DID_PREFIX_def)
    moreover from r s have "did_regex (''did:oan:'' @ a @ '':'' @ b)"
      by (intro did_regex_compose)
        (auto simp: p ab validate_routing_code_iff validate_suffix_code_iff)
    ultimately show False using n by simp
  qed
  moreover have "from_str (as_str d) = Inr d \<and> length (as_str d) = DID_LEN" if "parse v = Inr d"
    using that parse_InrD [OF that] by (auto simp: from_str_def as_str_def did_consts)
  ultimately show ?thesis by blast
qed

theorem parse_print_roundtrip_witness:
  "from_str ''did:oan:K7mQ9:7YpQm9Kx2VnRb6Ts3WfHa4Cd5Ej8LgNz''
     = Inr \<lparr>did_value = ''did:oan:K7mQ9:7YpQm9Kx2VnRb6Ts3WfHa4Cd5Ej8LgNz'',
            did_routing_code = ''K7mQ9'',
            did_suffix_code = ''7YpQm9Kx2VnRb6Ts3WfHa4Cd5Ej8LgNz''\<rparr>"
proof -
  let ?d = "\<lparr>did_value = ''did:oan:K7mQ9:7YpQm9Kx2VnRb6Ts3WfHa4Cd5Ej8LgNz'',
            did_routing_code = ''K7mQ9'',
            did_suffix_code = ''7YpQm9Kx2VnRb6Ts3WfHa4Cd5Ej8LgNz''\<rparr>"
  have "parse ''did:oan:K7mQ9:7YpQm9Kx2VnRb6Ts3WfHa4Cd5Ej8LgNz'' = Inr ?d"
    by code_simp
  then show ?thesis
    using parse_print_roundtrip [of "''did:oan:K7mQ9:7YpQm9Kx2VnRb6Ts3WfHa4Cd5Ej8LgNz''" ?d]
    by (simp add: as_str_def)
qed

text \<open>
  C27. Rejection sampling is unbiased: every character of the alphabet is drawn by exactly
  four of the accepted byte values.
\<close>

theorem base58_sampling_unbiased:
  "\<forall>c \<in> set BASE58_ALPHABET.
     card {b :: 8 word. b < rejection_zone \<and> push_unbiased_base58_chars [] [b] = [c]} = 4"
proof
  fix c assume "c \<in> set BASE58_ALPHABET"
  then obtain i where i: "i < 58" "BASE58_ALPHABET ! i = c"
    by (auto simp: in_set_conv_nth)
  have idx: "BASE58_ALPHABET ! j = c \<longleftrightarrow> j = i" if "j < 58" for j
    using that i distinct_alphabet nth_eq_iff_index_eq [of BASE58_ALPHABET j i] by auto
  have "{b :: 8 word. b < rejection_zone \<and> push_unbiased_base58_chars [] [b] = [c]}
          = {b. unat b < 232 \<and> unat b mod 58 = i}"
    using idx by (auto simp: rejection_zone_eq Let_def SUFFIX_CODE_LEN_def word_less_nat_alt)
  also have "\<dots> = word_of_nat ` {i, i + 58, i + 116, i + 174}"
  proof (intro set_eqI iffI)
    fix b :: "8 word" assume b: "b \<in> {b. unat b < 232 \<and> unat b mod 58 = i}"
    then have q: "unat b div 58 < 4" and m: "unat b = 58 * (unat b div 58) + i"
      by (auto simp: less_mult_imp_div_less)
    from q have "unat b div 58 = 0 \<or> unat b div 58 = 1 \<or> unat b div 58 = 2 \<or> unat b div 58 = 3"
      by arith
    with m have "unat b \<in> {i, i + 58, i + 116, i + 174}" by auto
    moreover have "b = word_of_nat (unat b)" by simp
    ultimately show "b \<in> word_of_nat ` {i, i + 58, i + 116, i + 174}" by (rule rev_image_eqI)
  next
    fix b :: "8 word" assume "b \<in> word_of_nat ` {i, i + 58, i + 116, i + 174}"
    then obtain x where x: "x \<in> {i, i + 58, i + 116, i + 174}" and b: "b = word_of_nat x"
      by blast
    with i have "unat b = x" using byte_of_nat [of x] by auto
    moreover have "x mod 58 = i"
      using x i mod_mult_self2 [of i 58 1] mod_mult_self2 [of i 58 2] mod_mult_self2 [of i 58 3]
      by auto
    ultimately show "b \<in> {b. unat b < 232 \<and> unat b mod 58 = i}" using x i by auto
  qed
  also have "card \<dots> = card {i, i + 58, i + 116, i + 174}"
  proof (rule card_image, rule inj_onI)
    fix x y assume "x \<in> {i, i + 58, i + 116, i + 174}" "y \<in> {i, i + 58, i + 116, i + 174}"
      and e: "(word_of_nat x :: 8 word) = word_of_nat y"
    then have "x < 256" "y < 256" using i by auto
    from byte_of_nat [OF this(1)] byte_of_nat [OF this(2)] e show "x = y" by metis
  qed
  also have "\<dots> = 4" by simp
  finally show "card {b :: 8 word. b < rejection_zone \<and> push_unbiased_base58_chars [] [b] = [c]} = 4" .
qed

theorem base58_sampling_unbiased_witness:
  "card {b :: 8 word. b < rejection_zone \<and> push_unbiased_base58_chars [] [b] = ''7''} = 4"
proof -
  have "CHR ''7'' \<in> set BASE58_ALPHABET" by (simp add: BASE58_ALPHABET_def)
  from bspec [OF base58_sampling_unbiased this] show ?thesis .
qed

text \<open>
  C26. Derivation succeeds once the digests of the first \<open>fuel\<close> counters hold 32 accepted
  bytes: it then returns a well-formed identifier under the routing code it was given.
\<close>

theorem derive_returns_did:
  assumes "validate_routing_code r = Inr ()"
    and "32 \<le> (\<Sum>j<fuel. accepted (sha256 (str_bytes ''OAN-DID-SUFFIX-v2'' @ str_bytes r
                 @ material @ nonce @ to_be_bytes (word_of_nat j))))"
  shows "\<exists>d. derive fuel sha256 r material nonce = Some (Inr d) \<and> did_routing_code d = r
           \<and> parse (as_str d) = Inr d"
proof -
  let ?seed = "str_bytes ''OAN-DID-SUFFIX-v2'' @ str_bytes r @ material @ nonce"
  have "\<exists>s. derived_base58_suffix fuel sha256 ?seed = Some s"
    unfolding derived_base58_suffix_def by (rule fill_suffix_enough) (use assms(2) in simp_all)
  then obtain s where s: "derived_base58_suffix fuel sha256 ?seed = Some s" ..
  from suffix_gives_did [OF assms(1)] derived_valid [OF s] s assms(1) show ?thesis
    by (auto simp: derive_def as_str_def)
qed

theorem derive_returns_did_witness:
  "\<exists>d. derive 1 (\<lambda>_. replicate 32 0) ''K7mQ9'' [1] [2] = Some (Inr d)
     \<and> did_routing_code d = ''K7mQ9'' \<and> parse (as_str d) = Inr d"
proof (rule derive_returns_did)
  show "validate_routing_code ''K7mQ9'' = Inr ()" by code_simp
qed (simp add: accepted_def rejection_zone_eq)

end
