(* ===== verification/CoreDocument.thy ===== *)
theory CoreDocument
  imports CoreTypes DidOan
begin

text \<open>
  The DID Document validators of \<open>crates/oan-core\<close>: \<open>validate_mvp\<close>,
  \<open>validate_oan_resource\<close>, \<open>validate_infrastructure_profile\<close>, with the type table, the
  proof check and the external identifier check they call.
\<close>

definition DID_OAN_CONTEXTS :: "string list" where
  "DID_OAN_CONTEXTS =
     [''https://www.w3.org/ns/did/v1'',
      ''https://openagenet.xyz/did-oan-specs/v1'',
      ''https://w3id.org/security/suites/ed25519-2020/v1'']"

datatype did_document_error =
  EmptyId
| MissingDidCoreContext
| MissingVerificationMethod
| MissingAuthentication
| MissingAssertionMethod
| MissingOanMetadata
| ResourceTypeMismatch
| InvalidDidOanIdentifier
| MissingController
| MissingProof
| InvalidProof string
| InvalidExternalIdentifier string
| InvalidTypeCombination
| ControllerDidMismatch

definition document_error_text :: "did_document_error \<Rightarrow> string" where
  "document_error_text e = (case e of
     EmptyId \<Rightarrow> ''did document id is empty''
   | MissingDidCoreContext \<Rightarrow> ''did document context must include https://www.w3.org/ns/did/v1''
   | MissingVerificationMethod \<Rightarrow>
       ''did document must include at least one verification method''
   | MissingAuthentication \<Rightarrow> ''did document must include at least one authentication method''
   | MissingAssertionMethod \<Rightarrow> ''did document must include at least one assertion method''
   | MissingOanMetadata \<Rightarrow> ''oan metadata missing''
   | ResourceTypeMismatch \<Rightarrow>
       ''oan subject type and resource type must match for discoverable resources''
   | InvalidDidOanIdentifier \<Rightarrow> ''did:oan identifier does not match current did:oan syntax''
   | MissingController \<Rightarrow> ''did document controller is required''
   | MissingProof \<Rightarrow> ''did document top-level proof is required''
   | InvalidProof r \<Rightarrow> ''did document proof is invalid: '' @ r
   | InvalidExternalIdentifier r \<Rightarrow> ''external identifier list is invalid: '' @ r
   | InvalidTypeCombination \<Rightarrow> ''subject type and resource type combination is invalid''
   | ControllerDidMismatch \<Rightarrow>
       ''oan metadata controllerDid must match the top-level controller'')"

definition key_1 :: "string \<Rightarrow> string" where
  "key_1 did = did @ ''#key-1''"

section \<open>The checks\<close>

definition validate_mvp :: "did_document \<Rightarrow> did_document_error + unit" where
  "validate_mvp d =
     (if dd_id d = [] then Inl EmptyId
      else if dd_context d \<noteq> DID_OAN_CONTEXTS then Inl MissingDidCoreContext
      else if dd_verification_method d = [] then Inl MissingVerificationMethod
      else if dd_authentication d = [] then Inl MissingAuthentication
      else if dd_assertion_method d = [] then Inl MissingAssertionMethod
      else Inr ())"

definition valid_type_combination :: "subject_type \<Rightarrow> resource_type \<Rightarrow> bool" where
  "valid_type_combination subject resource \<longleftrightarrow>
     List.member
       [(SAgentInstance, RAgentInstance), (SAgentInstance, RAgentService),
        (SAgentProduct, RAgentProduct), (SOrganization, ROrganization),
        (SDeveloper, RDeveloper), (SAgentService, RAgentService), (SSkill, RSkill),
        (SMcpServer, RMcpServer), (SToolApi, RToolApi),
        (SInfrastructureNode, RInfrastructureNode), (SInfrastructureNode, RRootNode),
        (SInfrastructureNode, RRegistrarNode), (SInfrastructureNode, RDiscoveryNode),
        (SInfrastructureNode, RCdnNode), (SInfrastructureNode, RVcIssuerNode),
        (SInfrastructureNode, RTrustIndexerNode), (SRootNode, RRootNode),
        (SRegistrarNode, RRegistrarNode), (SDiscoveryNode, RDiscoveryNode),
        (SCdnNode, RCdnNode), (SVcIssuerNode, RVcIssuerNode),
        (STrustIndexerNode, RTrustIndexerNode), (SController, RController),
        (SUnspecified, RUnspecified)]
       (subject, resource)"

text \<open>The slice \<open>proof_value[1..]\<close> is only taken of a text that starts with \<open>z\<close>.\<close>

definition validate_proof ::
  "externs \<Rightarrow> did_document \<Rightarrow> data_integrity_proof \<Rightarrow> did_document_error + unit" where
  "validate_proof X document proof =
     rbind (ok_or (pf_verification_method proof) (InvalidProof ''verificationMethod''))
       (\<lambda>verification_method.
        let expected_method = key_1 (dd_id document) in
        if pf_creator proof \<noteq> []
           \<or> pf_crypto_suite proof \<noteq> None
           \<or> pf_hash_algorithm proof \<noteq> None
           \<or> pf_type proof \<noteq> ''Ed25519Signature2020''
           \<or> pf_purpose proof \<noteq> ''assertionMethod''
           \<or> verification_method \<noteq> expected_method
           \<or> \<not> starts_with (pf_value proof) ''z''
           \<or> (case b58_decode X (tl (pf_value proof)) of
                 None \<Rightarrow> True | Some signature \<Rightarrow> length signature \<noteq> 64)
           \<or> verification_method \<notin> set (dd_assertion_method document)
           \<or> verification_method \<notin> set (dd_authentication document)
        then Inl (InvalidProof ''did:oan'')
        else Inr ())"

text \<open>\<open>serde_json::to_vec(values)\<close>: the compact text, fields in declaration order.\<close>

definition external_identifier_text :: "externs \<Rightarrow> external_identifier \<Rightarrow> string" where
  "external_identifier_text X e =
     ''{'' @ quote X ''id'' @ '':'' @ quote X (ei_id e)
     @ (case ei_endpoint e of
          None \<Rightarrow> []
        | Some u \<Rightarrow> '','' @ quote X ''resolutionServiceEndpoint'' @ '':'' @ quote X u)
     @ ''}''"

definition external_identifiers_text :: "externs \<Rightarrow> external_identifier list \<Rightarrow> string" where
  "external_identifiers_text X es =
     ''['' @ join '','' (map (external_identifier_text X) es) @ '']''"

fun check_external_identifiers ::
  "externs \<Rightarrow> (string \<times> string) list \<Rightarrow> external_identifier list \<Rightarrow> did_document_error + unit"
where
  "check_external_identifiers X ids [] = Inr ()"
| "check_external_identifiers X ids (v # vs) =
     (if ei_id v = [] \<or> length (ei_id v) > 512 \<or> has_control (ei_id v)
         \<or> starts_with (ei_id v) ''did:oan:''
      then Inl (InvalidExternalIdentifier ''id'')
      else let endpoint_key = (case ei_endpoint v of None \<Rightarrow> [] | Some u \<Rightarrow> u) in
        if (endpoint_key, ei_id v) \<in> set ids then Inl (InvalidExternalIdentifier ''duplicate'')
        else let ids' = (endpoint_key, ei_id v) # ids in
          case ei_endpoint v of
            None \<Rightarrow> check_external_identifiers X ids' vs
          | Some endpoint \<Rightarrow>
              if length endpoint > 1024 then Inl (InvalidExternalIdentifier ''endpointLength'')
              else rbind (ok_or (url_parse X endpoint) (InvalidExternalIdentifier ''endpointUri''))
                (\<lambda>(scheme, username, password).
                  if scheme \<in> set [''file'', ''data'', ''javascript''] \<or> username \<noteq> []
                     \<or> password \<noteq> None
                  then Inl (InvalidExternalIdentifier ''endpointSafety'')
                  else check_external_identifiers X ids' vs))"

definition validate_external_identifiers ::
  "externs \<Rightarrow> external_identifier list \<Rightarrow> did_document_error + unit" where
  "validate_external_identifiers X values =
     (if length values > 8 then Inl (InvalidExternalIdentifier ''maxItems'')
      else rbind (check_external_identifiers X [] values) (\<lambda>_.
        if length (external_identifiers_text X values) > 8192
        then Inl (InvalidExternalIdentifier ''maxBytes'')
        else Inr ()))"

definition validate_oan_resource :: "externs \<Rightarrow> did_document \<Rightarrow> did_document_error + unit" where
  "validate_oan_resource X d =
     rbind (validate_mvp d) (\<lambda>_.
     rbind (ok_or (dd_controller d) MissingController) (\<lambda>controller.
     rbind (ok_or (dd_metadata d) MissingOanMetadata) (\<lambda>metadata.
     if (case md_controller_did metadata of
           None \<Rightarrow> False | Some did \<Rightarrow> \<not> controller_contains controller did)
     then Inl ControllerDidMismatch
     else if \<not> valid_type_combination (md_subject_type metadata) (md_resource_type metadata)
     then Inl InvalidTypeCombination
     else if md_subject_type metadata = SController \<and> md_resource_type metadata = RController
             \<and> \<not> controller_contains controller (dd_id d)
     then Inl ControllerDidMismatch
     else rbind (map_err (\<lambda>_. InvalidDidOanIdentifier) (parse (dd_id d))) (\<lambda>_.
     rbind (ok_or (dd_proof d) MissingProof) (\<lambda>proof.
     rbind (validate_proof X d proof) (\<lambda>_.
     rbind (validate_external_identifiers X (md_external_identifiers metadata)) (\<lambda>_.
     Inr ())))))))"

definition expected_service_type :: "resource_type \<Rightarrow> string option" where
  "expected_service_type r = (case r of
     RRootNode \<Rightarrow> Some ''OANRootService''
   | RRegistrarNode \<Rightarrow> Some ''OANRegistrarService''
   | RDiscoveryNode \<Rightarrow> Some ''OANDiscoveryService''
   | RVcIssuerNode \<Rightarrow> Some ''OANVcIssuerService''
   | _ \<Rightarrow> None)"

definition validate_infrastructure_profile ::
  "did_document \<Rightarrow> resource_type \<Rightarrow> did_document_error + unit" where
  "validate_infrastructure_profile d expected_resource_type =
     rbind (validate_mvp d) (\<lambda>_.
     rbind (ok_or (dd_metadata d) MissingOanMetadata) (\<lambda>metadata.
     if md_subject_type metadata \<noteq> SInfrastructureNode
        \<or> md_resource_type metadata \<noteq> expected_resource_type
     then Inl InvalidTypeCombination
     else if md_identity_type metadata \<noteq> None
        \<or> ''nodeRole'' \<in> set (keys (md_extra metadata))
        \<or> ''identityType'' \<in> set (keys (md_extra metadata))
     then Inl InvalidTypeCombination
     else rbind (ok_or (dd_controller d) MissingController) (\<lambda>controller.
     let key_id = key_1 (dd_id d) in
     rbind (ok_or (List.find (\<lambda>m. vm_id m = key_id \<and> vm_controller m = dd_id d)
                    (dd_verification_method d)) MissingVerificationMethod) (\<lambda>m.
     rbind (ok_or (expected_service_type expected_resource_type) InvalidTypeCombination)
       (\<lambda>service_type.
     if key_id \<notin> set (dd_authentication d)
        \<or> key_id \<notin> set (dd_assertion_method d)
        \<or> \<not> controller_contains controller (dd_id d)
        \<or> \<not> list_ex (\<lambda>s. se_type s = service_type) (dd_service d)
     then Inl InvalidTypeCombination
     else if dd_proof d = None \<or> vm_suite m = None then Inl MissingProof
     else Inr ())))))"

section \<open>Lemmas\<close>

lemma validate_mvp_iff:
  "validate_mvp d = Inr u \<longleftrightarrow>
     dd_id d \<noteq> [] \<and> dd_context d = DID_OAN_CONTEXTS \<and> dd_verification_method d \<noteq> []
     \<and> dd_authentication d \<noteq> [] \<and> dd_assertion_method d \<noteq> []"
  by (simp add: validate_mvp_def)

lemma validate_proof_iff:
  "validate_proof X d p = Inr u \<longleftrightarrow>
     pf_creator p = [] \<and> pf_crypto_suite p = None \<and> pf_hash_algorithm p = None
     \<and> pf_type p = ''Ed25519Signature2020'' \<and> pf_purpose p = ''assertionMethod''
     \<and> pf_verification_method p = Some (key_1 (dd_id d))
     \<and> (\<exists>e sig. pf_value p = CHR ''z'' # e \<and> b58_decode X e = Some sig \<and> length sig = 64)
     \<and> key_1 (dd_id d) \<in> set (dd_assertion_method d)
     \<and> key_1 (dd_id d) \<in> set (dd_authentication d)"
  by (auto simp: validate_proof_def Let_def starts_with_iff split: option.splits if_splits)

text \<open>What one external identifier must satisfy, and when two count as the same.\<close>

definition identifier_key :: "external_identifier \<Rightarrow> string \<times> string" where
  "identifier_key e = ((case ei_endpoint e of None \<Rightarrow> [] | Some u \<Rightarrow> u), ei_id e)"

definition identifier_ok :: "externs \<Rightarrow> external_identifier \<Rightarrow> bool" where
  "identifier_ok X e \<longleftrightarrow>
     ei_id e \<noteq> [] \<and> length (ei_id e) \<le> 512 \<and> \<not> has_control (ei_id e)
     \<and> \<not> starts_with (ei_id e) ''did:oan:''
     \<and> (case ei_endpoint e of None \<Rightarrow> True | Some u \<Rightarrow> length u \<le> 1024
          \<and> (\<exists>scheme. url_parse X u = Some (scheme, [], None)
               \<and> scheme \<notin> {''file'', ''data'', ''javascript''}))"

lemma check_external_identifiers_Cons:
  "check_external_identifiers X ids (v # vs) = Inr u \<longleftrightarrow>
     identifier_ok X v \<and> identifier_key v \<notin> set ids
     \<and> check_external_identifiers X (identifier_key v # ids) vs = Inr u"
proof (cases "ei_endpoint v")
  case None
  then show ?thesis by (auto simp: identifier_ok_def identifier_key_def Let_def)
next
  case (Some e)
  then show ?thesis
    by (cases "url_parse X e")
      (auto simp: identifier_ok_def identifier_key_def Let_def split: if_splits)
qed

lemma check_external_identifiers_iff:
  "check_external_identifiers X ids vs = Inr u \<longleftrightarrow>
     (\<forall>v \<in> set vs. identifier_ok X v) \<and> distinct (map identifier_key vs)
     \<and> set (map identifier_key vs) \<inter> set ids = {}"
proof (induction vs arbitrary: ids)
  case (Cons v vs)
  show ?case unfolding check_external_identifiers_Cons Cons.IH by auto
qed simp

lemma validate_external_identifiers_iff:
  "validate_external_identifiers X vs = Inr u \<longleftrightarrow>
     length vs \<le> 8 \<and> (\<forall>v \<in> set vs. identifier_ok X v) \<and> distinct (map identifier_key vs)
     \<and> length (external_identifiers_text X vs) \<le> 8192"
  by (auto simp: validate_external_identifiers_def check_external_identifiers_iff split: if_splits)

lemma valid_type_combination_iff:
  "valid_type_combination s r \<longleftrightarrow>
     (case s of
        SAgentInstance \<Rightarrow> r = RAgentInstance \<or> r = RAgentService
      | SAgentProduct \<Rightarrow> r = RAgentProduct | SOrganization \<Rightarrow> r = ROrganization
      | SDeveloper \<Rightarrow> r = RDeveloper | SAgentService \<Rightarrow> r = RAgentService
      | SSkill \<Rightarrow> r = RSkill | SMcpServer \<Rightarrow> r = RMcpServer | SToolApi \<Rightarrow> r = RToolApi
      | SInfrastructureNode \<Rightarrow> r \<in> {RInfrastructureNode, RRootNode, RRegistrarNode,
          RDiscoveryNode, RCdnNode, RVcIssuerNode, RTrustIndexerNode}
      | SRootNode \<Rightarrow> r = RRootNode | SRegistrarNode \<Rightarrow> r = RRegistrarNode
      | SDiscoveryNode \<Rightarrow> r = RDiscoveryNode | SCdnNode \<Rightarrow> r = RCdnNode
      | SVcIssuerNode \<Rightarrow> r = RVcIssuerNode | STrustIndexerNode \<Rightarrow> r = RTrustIndexerNode
      | SController \<Rightarrow> r = RController | SUnspecified \<Rightarrow> r = RUnspecified | SAgent \<Rightarrow> False)"
  by (cases s) (simp_all add: valid_type_combination_def)

text \<open>
  What an accepted resource document is, clause by clause, without the validators and the order of
  their checks. First the pairs of types, and the proof.
\<close>

definition types_allowed :: "subject_type \<Rightarrow> resource_type \<Rightarrow> bool" where
  "types_allowed s r \<longleftrightarrow>
     (case s of
        SAgentInstance \<Rightarrow> r = RAgentInstance \<or> r = RAgentService
      | SAgentProduct \<Rightarrow> r = RAgentProduct | SOrganization \<Rightarrow> r = ROrganization
      | SDeveloper \<Rightarrow> r = RDeveloper | SAgentService \<Rightarrow> r = RAgentService
      | SSkill \<Rightarrow> r = RSkill | SMcpServer \<Rightarrow> r = RMcpServer | SToolApi \<Rightarrow> r = RToolApi
      | SInfrastructureNode \<Rightarrow> r \<in> {RInfrastructureNode, RRootNode, RRegistrarNode,
          RDiscoveryNode, RCdnNode, RVcIssuerNode, RTrustIndexerNode}
      | SRootNode \<Rightarrow> r = RRootNode | SRegistrarNode \<Rightarrow> r = RRegistrarNode
      | SDiscoveryNode \<Rightarrow> r = RDiscoveryNode | SCdnNode \<Rightarrow> r = RCdnNode
      | SVcIssuerNode \<Rightarrow> r = RVcIssuerNode | STrustIndexerNode \<Rightarrow> r = RTrustIndexerNode
      | SController \<Rightarrow> r = RController | SUnspecified \<Rightarrow> r = RUnspecified | SAgent \<Rightarrow> False)"

definition proof_well_formed :: "externs \<Rightarrow> did_document \<Rightarrow> data_integrity_proof \<Rightarrow> bool" where
  "proof_well_formed X d p \<longleftrightarrow>
     pf_creator p = [] \<and> pf_crypto_suite p = None \<and> pf_hash_algorithm p = None
     \<and> pf_type p = ''Ed25519Signature2020'' \<and> pf_purpose p = ''assertionMethod''
     \<and> pf_verification_method p = Some (dd_id d @ ''#key-1'')
     \<and> (\<exists>e sig. pf_value p = CHR ''z'' # e \<and> b58_decode X e = Some sig \<and> length sig = 64)
     \<and> dd_id d @ ''#key-1'' \<in> set (dd_assertion_method d)
     \<and> dd_id d @ ''#key-1'' \<in> set (dd_authentication d)"

definition has_controller :: "did_controller \<Rightarrow> string \<Rightarrow> bool" where
  "has_controller c did \<longleftrightarrow> (case c of Did v \<Rightarrow> v = did | Dids vs \<Rightarrow> did \<in> set vs)"

definition resource_document_ok ::
  "externs \<Rightarrow> did_document \<Rightarrow> did_controller \<Rightarrow> oan_metadata \<Rightarrow> data_integrity_proof \<Rightarrow> bool" where
  "resource_document_ok X d c m p \<longleftrightarrow>
     dd_context d = [''https://www.w3.org/ns/did/v1'', ''https://openagenet.xyz/did-oan-specs/v1'',
       ''https://w3id.org/security/suites/ed25519-2020/v1'']
     \<and> dd_verification_method d \<noteq> []
     \<and> (\<exists>r s. length r = 5 \<and> length s = 32 \<and> set r \<subseteq> set BASE58_ALPHABET
          \<and> set s \<subseteq> set BASE58_ALPHABET \<and> dd_id d = ''did:oan:'' @ r @ '':'' @ s)
     \<and> dd_controller d = Some c \<and> dd_metadata d = Some m \<and> dd_proof d = Some p
     \<and> (\<forall>did. md_controller_did m = Some did \<longrightarrow> has_controller c did)
     \<and> types_allowed (md_subject_type m) (md_resource_type m)
     \<and> (md_resource_type m = RController \<longrightarrow> has_controller c (dd_id d))
     \<and> proof_well_formed X d p
     \<and> length (md_external_identifiers m) \<le> 8
     \<and> (\<forall>e \<in> set (md_external_identifiers m). identifier_ok X e)
     \<and> distinct (map identifier_key (md_external_identifiers m))
     \<and> length (external_identifiers_text X (md_external_identifiers m)) \<le> 8192"

lemma parse_Inr_iff:
  "(\<exists>d. parse v = Inr d) \<longleftrightarrow>
     (\<exists>r s. length r = 5 \<and> length s = 32 \<and> set r \<subseteq> set BASE58_ALPHABET
        \<and> set s \<subseteq> set BASE58_ALPHABET \<and> v = ''did:oan:'' @ r @ '':'' @ s)"
  using parse_InrD [of v] parse_compose unfolding DID_PREFIX_def by blast

text \<open>The clauses are what the validators check.\<close>

lemma resource_document_checks:
  "resource_document_ok X d c m p \<longleftrightarrow>
     dd_context d = DID_OAN_CONTEXTS \<and> dd_verification_method d \<noteq> []
     \<and> (\<exists>did. parse (dd_id d) = Inr did)
     \<and> dd_controller d = Some c \<and> dd_metadata d = Some m \<and> dd_proof d = Some p
     \<and> (\<forall>did. md_controller_did m = Some did \<longrightarrow> controller_contains c did)
     \<and> valid_type_combination (md_subject_type m) (md_resource_type m)
     \<and> (md_resource_type m = RController \<longrightarrow> controller_contains c (dd_id d))
     \<and> validate_proof X d p = Inr ()
     \<and> validate_external_identifiers X (md_external_identifiers m) = Inr ()"
  unfolding resource_document_ok_def DID_OAN_CONTEXTS_def parse_Inr_iff validate_proof_iff
    validate_external_identifiers_iff valid_type_combination_iff controller_contains_iff
    types_allowed_def proof_well_formed_def has_controller_def key_1_def
  by simp

lemma parse_nonempty: "parse v = Inr d \<Longrightarrow> v \<noteq> []"
  by (auto dest!: parse_InrD simp: DID_PREFIX_def)

lemma SController_iff: "valid_type_combination s r \<Longrightarrow> s = SController \<longleftrightarrow> r = RController"
  by (cases s) (auto simp: valid_type_combination_iff)

lemma validate_proof_key:
  "validate_proof X d p = Inr u \<Longrightarrow> dd_authentication d \<noteq> [] \<and> dd_assertion_method d \<noteq> []"
  by (auto simp: validate_proof_iff)

lemma oan_resource_steps:
  assumes "dd_controller d = Some c" "dd_metadata d = Some m" "dd_proof d = Some p"
  shows "validate_oan_resource X d = Inr u \<longleftrightarrow>
     validate_mvp d = Inr () \<and> (\<exists>did. parse (dd_id d) = Inr did)
     \<and> (\<forall>did. md_controller_did m = Some did \<longrightarrow> controller_contains c did)
     \<and> valid_type_combination (md_subject_type m) (md_resource_type m)
     \<and> (md_subject_type m = SController \<and> md_resource_type m = RController
          \<longrightarrow> controller_contains c (dd_id d))
     \<and> validate_proof X d p = Inr ()
     \<and> validate_external_identifiers X (md_external_identifiers m) = Inr ()"
  by (cases "md_controller_did m") (auto simp: validate_oan_resource_def assms)

lemma oan_resource_iff:
  "validate_oan_resource X d = Inr u \<longleftrightarrow> (\<exists>c m p. resource_document_ok X d c m p)"
proof (cases "\<exists>c m p. dd_controller d = Some c \<and> dd_metadata d = Some m \<and> dd_proof d = Some p")
  case True
  then obtain c m p where s: "dd_controller d = Some c" "dd_metadata d = Some m" "dd_proof d = Some p"
    by blast
  have "(\<exists>c m p. resource_document_ok X d c m p) \<longleftrightarrow> resource_document_ok X d c m p"
    using s by (auto simp: resource_document_checks)
  also have "\<dots> \<longleftrightarrow> validate_oan_resource X d = Inr u"
    unfolding oan_resource_steps [OF s] resource_document_checks validate_mvp_iff
    using s SController_iff parse_nonempty validate_proof_key by blast
  finally show ?thesis ..
next
  case False
  moreover have "validate_oan_resource X d \<noteq> Inr u"
    using False by (auto simp: validate_oan_resource_def)
  ultimately show ?thesis by (auto simp: resource_document_checks)
qed

section \<open>Properties\<close>

text \<open>A resource document for the witnesses.\<close>

definition demo_did :: string where
  "demo_did = ''did:oan:K7mQ9:7YpQm9Kx2VnRb6Ts3WfHa4Cd5Ej8LgNz''"

definition demo_metadata :: oan_metadata where
  "demo_metadata = \<lparr>md_subject_type = SInfrastructureNode, md_resource_type = RRootNode,
     md_external_identifiers = [\<lparr>ei_id = ''lei:1'', ei_endpoint = None\<rparr>], md_identity_type = None,
     md_controller_did = Some demo_did, md_publisher_did = None, md_issuer_did = None,
     md_ttl = None, md_resource_description = None, md_agent_description = None,
     md_capability_tags = [], md_authorized_domains = [], md_protocol_bindings = [],
     md_implementation_links = [], md_credential_requirements = [], md_package_info = None,
     md_service_policy = None, md_network_scope = None, md_lifecycle_state = None, md_extra = []\<rparr>"

definition demo_proof :: data_integrity_proof where
  "demo_proof = \<lparr>pf_context = None, pf_type = ''Ed25519Signature2020'', pf_creator = [],
     pf_created = 0, pf_purpose = ''assertionMethod'', pf_value = CHR ''z'' # replicate 64 (CHR ''1''),
     pf_crypto_suite = None, pf_hash_algorithm = None,
     pf_verification_method = Some (key_1 demo_did)\<rparr>"

definition demo_document :: did_document where
  "demo_document = \<lparr>dd_context = DID_OAN_CONTEXTS, dd_id = demo_did,
     dd_controller = Some (Did demo_did),
     dd_verification_method = [\<lparr>vm_id = key_1 demo_did, vm_type = ''Ed25519VerificationKey2020'',
        vm_controller = demo_did, vm_crypto_suite = None, vm_public_key_format = None,
        vm_public_key_multibase = Some (CHR ''z'' # replicate 32 (CHR ''2'')),
        vm_public_key_jwk = None\<rparr>],
     dd_authentication = [key_1 demo_did], dd_assertion_method = [key_1 demo_did],
     dd_capability_invocation = [],
     dd_service = [\<lparr>se_id = ''s'', se_type = ''OANRootService'', se_endpoint = ''https://r'',
        se_version = None, se_protocol = None, se_server_type = None, se_port = None\<rparr>],
     dd_proof = Some demo_proof, dd_metadata = Some demo_metadata\<rparr>"

text \<open>
  C28. The resource validator accepts exactly the documents that carry the three contexts in their order,
  an identifier \<open>did:oan:r:s\<close> of Base58 codes of 5 and 32 characters, at least one method, metadata whose
  controller, if named, is one of the document's, one of the allowed pairs of types, where a controller
  controls itself, and a proof without creator, suite and hash algorithm, of type
  \<open>Ed25519Signature2020\<close>, for the purpose \<open>assertionMethod\<close>, by key 1, which is published for authentication
  and assertion, with a multibase value that decodes to 64 bytes; and that have at most 8 external
  identifiers, pairwise distinct, each within its length and safety limits, of at most 8192 bytes in all.
  The clauses are spelled out in \<open>resource_document_ok\<close>, without the validators.
\<close>

theorem validate_oan_resource_iff:
  "validate_oan_resource X d = Inr () \<longleftrightarrow> (\<exists>c m p. resource_document_ok X d c m p)"
  by (rule oan_resource_iff)

text \<open>
  External identifiers are accepted exactly when there are at most 8, pairwise distinct
  as (endpoint, id) pairs, each within its length and safety limits, and their serialisation
  takes at most 8192 bytes.
\<close>

theorem external_identifiers_accepted_iff:
  "validate_external_identifiers X vs = Inr () \<longleftrightarrow>
     length vs \<le> 8 \<and> list_all (identifier_ok X) vs \<and> distinct (map identifier_key vs)
     \<and> length (external_identifiers_text X vs) \<le> 8192"
  by (auto simp: validate_external_identifiers_iff list_all_iff)

text \<open>
  C29. A document that passes the infrastructure profile is one of the four node kinds with a
  service, its types are an allowed pair, its DID controls itself, and key 1 is a method it
  publishes for itself, usable for authentication and assertion, of a known suite.
\<close>

theorem infrastructure_profile_sound:
  assumes "validate_infrastructure_profile d r = Inr ()"
  shows "r \<in> {RRootNode, RRegistrarNode, RDiscoveryNode, RVcIssuerNode}
    \<and> (\<exists>m c vm s. dd_metadata d = Some m \<and> valid_type_combination (md_subject_type m) r
        \<and> md_resource_type m = r \<and> dd_controller d = Some c \<and> controller_contains c (dd_id d)
        \<and> vm \<in> set (dd_verification_method d) \<and> vm_id vm = key_1 (dd_id d)
        \<and> vm_controller vm = dd_id d \<and> vm_suite vm \<noteq> None
        \<and> vm_id vm \<in> set (dd_authentication d) \<inter> set (dd_assertion_method d)
        \<and> s \<in> set (dd_service d) \<and> Some (se_type s) = expected_service_type r
        \<and> dd_proof d \<noteq> None)"
proof -
  from assms obtain m c vm t where *: "dd_metadata d = Some m" "md_subject_type m = SInfrastructureNode"
    "md_resource_type m = r" "dd_controller d = Some c" "controller_contains c (dd_id d)"
    "List.find (\<lambda>m. vm_id m = key_1 (dd_id d) \<and> vm_controller m = dd_id d)
       (dd_verification_method d) = Some vm" "vm_suite vm \<noteq> None"
    "expected_service_type r = Some t" "list_ex (\<lambda>s. se_type s = t) (dd_service d)"
    "key_1 (dd_id d) \<in> set (dd_authentication d)" "key_1 (dd_id d) \<in> set (dd_assertion_method d)"
    "dd_proof d \<noteq> None"
    by (auto simp: validate_infrastructure_profile_def Let_def split: if_splits)
  from *(8) have r: "r \<in> {RRootNode, RRegistrarNode, RDiscoveryNode, RVcIssuerNode}"
    by (cases r) (simp_all add: expected_service_type_def)
  then have "valid_type_combination (md_subject_type m) r"
    using *(2) by (auto simp: valid_type_combination_iff)
  with * r show ?thesis by (auto simp: list_ex_iff dest!: find_Some_mem)
qed

theorem infrastructure_profile_sound_witness:
  "\<exists>m vm s. dd_metadata demo_document = Some m \<and> md_resource_type m = RRootNode
     \<and> vm \<in> set (dd_verification_method demo_document) \<and> vm_id vm = key_1 (dd_id demo_document)
     \<and> vm_id vm \<in> set (dd_authentication demo_document) \<inter> set (dd_assertion_method demo_document)
     \<and> s \<in> set (dd_service demo_document) \<and> Some (se_type s) = expected_service_type RRootNode"
proof -
  have "validate_infrastructure_profile demo_document RRootNode = Inr ()" by code_simp
  from infrastructure_profile_sound [OF this] show ?thesis by blast
qed

end
