(* ===== verification/CoreProfile.thy ===== *)
theory CoreProfile
  imports CoreDocument
begin

text \<open>
  The strict \<open>did:oan\<close> profile of \<open>crates/oan-core\<close>: keys as JWK and multibase, the profile's
  proofs, verifiable credentials, DID Documents and identities, the signature input and the
  document hash. Keys, signatures and their encodings come from the record of externals.
\<close>

section \<open>Data\<close>

record oan_jwk =
  jwk_kty :: string
  jwk_crv :: string
  jwk_x :: string
  jwk_d :: "string option"
  jwk_alg :: "string option"

record oan_verification_method =
  om_id :: string
  om_type :: string
  om_controller :: string
  om_public_key_multibase :: "string option"
  om_public_key_jwk :: "oan_jwk option"

record oan_proof =
  op_type :: string
  op_created :: datetime
  op_purpose :: string
  op_value :: string
  op_verification_method :: string

record oan_verifiable_credential =
  vc_id :: "string option"
  vc_type :: "string list"
  vc_context :: "string list"
  vc_issuer :: string
  vc_issuance_date :: datetime
  vc_expiration_date :: "datetime option"
  vc_subject :: json
  vc_status :: "json option"
  vc_schema :: "json option"
  vc_proof :: oan_proof

record oan_did_document =
  od_context :: "string list"
  od_id :: string
  od_controller :: "did_controller option"
  od_verification_method :: "oan_verification_method list"
  od_authentication :: "string list"
  od_assertion_method :: "string list"
  od_capability_invocation :: "string list"
  od_service :: "json list"
  od_proof :: oan_proof
  od_metadata :: "json option"

record oan_public_identity =
  pid_id :: string
  pid_created_at :: string
  pid_did :: string
  pid_verification_method_id :: string
  pid_did_document :: oan_did_document
  pid_public_key_jwk :: oan_jwk

record oan_identity =
  id_id :: string
  id_created_at :: string
  id_did :: string
  id_verification_method_id :: string
  id_did_document :: oan_did_document
  id_public_key_jwk :: oan_jwk
  id_private_key_jwk :: oan_jwk

datatype oan_profile_error =
  PInvalidDid | PInvalidContext | PInvalidVerificationMethod | PInvalidProof | PInvalidJwk
| PInvalidIdentity | PInvalidCredential

definition jwk_json :: "oan_jwk \<Rightarrow> json" where
  "jwk_json j = json_object
     ([(''kty'', JString (jwk_kty j)), (''crv'', JString (jwk_crv j)), (''x'', JString (jwk_x j))]
      @ opt_field ''d'' JString (jwk_d j) @ opt_field ''alg'' JString (jwk_alg j))"

definition oan_method_json :: "oan_verification_method \<Rightarrow> json" where
  "oan_method_json m = json_object
     ([(''id'', JString (om_id m)), (''type'', JString (om_type m)),
       (''controller'', JString (om_controller m))]
      @ opt_field ''publicKeyMultibase'' JString (om_public_key_multibase m)
      @ opt_field ''publicKeyJwk'' jwk_json (om_public_key_jwk m))"

definition oan_proof_json :: "externs \<Rightarrow> oan_proof \<Rightarrow> json" where
  "oan_proof_json X p = json_object
     [(''type'', JString (op_type p)), (''created'', JString (time_text X (op_created p))),
      (''proofPurpose'', JString (op_purpose p)), (''proofValue'', JString (op_value p)),
      (''verificationMethod'', JString (op_verification_method p))]"

definition oan_credential_json :: "externs \<Rightarrow> oan_verifiable_credential \<Rightarrow> json" where
  "oan_credential_json X c = json_object
     (opt_field ''id'' JString (vc_id c)
      @ [(''type'', json_strings (vc_type c)), (''@context'', json_strings (vc_context c)),
         (''issuer'', JString (vc_issuer c)),
         (''issuanceDate'', JString (time_text X (vc_issuance_date c)))]
      @ opt_field ''expirationDate'' (\<lambda>t. JString (time_text X t)) (vc_expiration_date c)
      @ [(''credentialSubject'', vc_subject c)]
      @ opt_field ''credentialStatus'' (\<lambda>j. j) (vc_status c)
      @ opt_field ''credentialSchema'' (\<lambda>j. j) (vc_schema c)
      @ [(''proof'', oan_proof_json X (vc_proof c))])"

text \<open>\<open>capability_invocation\<close> has no rename: it is serialised in snake case.\<close>

definition oan_document_json :: "externs \<Rightarrow> oan_did_document \<Rightarrow> json" where
  "oan_document_json X d = json_object
     ([(''@context'', json_strings (od_context d)), (''id'', JString (od_id d))]
      @ opt_field ''controller'' controller_json (od_controller d)
      @ [(''verificationMethod'', JArray (map oan_method_json (od_verification_method d))),
         (''authentication'', json_strings (od_authentication d)),
         (''assertionMethod'', json_strings (od_assertion_method d))]
      @ list_field ''capability_invocation'' JString (od_capability_invocation d)
      @ [(''service'', JArray (od_service d)), (''proof'', oan_proof_json X (od_proof d))]
      @ null_field ''oanMetadata'' (\<lambda>j. j) (od_metadata d))"

section \<open>Keys\<close>

text \<open>\<open>as_deref().unwrap_or_default()\<close>\<close>

definition or_empty :: "string option \<Rightarrow> string" where
  "or_empty m = (case m of None \<Rightarrow> [] | Some s \<Rightarrow> s)"

definition validate_ed25519 :: "externs \<Rightarrow> bool \<Rightarrow> oan_jwk \<Rightarrow> oan_profile_error + unit" where
  "validate_ed25519 X private j =
     (if jwk_kty j \<noteq> ''OKP'' \<or> jwk_crv j \<noteq> ''Ed25519'' \<or> jwk_x j = []
         \<or> (private \<and> or_empty (jwk_d j) = []) \<or> (\<not> private \<and> jwk_d j \<noteq> None)
         \<or> jwk_alg j = Some ''Ed25519''
      then Inl PInvalidJwk
      else rbind (ok_or (b64_decode X (jwk_x j)) PInvalidJwk) (\<lambda>public_key.
        if length public_key \<noteq> 32 then Inl PInvalidJwk
        else rbind
          (if private then
             rbind (ok_or (b64_decode X (or_empty (jwk_d j))) PInvalidJwk) (\<lambda>secret.
               if length secret \<noteq> 32 then Inl PInvalidJwk else Inr ())
           else Inr ()) (\<lambda>_.
        case jwk_alg j of
          None \<Rightarrow> Inr ()
        | Some alg \<Rightarrow> if alg \<noteq> ''EdDSA'' then Inl PInvalidJwk else Inr ())))"

definition decode_oan_multibase ::
  "externs \<Rightarrow> string \<Rightarrow> nat \<Rightarrow> oan_profile_error \<Rightarrow> oan_profile_error + string" where
  "decode_oan_multibase X v expected_len error =
     rbind (ok_or (strip_prefix ''z'' v) error) (\<lambda>encoded.
     rbind (ok_or (b58_decode X encoded) error) (\<lambda>bytes.
     if length bytes \<noteq> expected_len \<or> b58_encode X bytes \<noteq> encoded then Inl error
     else Inr bytes))"

text \<open>The multicodec prefix of an Ed25519 public key, \<open>[0xed, 0x01]\<close>.\<close>

definition ED25519_MULTICODEC :: string where
  "ED25519_MULTICODEC = [CHR 0xED, CHR 0x01]"

section \<open>Proofs, credentials and documents\<close>

definition validate_for :: "externs \<Rightarrow> oan_proof \<Rightarrow> string \<Rightarrow> oan_profile_error + unit" where
  "validate_for X p did =
     (if op_type p \<noteq> ''Ed25519Signature2020'' \<or> op_purpose p \<noteq> ''assertionMethod''
         \<or> op_verification_method p \<noteq> key_1 did
      then Inl PInvalidProof
      else rbind (decode_oan_multibase X (op_value p) 64 PInvalidProof) (\<lambda>_. Inr ()))"

definition OAN_CREDENTIAL_CONTEXTS :: "string list" where
  "OAN_CREDENTIAL_CONTEXTS =
     [''https://www.w3.org/2018/credentials/v1'', ''https://openagenet.xyz/did-oan-specs/v1'',
      ''https://w3id.org/security/suites/ed25519-2020/v1'']"

definition validate_oan_credential ::
  "externs \<Rightarrow> oan_verifiable_credential \<Rightarrow> oan_profile_error + unit" where
  "validate_oan_credential X c =
     (if vc_context c \<noteq> OAN_CREDENTIAL_CONTEXTS then Inl PInvalidContext
      else if vc_type c = [] \<or> \<not> list_ex (\<lambda>t. t = ''VerifiableCredential'') (vc_type c)
      then Inl PInvalidCredential
      else rbind (map_err (\<lambda>_. PInvalidDid) (parse (vc_issuer c))) (\<lambda>_.
        validate_for X (vc_proof c) (vc_issuer c)))"

text \<open>\<open>option.map(f).transpose()\<close>\<close>

definition transpose_option :: "('e + 'a) option \<Rightarrow> 'e + 'a option" where
  "transpose_option m =
     (case m of None \<Rightarrow> Inr None | Some r \<Rightarrow> rbind r (\<lambda>x. Inr (Some x)))"

definition validate_oan_document :: "externs \<Rightarrow> oan_did_document \<Rightarrow> oan_profile_error + unit" where
  "validate_oan_document X d =
     (if od_context d \<noteq> DID_OAN_CONTEXTS then Inl PInvalidContext
      else rbind (map_err (\<lambda>_. PInvalidDid) (parse (od_id d))) (\<lambda>_.
      let key_id = key_1 (od_id d) in
      rbind (ok_or (List.find (\<lambda>m. om_id m = key_id) (od_verification_method d))
               PInvalidVerificationMethod) (\<lambda>m.
      if om_type m \<noteq> ''Ed25519VerificationKey2020''
         \<or> (om_public_key_multibase m = None \<and> om_public_key_jwk m = None)
         \<or> \<not> list_ex (\<lambda>v. v = key_id) (od_authentication d)
         \<or> \<not> list_ex (\<lambda>v. v = key_id) (od_assertion_method d)
      then Inl PInvalidVerificationMethod
      else if \<not> (case od_controller d of
                    None \<Rightarrow> False | Some c \<Rightarrow> controller_contains c (om_controller m))
              \<and> om_controller m \<noteq> od_id d
      then Inl PInvalidVerificationMethod
      else rbind (transpose_option (map_option
              (\<lambda>v. decode_oan_multibase X v 34 PInvalidVerificationMethod)
              (om_public_key_multibase m))) (\<lambda>multibase_key.
      rbind (case om_public_key_jwk m of
               None \<Rightarrow> Inr ()
             | Some jwk \<Rightarrow> rbind (validate_ed25519 X False jwk) (\<lambda>_.
                 case multibase_key of
                   None \<Rightarrow> Inr ()
                 | Some key \<Rightarrow>
                     rbind (ok_or (b64_decode X (jwk_x jwk)) PInvalidVerificationMethod)
                       (\<lambda>jwk_key. if take 2 key \<noteq> ED25519_MULTICODEC \<or> jwk_key \<noteq> drop 2 key
                                  then Inl PInvalidVerificationMethod else Inr ())))
        (\<lambda>_. validate_for X (od_proof d) (od_id d))))))"

section \<open>Signature input and hash\<close>

definition oan_signature_input :: "externs \<Rightarrow> oan_did_document \<Rightarrow> string" where
  "oan_signature_input X d = oan_canonical_json X (json_remove ''proof'' (oan_document_json X d))"

definition oan_did_document_hash :: "externs \<Rightarrow> oan_did_document \<Rightarrow> string" where
  "oan_did_document_hash X d =
     ''sha256:'' @ hex X (sha256 X (oan_canonical_json X (oan_document_json X d)))"

section \<open>Identities\<close>

definition public_projection :: "oan_identity \<Rightarrow> oan_public_identity" where
  "public_projection i =
     \<lparr>pid_id = id_id i, pid_created_at = id_created_at i, pid_did = id_did i,
      pid_verification_method_id = id_verification_method_id i,
      pid_did_document = id_did_document i, pid_public_key_jwk = id_public_key_jwk i\<rparr>"

definition public_identity_json :: "externs \<Rightarrow> oan_public_identity \<Rightarrow> json" where
  "public_identity_json X i = json_object
     [(''id'', JString (pid_id i)), (''createdAt'', JString (pid_created_at i)),
      (''did'', JString (pid_did i)),
      (''verificationMethodId'', JString (pid_verification_method_id i)),
      (''didDocument'', oan_document_json X (pid_did_document i)),
      (''publicKeyJwk'', jwk_json (pid_public_key_jwk i))]"

definition check_published_key ::
  "externs \<Rightarrow> oan_jwk \<Rightarrow> oan_verification_method \<Rightarrow> oan_profile_error + unit" where
  "check_published_key X public_jwk m =
     (case om_public_key_jwk m of
        Some method_jwk \<Rightarrow> if method_jwk \<noteq> public_jwk then Inl PInvalidIdentity else Inr ()
      | None \<Rightarrow> (case om_public_key_multibase m of
          Some multibase \<Rightarrow>
            rbind (decode_oan_multibase X multibase 34 PInvalidIdentity) (\<lambda>key.
            rbind (ok_or (b64_decode X (jwk_x public_jwk)) PInvalidIdentity)
              (\<lambda>public_key. if take 2 key \<noteq> ED25519_MULTICODEC \<or> public_key \<noteq> drop 2 key
                            then Inl PInvalidIdentity else Inr ()))
        | None \<Rightarrow> Inl PInvalidIdentity))"

definition check_key_pair :: "externs \<Rightarrow> oan_jwk \<Rightarrow> oan_jwk \<Rightarrow> oan_profile_error + unit" where
  "check_key_pair X public_jwk private_jwk =
     rbind (ok_or (b64_decode X (or_empty (jwk_d private_jwk))) PInvalidIdentity) (\<lambda>private_bytes.
     if length private_bytes \<noteq> 32 then Inl PInvalidIdentity
     else rbind (ok_or (b64_decode X (jwk_x public_jwk)) PInvalidIdentity) (\<lambda>public_bytes.
       if ed_public X private_bytes \<noteq> public_bytes then Inl PInvalidIdentity else Inr ()))"

definition validate_identity :: "externs \<Rightarrow> oan_identity \<Rightarrow> oan_profile_error + unit" where
  "validate_identity X i =
     (if id_did i \<noteq> od_id (id_did_document i)
         \<or> id_verification_method_id i \<noteq> key_1 (id_did i)
         \<or> \<not> is_ok (validate_oan_document X (id_did_document i))
      then Inl PInvalidIdentity
      else rbind (validate_ed25519 X False (id_public_key_jwk i)) (\<lambda>_.
      rbind (validate_ed25519 X True (id_private_key_jwk i)) (\<lambda>_.
      rbind (ok_or (List.find (\<lambda>m. om_id m = id_verification_method_id i)
               (od_verification_method (id_did_document i))) PInvalidIdentity) (\<lambda>m.
      rbind (check_published_key X (id_public_key_jwk i) m) (\<lambda>_.
      check_key_pair X (id_public_key_jwk i) (id_private_key_jwk i))))))"

section \<open>Lemmas\<close>

lemma transpose_option_Inr_iff:
  "transpose_option (map_option f m) = Inr r \<longleftrightarrow>
     (case m of None \<Rightarrow> r = None | Some v \<Rightarrow> (\<exists>x. f v = Inr x \<and> r = Some x))"
  by (auto simp: transpose_option_def split: option.splits)

lemma decode_oan_multibase_iff:
  "decode_oan_multibase X v n e = Inr bs \<longleftrightarrow>
     v = CHR ''z'' # b58_encode X bs \<and> b58_decode X (b58_encode X bs) = Some bs \<and> length bs = n"
  by (auto simp: decode_oan_multibase_def strip_prefix_Some_iff)

lemma validate_for_iff:
  "validate_for X p did = Inr u \<longleftrightarrow>
     op_type p = ''Ed25519Signature2020'' \<and> op_purpose p = ''assertionMethod''
     \<and> op_verification_method p = key_1 did
     \<and> (\<exists>sig. decode_oan_multibase X (op_value p) 64 PInvalidProof = Inr sig)"
  by (auto simp: validate_for_def)

text \<open>What the key check grants: the decoded halves have the lengths of Ed25519.\<close>

lemma validate_ed25519_iff:
  "validate_ed25519 X prv j = Inr u \<longleftrightarrow>
     jwk_kty j = ''OKP'' \<and> jwk_crv j = ''Ed25519'' \<and> jwk_x j \<noteq> []
     \<and> (\<exists>p. b64_decode X (jwk_x j) = Some p \<and> length p = 32)
     \<and> (jwk_alg j = None \<or> jwk_alg j = Some ''EdDSA'')
     \<and> (if prv then \<exists>d s. jwk_d j = Some d \<and> d \<noteq> [] \<and> b64_decode X d = Some s \<and> length s = 32
        else jwk_d j = None)"
  by (cases "jwk_alg j"; cases "jwk_d j"; cases prv)
    (auto simp: validate_ed25519_def or_empty_def)

lemma validate_oan_credential_iff:
  "validate_oan_credential X c = Inr u \<longleftrightarrow>
     vc_context c = OAN_CREDENTIAL_CONTEXTS \<and> ''VerifiableCredential'' \<in> set (vc_type c)
     \<and> (\<exists>did. parse (vc_issuer c) = Inr did) \<and> validate_for X (vc_proof c) (vc_issuer c) = Inr ()"
  by (auto simp: validate_oan_credential_def list_ex_eq_mem)

text \<open>The method that signs for a document: the first one named \<open>#key-1\<close>.\<close>

definition signing_method :: "oan_did_document \<Rightarrow> oan_verification_method option" where
  "signing_method d = List.find (\<lambda>m. om_id m = key_1 (od_id d)) (od_verification_method d)"

lemma validate_oan_document_InrD:
  assumes "validate_oan_document X d = Inr u"
  shows "od_context d = DID_OAN_CONTEXTS \<and> (\<exists>did. parse (od_id d) = Inr did)
     \<and> key_1 (od_id d) \<in> set (od_authentication d) \<and> key_1 (od_id d) \<in> set (od_assertion_method d)
     \<and> validate_for X (od_proof d) (od_id d) = Inr ()
     \<and> (\<exists>m. signing_method d = Some m \<and> om_type m = ''Ed25519VerificationKey2020''
          \<and> (\<forall>v. om_public_key_multibase m = Some v \<longrightarrow>
                (\<exists>bs. decode_oan_multibase X v 34 PInvalidVerificationMethod = Inr bs
                  \<and> (\<forall>j. om_public_key_jwk m = Some j \<longrightarrow>
                       (\<exists>x. bs = ED25519_MULTICODEC @ x \<and> b64_decode X (jwk_x j) = Some x))))
          \<and> (\<forall>j. om_public_key_jwk m = Some j \<longrightarrow> validate_ed25519 X False j = Inr ())
          \<and> (om_public_key_multibase m \<noteq> None \<or> om_public_key_jwk m \<noteq> None))"
proof -
  from assms obtain m where m: "signing_method d = Some m"
    by (auto simp: validate_oan_document_def signing_method_def Let_def split: if_splits)
  have app: "take 2 bs = ED25519_MULTICODEC \<Longrightarrow> bs = ED25519_MULTICODEC @ drop 2 bs" for bs
    by (metis append_take_drop_id)
  show ?thesis
    using assms m app
    by (auto simp: validate_oan_document_def signing_method_def Let_def list_ex_eq_mem
        transpose_option_Inr_iff split: if_splits option.splits)
qed

lemma check_key_pair_InrD:
  "check_key_pair X pub prv = Inr u \<Longrightarrow> validate_ed25519 X True prv = Inr () \<Longrightarrow>
     \<exists>d s. jwk_d prv = Some d \<and> b64_decode X d = Some s \<and> length s = 32
       \<and> b64_decode X (jwk_x pub) = Some (ed_public X s)"
proof -
  assume c: "check_key_pair X pub prv = Inr u" and "validate_ed25519 X True prv = Inr ()"
  then obtain d s where d: "jwk_d prv = Some d" "b64_decode X d = Some s" "length s = 32"
    unfolding validate_ed25519_iff by auto
  from c d(1,2) have "b64_decode X (jwk_x pub) = Some (ed_public X s)"
    by (simp add: check_key_pair_def or_empty_def split: if_split_asm)
  with d show ?thesis by blast
qed

lemma check_published_key_InrD:
  assumes "check_published_key X pub m = Inr u" and "b64_decode X (jwk_x pub) = Some k"
  shows "om_public_key_jwk m = Some pub \<or> (om_public_key_jwk m = None \<and>
    om_public_key_multibase m = Some (CHR ''z'' # b58_encode X (ED25519_MULTICODEC @ k)))"
proof (cases "om_public_key_jwk m")
  case None
  with assms(1) obtain v where v: "om_public_key_multibase m = Some v"
    by (auto simp: check_published_key_def split: option.splits)
  from assms None v obtain bs where "decode_oan_multibase X v 34 PInvalidIdentity = Inr bs"
    "take 2 bs = ED25519_MULTICODEC" "k = drop 2 bs"
    by (simp add: check_published_key_def split: if_split_asm)
  note v = v this
  have "bs = ED25519_MULTICODEC @ k" by (metis v(3,4) append_take_drop_id)
  with v(1,2) None show ?thesis by (simp add: decode_oan_multibase_iff)
next
  case (Some j)
  then show ?thesis using assms by (simp add: check_published_key_def split: if_splits)
qed

text \<open>The key material of an identity that passes the check.\<close>

lemma validate_identity_iff:
  "validate_identity X i = Inr u \<longleftrightarrow>
     id_did i = od_id (id_did_document i) \<and> id_verification_method_id i = key_1 (id_did i)
     \<and> validate_oan_document X (id_did_document i) = Inr ()
     \<and> validate_ed25519 X False (id_public_key_jwk i) = Inr ()
     \<and> validate_ed25519 X True (id_private_key_jwk i) = Inr ()
     \<and> (\<exists>m. signing_method (id_did_document i) = Some m
          \<and> check_published_key X (id_public_key_jwk i) m = Inr ())
     \<and> check_key_pair X (id_public_key_jwk i) (id_private_key_jwk i) = Inr ()"
  unfolding validate_identity_def signing_method_def is_ok_iff by auto

lemma validate_identity_InrD:
  assumes "validate_identity X i = Inr u"
  shows "\<exists>d s m. jwk_d (id_private_key_jwk i) = Some d \<and> b64_decode X d = Some s \<and> length s = 32
     \<and> b64_decode X (jwk_x (id_public_key_jwk i)) = Some (ed_public X s)
     \<and> signing_method (id_did_document i) = Some m
     \<and> (om_public_key_jwk m = Some (id_public_key_jwk i)
        \<or> (om_public_key_jwk m = None \<and> om_public_key_multibase m
             = Some (CHR ''z'' # b58_encode X (ED25519_MULTICODEC @ ed_public X s))))"
proof -
  from assms obtain m where m: "signing_method (id_did_document i) = Some m"
    "check_published_key X (id_public_key_jwk i) m = Inr ()"
    "check_key_pair X (id_public_key_jwk i) (id_private_key_jwk i) = Inr ()"
    "validate_ed25519 X True (id_private_key_jwk i) = Inr ()"
    unfolding validate_identity_iff by blast
  from check_key_pair_InrD [OF m(3,4)] obtain d s where s:
    "jwk_d (id_private_key_jwk i) = Some d" "b64_decode X d = Some s" "length s = 32"
    "b64_decode X (jwk_x (id_public_key_jwk i)) = Some (ed_public X s)" by blast
  from check_published_key_InrD [OF m(2) s(4)] s m(1) show ?thesis by blast
qed

section \<open>Properties\<close>

text \<open>Hexadecimal text is injective and has no colon.\<close>

definition hex_ok :: "externs \<Rightarrow> bool" where
  "hex_ok X \<longleftrightarrow> (\<forall>s t. hex X s = hex X t \<longrightarrow> s = t) \<and> (\<forall>s. CHR '':'' \<notin> set (hex X s))"

text \<open>
  C30. A validated identity holds one key pair: its private JWK decodes to 32 bytes whose
  Ed25519 public key is the public JWK, and the document publishes this key as \<open>#key-1\<close>,
  as the same JWK or as the multicodec multibase text of the key.
\<close>

theorem identity_is_one_key_pair:
  assumes "validate_identity X i = Inr ()"
  shows "\<exists>d s m. jwk_d (id_private_key_jwk i) = Some d \<and> b64_decode X d = Some s \<and> length s = 32
     \<and> b64_decode X (jwk_x (id_public_key_jwk i)) = Some (ed_public X s)
     \<and> signing_method (id_did_document i) = Some m
     \<and> (om_public_key_jwk m = Some (id_public_key_jwk i)
        \<or> (om_public_key_jwk m = None \<and> om_public_key_multibase m
             = Some (CHR ''z'' # b58_encode X (ED25519_MULTICODEC @ ed_public X s))))"
  using assms by (rule validate_identity_InrD)

definition demo_key :: string where
  "demo_key = replicate 32 (CHR ''k'')"

definition demo_jwk :: "bool \<Rightarrow> oan_jwk" where
  "demo_jwk private = \<lparr>jwk_kty = ''OKP'', jwk_crv = ''Ed25519'', jwk_x = demo_key,
     jwk_d = (if private then Some demo_key else None), jwk_alg = None\<rparr>"

definition demo_oan_proof :: oan_proof where
  "demo_oan_proof = \<lparr>op_type = ''Ed25519Signature2020'', op_created = 0,
     op_purpose = ''assertionMethod'', op_value = CHR ''z'' # replicate 64 (CHR ''1''),
     op_verification_method = key_1 demo_did\<rparr>"

definition demo_oan_document :: oan_did_document where
  "demo_oan_document = \<lparr>od_context = DID_OAN_CONTEXTS, od_id = demo_did, od_controller = None,
     od_verification_method = [\<lparr>om_id = key_1 demo_did, om_type = ''Ed25519VerificationKey2020'',
        om_controller = demo_did, om_public_key_multibase = None,
        om_public_key_jwk = Some (demo_jwk False)\<rparr>],
     od_authentication = [key_1 demo_did], od_assertion_method = [key_1 demo_did],
     od_capability_invocation = [], od_service = [], od_proof = demo_oan_proof, od_metadata = None\<rparr>"

definition demo_identity :: oan_identity where
  "demo_identity = \<lparr>id_id = ''1'', id_created_at = [], id_did = demo_did,
     id_verification_method_id = key_1 demo_did, id_did_document = demo_oan_document,
     id_public_key_jwk = demo_jwk False, id_private_key_jwk = demo_jwk True\<rparr>"

theorem identity_is_one_key_pair_witness:
  "\<exists>m. signing_method demo_oan_document = Some m \<and> om_public_key_jwk m = Some (demo_jwk False)"
proof -
  have "validate_identity demo_externs demo_identity = Inr ()" by code_simp
  from identity_is_one_key_pair [OF this] show ?thesis
    by (simp add: demo_identity_def demo_oan_document_def signing_method_def)
qed

text \<open>
  The hash of a DID Document commits to all of it: equal hashes mean equal serialised
  documents, or their canonical texts differ and have the same SHA-256 digest.
\<close>

theorem document_hash_commits:
  assumes "quote_ok X" and "hex_ok X"
    and "json_ok (oan_document_json X d)" and "json_ok (oan_document_json X e)"
    and "oan_did_document_hash X d = oan_did_document_hash X e"
  shows "oan_document_json X d = oan_document_json X e
     \<or> oan_canonical_json X (oan_document_json X d) \<noteq> oan_canonical_json X (oan_document_json X e)
       \<and> sha256 X (oan_canonical_json X (oan_document_json X d))
         = sha256 X (oan_canonical_json X (oan_document_json X e))"
proof -
  have "sha256 X (oan_canonical_json X (oan_document_json X d))
          = sha256 X (oan_canonical_json X (oan_document_json X e))"
    using assms(2,5) by (simp add: oan_did_document_hash_def hex_ok_def)
  then show ?thesis
    using assms(1,3,4) canonical_json_inject oan_canonical_json_eq by metis
qed

lemma demo_hex_inject: "demo_hex s = demo_hex t \<Longrightarrow> s = t"
proof (induction s arbitrary: t)
  case Nil
  then show ?case by (cases t) (auto simp: demo_hex_def)
next
  case (Cons a s)
  then obtain b u where t: "t = b # u" by (cases t) (auto simp: demo_hex_def)
  have inj: "i = j" if "hex_digit i = hex_digit j" "i < 16" "j < 16" for i j
    using that nth_eq_iff_index_eq [of "''0123456789abcdef''" i j] by (simp add: hex_digit_def)
  from Cons.prems t have *: "hex_digit (byte a div 16) = hex_digit (byte b div 16)"
    "hex_digit (byte a mod 16) = hex_digit (byte b mod 16)" "demo_hex s = demo_hex u"
    by (auto simp: demo_hex_def)
  have "byte c div 16 < 16" for c
    using nat_of_char_less_256 [of c] by (simp add: less_mult_imp_div_less)
  then have "byte a div 16 = byte b div 16" "byte a mod 16 = byte b mod 16"
    using * inj by auto
  then have "byte a = byte b" by (metis div_mult_mod_eq)
  then show ?case using Cons.IH [OF *(3)] t by simp
qed

lemma demo_hex_no_colon: "CHR '':'' \<notin> set (demo_hex s)"
proof -
  have "\<forall>n \<in> set [0..<16]. CHR '':'' \<noteq> hex_digit n" by code_simp
  then have h: "CHR '':'' \<noteq> hex_digit n" if "n < 16" for n using that by simp
  have "byte c div 16 < 16" for c
    using nat_of_char_less_256 [of c] by (simp add: less_mult_imp_div_less)
  then have "CHR '':'' \<noteq> hex_digit (byte c div 16)" "CHR '':'' \<noteq> hex_digit (byte c mod 16)" for c
    by (auto intro!: h)
  then show ?thesis by (induction s) (simp_all add: demo_hex_def)
qed

lemma demo_hex_ok [simp]: "hex_ok demo_externs"
  using demo_hex_inject demo_hex_no_colon by (auto simp: hex_ok_def demo_externs_def)

theorem document_hash_commits_witness:
  "oan_document_json demo_externs demo_oan_document = oan_document_json demo_externs demo_oan_document"
proof -
  have "json_ok (oan_document_json demo_externs demo_oan_document)" by code_simp
  from document_hash_commits [OF demo_externs_quote demo_hex_ok this this refl] show ?thesis by simp
qed

text \<open>
  The signature input leaves out the proof: replacing the proof of a document, as signing
  does, keeps the text that is signed.
\<close>

theorem signature_input_excludes_proof:
  "oan_signature_input X (d\<lparr>od_proof := p\<rparr>) = oan_signature_input X d"
  unfolding oan_signature_input_def oan_document_json_def
  by (rule arg_cong [of _ _ "oan_canonical_json X"], rule json_remove_object)
    (simp add: opt_field_def null_field_def list_field_def split: option.splits)

text \<open>
  The public projection of a valid identity keeps the private scalar out: the public
  JWK it serialises, and the JWK its document publishes for \<open>#key-1\<close>, have no member \<open>d\<close>.
\<close>

theorem public_projection_has_no_private_key:
  assumes "validate_identity X i = Inr ()"
  shows "json_get ''d'' (jwk_json (pid_public_key_jwk (public_projection i))) = None
     \<and> (\<forall>m j. signing_method (pid_did_document (public_projection i)) = Some m
          \<longrightarrow> om_public_key_jwk m = Some j \<longrightarrow> json_get ''d'' (jwk_json j) = None)"
proof -
  have nod: "json_get ''d'' (jwk_json j) = None" if "validate_ed25519 X False j = Inr ()" for j
  proof -
    have "jwk_d j = None" using that by (simp add: validate_ed25519_iff)
    then show ?thesis
      unfolding jwk_json_def
      by (subst json_get_object) (simp_all add: opt_field_def split: option.splits)
  qed
  have "validate_ed25519 X False j = Inr ()"
    if "signing_method (id_did_document i) = Some m" "om_public_key_jwk m = Some j" for m j
    using assms that validate_oan_document_InrD [of X "id_did_document i" "()"]
    unfolding validate_identity_iff by auto
  with nod assms show ?thesis
    unfolding validate_identity_iff public_projection_def by simp
qed

theorem public_projection_has_no_private_key_witness:
  "json_get ''d'' (jwk_json (pid_public_key_jwk (public_projection demo_identity))) = None"
proof -
  have "validate_identity demo_externs demo_identity = Inr ()" by code_simp
  from public_projection_has_no_private_key [OF this] show ?thesis by blast
qed

end
