(* ===== verification/Crypto.thy ===== *)
theory Crypto
  imports CoreProfile
begin

text \<open>
  The crypto crate \<open>crates/oan-crypto\<close>: the two suites' keys with their conversions from and
  to bytes, multibase text and JWKs, signing and verification, hashes and signature inputs
  over canonical JSON, data integrity proofs, and the JSON-LD verification entry points.

  A payload \<open>T: Serialize\<close> is the outcome of \<open>serde_json::to_value\<close>, a \<open>json option\<close> (\<open>None\<close>
  is the serialisation error). Keys carry their encoding: 32 bytes for both Ed25519 halves,
  the scalar and the uncompressed SEC1 point for SM2.
\<close>

datatype crypto_error =
  UnsupportedCryptoSuite
| InvalidSigningKey
| InvalidVerifyingKey
| InvalidPublicKeyEncoding
| InvalidSignature
| CInvalidProof
| VerificationFailed
| MissingKeyMaterial
| Serialization
| StandardDataIntegrity string

section \<open>Keys\<close>

datatype signing_key = SkEd25519 crypto_suite string | SkSm2 crypto_suite string

datatype verifying_key = VkEd25519 crypto_suite string | VkSm2 crypto_suite string

record keypair_material =
  kp_crypto_suite :: crypto_suite
  kp_signing_key :: signing_key
  kp_verifying_key :: verifying_key

fun signing_key_suite :: "signing_key \<Rightarrow> crypto_suite" where
  "signing_key_suite (SkEd25519 suite key) = suite"
| "signing_key_suite (SkSm2 suite key) = suite"

fun verifying_key_of :: "externs \<Rightarrow> signing_key \<Rightarrow> verifying_key" where
  "verifying_key_of X (SkEd25519 suite key) = VkEd25519 suite (ed_public X key)"
| "verifying_key_of X (SkSm2 suite key) = VkSm2 suite (sm2_public X key)"

fun verifying_key_suite :: "verifying_key \<Rightarrow> crypto_suite" where
  "verifying_key_suite (VkEd25519 suite key) = suite"
| "verifying_key_suite (VkSm2 suite key) = suite"

text \<open>The generator's random bytes are an argument: up to 32 draws for SM2.\<close>

fun generate_sm2_keypair :: "externs \<Rightarrow> nat \<Rightarrow> (nat \<Rightarrow> string) \<Rightarrow> crypto_error + string" where
  "generate_sm2_keypair X 0 rng = Inl InvalidSigningKey"
| "generate_sm2_keypair X (Suc n) rng =
     (case sm2_secret X (rng 0) of
        Some key \<Rightarrow> Inr key
      | None \<Rightarrow> generate_sm2_keypair X n (\<lambda>i. rng (Suc i)))"

definition generate_keypair ::
  "externs \<Rightarrow> crypto_suite \<Rightarrow> (nat \<Rightarrow> string) \<Rightarrow> crypto_error + keypair_material" where
  "generate_keypair X suite rng =
     (case suite of
        Sm2Sm3 \<Rightarrow> rbind (generate_sm2_keypair X 32 rng) (\<lambda>key.
          Inr \<lparr>kp_crypto_suite = suite, kp_signing_key = SkSm2 suite key,
               kp_verifying_key = VkSm2 suite (sm2_public X key)\<rparr>)
      | _ \<Rightarrow> Inr \<lparr>kp_crypto_suite = suite, kp_signing_key = SkEd25519 suite (rng 0),
                 kp_verifying_key = VkEd25519 suite (ed_public X (rng 0))\<rparr>)"

definition generate_ed25519_keypair :: "(nat \<Rightarrow> string) \<Rightarrow> string" where
  "generate_ed25519_keypair rng = rng 0"

definition signing_key_from_bytes ::
  "externs \<Rightarrow> crypto_suite \<Rightarrow> string \<Rightarrow> crypto_error + signing_key" where
  "signing_key_from_bytes X suite bytes =
     (case suite of
        Sm2Sm3 \<Rightarrow> rbind (ok_or (sm2_secret X bytes) InvalidSigningKey) (\<lambda>key.
                    Inr (SkSm2 suite key))
      | _ \<Rightarrow> if length bytes = 32 then Inr (SkEd25519 suite bytes) else Inl InvalidSigningKey)"

definition signing_key_from_private_key_jwk ::
  "externs \<Rightarrow> crypto_suite \<Rightarrow> json \<Rightarrow> crypto_error + signing_key" where
  "signing_key_from_private_key_jwk X suite jwk =
     rbind (ok_or (json_get_str ''d'' jwk) InvalidSigningKey) (\<lambda>d.
     rbind (ok_or (b64_decode X d) InvalidSigningKey) (\<lambda>bytes.
     signing_key_from_bytes X suite bytes))"

text \<open>The functions named legacy work on the bare keys of \<open>ed25519_dalek\<close>, without a suite.\<close>

definition signing_key_from_legacy_ed25519_bytes :: "string \<Rightarrow> crypto_error + string" where
  "signing_key_from_legacy_ed25519_bytes bytes =
     (if length bytes = 32 then Inr bytes else Inl InvalidSigningKey)"

definition verifying_key_from_bytes ::
  "externs \<Rightarrow> crypto_suite \<Rightarrow> string \<Rightarrow> crypto_error + verifying_key" where
  "verifying_key_from_bytes X suite bytes =
     (case suite of
        Sm2Sm3 \<Rightarrow> rbind (ok_or (sm2_sec1 X bytes) InvalidVerifyingKey) (\<lambda>key.
                    Inr (VkSm2 suite key))
      | _ \<Rightarrow> if length bytes = 32 \<and> ed_public_ok X bytes then Inr (VkEd25519 suite bytes)
             else Inl InvalidVerifyingKey)"

definition verifying_key_from_legacy_ed25519_bytes :: "externs \<Rightarrow> string \<Rightarrow> crypto_error + string" where
  "verifying_key_from_legacy_ed25519_bytes X bytes =
     (if length bytes \<noteq> 32 then Inl InvalidVerifyingKey
      else if ed_public_ok X bytes then Inr bytes else Inl InvalidVerifyingKey)"

definition verifying_key_from_public_key_multibase ::
  "externs \<Rightarrow> crypto_suite \<Rightarrow> string \<Rightarrow> crypto_error + verifying_key" where
  "verifying_key_from_public_key_multibase X suite multibase =
     rbind (ok_or (strip_prefix ''z'' multibase) InvalidPublicKeyEncoding) (\<lambda>encoded.
     rbind (ok_or (b58_decode X encoded) InvalidPublicKeyEncoding) (\<lambda>bytes.
     let key_bytes = (if suite \<noteq> Sm2Sm3 \<and> length bytes = 34 \<and> take 2 bytes = ED25519_MULTICODEC
                      then drop 2 bytes else bytes)
     in verifying_key_from_bytes X suite key_bytes))"

definition verifying_key_from_public_key_jwk ::
  "externs \<Rightarrow> crypto_suite \<Rightarrow> json \<Rightarrow> crypto_error + verifying_key" where
  "verifying_key_from_public_key_jwk X suite jwk =
     (case suite of
        Sm2Sm3 \<Rightarrow>
          rbind (ok_or (json_get_str ''x'' jwk) InvalidPublicKeyEncoding) (\<lambda>x.
          rbind (ok_or (json_get_str ''y'' jwk) InvalidPublicKeyEncoding) (\<lambda>y.
          rbind (ok_or (b64_decode X x) InvalidPublicKeyEncoding) (\<lambda>x.
          rbind (ok_or (b64_decode X y) InvalidPublicKeyEncoding) (\<lambda>y.
          if length x \<noteq> 32 \<or> length y \<noteq> 32 then Inl InvalidPublicKeyEncoding
          else verifying_key_from_bytes X suite (CHR 0x04 # x @ y)))))
      | _ \<Rightarrow>
          rbind (ok_or (json_get_str ''x'' jwk) InvalidPublicKeyEncoding) (\<lambda>x.
          rbind (ok_or (b64_decode X x) InvalidPublicKeyEncoding) (\<lambda>bytes.
          verifying_key_from_bytes X suite bytes)))"

fun verifying_key_bytes :: "verifying_key \<Rightarrow> string" where
  "verifying_key_bytes (VkEd25519 suite key) = key"
| "verifying_key_bytes (VkSm2 suite key) = key"

definition public_key_multibase :: "externs \<Rightarrow> verifying_key \<Rightarrow> string" where
  "public_key_multibase X vk = CHR ''z'' # b58_encode X (verifying_key_bytes vk)"

text \<open>The slices \<open>bytes[1..33]\<close>, \<open>bytes[33..65]\<close> of an uncompressed point (65 bytes).\<close>

fun public_key_jwk :: "externs \<Rightarrow> verifying_key \<Rightarrow> json" where
  "public_key_jwk X (VkEd25519 suite key) = json_object
     [(''kty'', JString ''OKP''), (''crv'', JString ''Ed25519''), (''x'', JString (b64_encode X key))]"
| "public_key_jwk X (VkSm2 suite key) = json_object
     [(''kty'', JString ''EC''), (''crv'', JString ''SM2''),
      (''x'', JString (b64_encode X (take 32 (drop 1 key)))),
      (''y'', JString (b64_encode X (take 32 (drop 33 key))))]"

fun private_key_jwk :: "externs \<Rightarrow> signing_key \<Rightarrow> json" where
  "private_key_jwk X (SkEd25519 suite key) = json_object
     [(''kty'', JString ''OKP''), (''crv'', JString ''Ed25519''),
      (''x'', JString (b64_encode X (ed_public X key))), (''d'', JString (b64_encode X key))]"
| "private_key_jwk X (SkSm2 suite key) = json_object
     [(''kty'', JString ''EC''), (''crv'', JString ''SM2''), (''d'', JString (b64_encode X key))]"

definition crypto_suite_from_verification_method ::
  "verification_method \<Rightarrow> crypto_error + crypto_suite" where
  "crypto_suite_from_verification_method m = ok_or (vm_suite m) UnsupportedCryptoSuite"

definition verifying_key_from_method ::
  "externs \<Rightarrow> verification_method \<Rightarrow> crypto_error + verifying_key" where
  "verifying_key_from_method X m =
     rbind (crypto_suite_from_verification_method m) (\<lambda>suite.
     case vm_public_key_multibase m of
       Some multibase \<Rightarrow> verifying_key_from_public_key_multibase X suite multibase
     | None \<Rightarrow> (case vm_public_key_jwk m of
         Some jwk \<Rightarrow> verifying_key_from_public_key_jwk X suite jwk
       | None \<Rightarrow> Inl MissingKeyMaterial))"

section \<open>Signatures\<close>

fun raw_signature :: "externs \<Rightarrow> signing_key \<Rightarrow> string \<Rightarrow> string" where
  "raw_signature X (SkEd25519 suite key) payload = ed_sign X key payload"
| "raw_signature X (SkSm2 suite key) payload = sm2_sign X key payload"

definition sign_bytes :: "externs \<Rightarrow> signing_key \<Rightarrow> string \<Rightarrow> crypto_error + string" where
  "sign_bytes X sk payload = Inr (b64_encode X (raw_signature X sk payload))"

definition sign_bytes_multibase :: "externs \<Rightarrow> signing_key \<Rightarrow> string \<Rightarrow> crypto_error + string" where
  "sign_bytes_multibase X sk payload =
     rbind (sign_bytes X sk payload) (\<lambda>signature.
     rbind (ok_or (b64_decode X signature) InvalidSignature) (\<lambda>signature.
     Inr (CHR ''z'' # b58_encode X signature)))"

fun check_signature ::
  "externs \<Rightarrow> verifying_key \<Rightarrow> string \<Rightarrow> string \<Rightarrow> crypto_error + unit" where
  "check_signature X (VkEd25519 suite key) payload signature =
     (if length signature \<noteq> 64 then Inl InvalidSignature
      else if ed_verify X key payload signature then Inr () else Inl VerificationFailed)"
| "check_signature X (VkSm2 suite key) payload signature =
     (if \<not> sm2_sig_ok X signature then Inl InvalidSignature
      else if sm2_verify X key payload signature then Inr () else Inl VerificationFailed)"

definition verify_bytes ::
  "externs \<Rightarrow> verifying_key \<Rightarrow> string \<Rightarrow> string \<Rightarrow> crypto_error + unit" where
  "verify_bytes X vk payload signature_base64url =
     rbind (ok_or (b64_decode X signature_base64url) InvalidSignature) (\<lambda>signature.
     check_signature X vk payload signature)"

definition sign_legacy_ed25519_bytes :: "externs \<Rightarrow> string \<Rightarrow> string \<Rightarrow> string" where
  "sign_legacy_ed25519_bytes X key payload = b64_encode X (ed_sign X key payload)"

definition verify_legacy_ed25519_bytes ::
  "externs \<Rightarrow> string \<Rightarrow> string \<Rightarrow> string \<Rightarrow> crypto_error + unit" where
  "verify_legacy_ed25519_bytes X key payload signature_base64url =
     rbind (ok_or (b64_decode X signature_base64url) InvalidSignature) (\<lambda>signature.
     if length signature \<noteq> 64 then Inl InvalidSignature
     else if ed_verify X key payload signature then Inr () else Inl VerificationFailed)"

definition verify_bytes_multibase ::
  "externs \<Rightarrow> verifying_key \<Rightarrow> string \<Rightarrow> string \<Rightarrow> crypto_error + unit" where
  "verify_bytes_multibase X vk payload signature_multibase =
     rbind (ok_or (strip_prefix ''z'' signature_multibase) InvalidSignature) (\<lambda>encoded.
     rbind (ok_or (b58_decode X encoded) InvalidSignature) (\<lambda>signature.
     if length signature \<noteq> 64 then Inl InvalidSignature
     else check_signature X vk payload signature))"

section \<open>Hashes and signature inputs\<close>

definition hash_hex :: "externs \<Rightarrow> crypto_suite \<Rightarrow> string \<Rightarrow> string" where
  "hash_hex X suite payload =
     (case suite of Sm2Sm3 \<Rightarrow> hex X (sm3 X payload) | _ \<Rightarrow> hex X (sha256 X payload))"

definition sha256_hex :: "externs \<Rightarrow> string \<Rightarrow> string" where
  "sha256_hex X payload = hex X (sha256 X payload)"

definition sm3_hex :: "externs \<Rightarrow> string \<Rightarrow> string" where
  "sm3_hex X payload = hex X (sm3 X payload)"

definition canonical_json :: "externs \<Rightarrow> json option \<Rightarrow> crypto_error + string" where
  "canonical_json X value =
     rbind (ok_or value Serialization) (\<lambda>value. Inr (canonical_json_value X value))"

definition hash_json_with_suite ::
  "externs \<Rightarrow> crypto_suite \<Rightarrow> json option \<Rightarrow> crypto_error + string" where
  "hash_json_with_suite X suite value =
     rbind (canonical_json X value) (\<lambda>text. Inr (hash_hex X suite text))"

definition hash_json :: "externs \<Rightarrow> json option \<Rightarrow> crypto_error + string" where
  "hash_json X value = hash_json_with_suite X Ed25519Sha256Legacy value"

definition signature_input ::
  "externs \<Rightarrow> crypto_suite \<Rightarrow> json option \<Rightarrow> crypto_error + string" where
  "signature_input X suite value =
     rbind (canonical_json X value) (\<lambda>canonical.
     case suite of
       Ed25519Sha256Legacy \<Rightarrow> Inr (hash_hex X suite canonical)
     | _ \<Rightarrow> Inr canonical)"

definition did_document_signature_input ::
  "externs \<Rightarrow> did_document \<Rightarrow> crypto_suite \<Rightarrow> crypto_error + string" where
  "did_document_signature_input X d suite =
     signature_input X suite (did_document_json X (d\<lparr>dd_proof := None\<rparr>))"

definition hash_did_document_with_proof ::
  "externs \<Rightarrow> did_document \<Rightarrow> crypto_suite \<Rightarrow> crypto_error + string" where
  "hash_did_document_with_proof X d suite = hash_json_with_suite X suite (did_document_json X d)"

section \<open>Data integrity proofs\<close>

definition crypto_suite_from_proof :: "data_integrity_proof \<Rightarrow> crypto_error + crypto_suite" where
  "crypto_suite_from_proof p = ok_or (pf_suite p) UnsupportedCryptoSuite"

definition verify_payload_with_proof ::
  "externs \<Rightarrow> json option \<Rightarrow> data_integrity_proof \<Rightarrow> verifying_key \<Rightarrow> crypto_error + unit" where
  "verify_payload_with_proof X payload proof vk =
     rbind (crypto_suite_from_proof proof) (\<lambda>suite.
     if suite \<noteq> verifying_key_suite vk then Inl VerificationFailed
     else rbind (signature_input X suite payload) (\<lambda>input.
       verify_bytes_multibase X vk input (pf_value proof)))"

definition verify_oan_payload ::
  "externs \<Rightarrow> json option \<Rightarrow> oan_proof \<Rightarrow> verifying_key \<Rightarrow> crypto_error + unit" where
  "verify_oan_payload X payload proof vk =
     (if op_type proof \<noteq> ''Ed25519Signature2020'' \<or> op_purpose proof \<noteq> ''assertionMethod''
         \<or> \<not> starts_with (op_value proof) ''z''
      then Inl CInvalidProof
      else rbind (ok_or (b58_decode X (tl (op_value proof))) InvalidSignature) (\<lambda>signature.
        if length signature \<noteq> 64 then Inl InvalidSignature
        else rbind (signature_input X Ed25519Sha256 payload) (\<lambda>input.
          case vk of
            VkEd25519 _ key \<Rightarrow>
              if ed_verify X key input signature then Inr () else Inl VerificationFailed
          | VkSm2 _ _ \<Rightarrow> Inl UnsupportedCryptoSuite)))"

definition build_data_integrity_proof ::
  "externs \<Rightarrow> datetime \<Rightarrow> json option \<Rightarrow> string \<Rightarrow> string \<Rightarrow> signing_key
     \<Rightarrow> crypto_error + data_integrity_proof" where
  "build_data_integrity_proof X now payload creator verification_method sk =
     (let suite = signing_key_suite sk in
      rbind (signature_input X suite payload) (\<lambda>input.
      rbind (sign_bytes_multibase X sk input) (\<lambda>v.
      Inr \<lparr>pf_context = None, pf_type = proof_type suite, pf_creator = creator, pf_created = now,
           pf_purpose = ''assertionMethod'', pf_value = v, pf_crypto_suite = Some suite,
           pf_hash_algorithm = Some (canonical_hash_algorithm suite),
           pf_verification_method = Some verification_method\<rparr>)))"

section \<open>JSON-LD Data Integrity\<close>

definition ED25519_CONTEXT_URL :: string where
  "ED25519_CONTEXT_URL = ''https://w3id.org/security/suites/ed25519-2020/v1''"

text \<open>The loader of the four contexts, which are compiled in; building it is the JSON-LD library's.\<close>

definition oan_data_integrity_context_loader :: "externs \<Rightarrow> crypto_error + unit" where
  "oan_data_integrity_context_loader X =
     rbind (map_err StandardDataIntegrity (ld_contexts X)) (\<lambda>_. Inr ())"

text \<open>An Ed25519 OKP key that does not claim the non-standard \<open>alg\<close>.\<close>

definition okp_ed25519 :: "json \<Rightarrow> bool" where
  "okp_ed25519 key \<longleftrightarrow> json_get_str ''kty'' key = Some ''OKP''
     \<and> json_get_str ''crv'' key = Some ''Ed25519''
     \<and> json_get_str ''alg'' key \<noteq> Some ''Ed25519''"

definition sign_oan_data_integrity ::
  "externs \<Rightarrow> json \<Rightarrow> string \<Rightarrow> json \<Rightarrow> crypto_error + json" where
  "sign_oan_data_integrity X document did secret_jwk =
     rbind (map_err StandardDataIntegrity (jwk_parse X secret_jwk)) (\<lambda>private_object.
     if \<not> json_is_object private_object \<or> \<not> okp_ed25519 private_object then Inl InvalidSigningKey
     else rbind (ok_or (json_get_str ''d'' private_object) MissingKeyMaterial) (\<lambda>d.
     rbind (ok_or (b64_decode X d) InvalidSigningKey) (\<lambda>private_bytes.
     if length private_bytes \<noteq> 32 then Inl InvalidSigningKey
     else rbind (ok_or (json_get_str ''x'' private_object) InvalidSigningKey) (\<lambda>x.
     rbind (ok_or (b64_decode X x) InvalidSigningKey) (\<lambda>declared_public.
     if declared_public \<noteq> ed_public X private_bytes then Inl InvalidSigningKey
     else let method_id = key_1 did in
     rbind (case iri_error X method_id of
              Some e \<Rightarrow> Inl (StandardDataIntegrity e) | None \<Rightarrow> Inr ()) (\<lambda>_.
     if \<not> uri_ok X did then Inl InvalidPublicKeyEncoding
     else rbind (ok_or (json_get_str ''x'' (jwk_to_public X private_object))
                   InvalidPublicKeyEncoding) (\<lambda>x.
     rbind (ok_or (b64_decode X x) InvalidPublicKeyEncoding) (\<lambda>key.
     if length key \<noteq> 32 \<or> \<not> ed_public_ok X key then Inl InvalidPublicKeyEncoding
     else rbind (case ld_parse_error X document of
              Some e \<Rightarrow> Inl (StandardDataIntegrity e) | None \<Rightarrow> Inr ()) (\<lambda>_.
     rbind (oan_data_integrity_context_loader X) (\<lambda>_.
     map_err StandardDataIntegrity (ld_sign X document method_id private_object)))))))))))"

definition insert_proof_context :: "json \<Rightarrow> json" where
  "insert_proof_context document =
     (case json_get ''proof'' document of
        Some (JObject kvs) \<Rightarrow>
          json_insert ''proof''
            (json_insert ''@context'' (JString ED25519_CONTEXT_URL) (JObject kvs)) document
      | _ \<Rightarrow> document)"

definition verify_oan_data_integrity :: "externs \<Rightarrow> json \<Rightarrow> json \<Rightarrow> crypto_error + unit" where
  "verify_oan_data_integrity X document public_jwk =
     rbind (map_err StandardDataIntegrity (jwk_parse X public_jwk)) (\<lambda>jwk.
     rbind (ok_or (Option.bind (json_get ''proof'' document)
              (json_get_str ''verificationMethod'')) CInvalidProof) (\<lambda>method_id.
     if (case json_get ''proof'' document of
           Some (JObject proof) \<Rightarrow>
             list_ex (\<lambda>k. k \<in> set (keys proof)) [''creator'', ''cryptoSuite'', ''hashAlgorithm'']
         | _ \<Rightarrow> False)
     then Inl CInvalidProof
     else rbind (case iri_error X method_id of
              Some e \<Rightarrow> Inl (StandardDataIntegrity e) | None \<Rightarrow> Inr ()) (\<lambda>_.
     if strip_suffix ''#key-1'' method_id = None then Inl CInvalidProof
     else let key_object = jwk_to_public X jwk in
     if \<not> json_is_object key_object \<or> \<not> okp_ed25519 key_object then Inl InvalidVerifyingKey
     else let controller = hd (split_on (CHR ''#'') method_id) in
     rbind (ok_or (json_get_str ''x'' key_object) InvalidPublicKeyEncoding) (\<lambda>x.
     rbind (ok_or (b64_decode X x) InvalidPublicKeyEncoding) (\<lambda>key.
     if \<not> uri_ok X controller then Inl InvalidPublicKeyEncoding
     else if length key \<noteq> 32 \<or> \<not> ed_public_ok X key then Inl InvalidPublicKeyEncoding
     else rbind (oan_data_integrity_context_loader X) (\<lambda>_.
     case ld_verify X document method_id controller key of
       Inr _ \<Rightarrow> Inr ()
     | Inl first_error \<Rightarrow>
         map_err (\<lambda>_. StandardDataIntegrity first_error)
           (ld_verify X (insert_proof_context document) method_id controller key)))))))"

definition verify_did_document_proof_standard_value ::
  "externs \<Rightarrow> json \<Rightarrow> crypto_error + unit" where
  "verify_did_document_proof_standard_value X document =
     rbind (ok_or (json_get_str ''id'' document) CInvalidProof) (\<lambda>did.
     let method_id = key_1 did in
     rbind (ok_or
       (Option.bind (Option.bind (json_get ''verificationMethod'' document) json_as_array)
         (\<lambda>methods. Option.bind (List.find (\<lambda>m. json_get_str ''id'' m = Some method_id) methods)
            (json_get ''publicKeyJwk''))) MissingKeyMaterial)
       (\<lambda>public_key. verify_oan_data_integrity X document public_key))"

definition verify_did_document_proof_standard :: "externs \<Rightarrow> did_document \<Rightarrow> crypto_error + unit" where
  "verify_did_document_proof_standard X d =
     rbind (ok_or (did_document_json X d) Serialization)
       (verify_did_document_proof_standard_value X)"

text \<open>
  The blocking variants run the verifier on a thread with a larger stack. Whether the thread starts
  and whether it panics are arguments; \<open>join\<close> returns what the verifier returned.
\<close>

definition on_verifier_thread ::
  "string + unit \<Rightarrow> bool \<Rightarrow> crypto_error + unit \<Rightarrow> crypto_error + unit" where
  "on_verifier_thread spawned panicked verdict =
     rbind (map_err StandardDataIntegrity spawned) (\<lambda>_.
     if panicked then Inl (StandardDataIntegrity ''verifier thread panicked'') else verdict)"

definition verify_did_document_proof_standard_blocking ::
  "externs \<Rightarrow> string + unit \<Rightarrow> bool \<Rightarrow> did_document \<Rightarrow> crypto_error + unit" where
  "verify_did_document_proof_standard_blocking X spawned panicked d =
     on_verifier_thread spawned panicked (verify_did_document_proof_standard X d)"

definition verify_did_document_proof_standard_value_blocking ::
  "externs \<Rightarrow> string + unit \<Rightarrow> bool \<Rightarrow> json \<Rightarrow> crypto_error + unit" where
  "verify_did_document_proof_standard_value_blocking X spawned panicked document =
     on_verifier_thread spawned panicked (verify_did_document_proof_standard_value X document)"

section \<open>The DID Document proof\<close>

definition method_authorized :: "did_document \<Rightarrow> verification_method \<Rightarrow> bool" where
  "method_authorized d m =
     (if vm_id m \<noteq> key_1 (dd_id d) then False
      else case dd_controller d of
        Some (Did controller) \<Rightarrow> vm_controller m = dd_id d \<or> vm_controller m = controller
      | Some (Dids controllers) \<Rightarrow> vm_controller m = dd_id d \<or> vm_controller m \<in> set controllers
      | None \<Rightarrow> vm_controller m = dd_id d)"

definition verify_did_document_proof ::
  "externs \<Rightarrow> string + unit \<Rightarrow> bool \<Rightarrow> did_document \<Rightarrow> crypto_error + unit" where
  "verify_did_document_proof X spawned panicked d =
     (if dd_context d \<noteq> DID_OAN_CONTEXTS then Inl CInvalidProof
      else rbind (ok_or (dd_proof d) CInvalidProof) (\<lambda>proof.
      let method_id = key_1 (dd_id d) in
      if pf_type proof \<noteq> ''Ed25519Signature2020'' \<or> pf_purpose proof \<noteq> ''assertionMethod''
         \<or> pf_creator proof \<noteq> method_id \<or> pf_crypto_suite proof \<noteq> None
         \<or> pf_hash_algorithm proof \<noteq> None
      then Inl CInvalidProof
      else if pf_verification_method proof \<noteq> Some method_id
              \<or> \<not> list_ex (\<lambda>v. v = method_id) (dd_assertion_method d)
      then Inl CInvalidProof
      else rbind (ok_or (List.find (method_authorized d) (dd_verification_method d)) CInvalidProof)
        (\<lambda>m.
      if vm_type m \<noteq> ''Ed25519VerificationKey2020'' then Inl CInvalidProof
      else if Option.bind (vm_public_key_jwk m) (json_get_str ''alg'') = Some ''Ed25519''
      then Inl CInvalidProof
      else case verify_did_document_proof_standard_blocking X spawned panicked d of
        Inr _ \<Rightarrow> Inr ()
      | Inl standard_error \<Rightarrow>
          rbind (verifying_key_from_method X m) (\<lambda>vk.
          rbind (did_document_signature_input X (d\<lparr>dd_proof := None\<rparr>) Ed25519Sha256) (\<lambda>input.
          map_err (\<lambda>_. standard_error) (verify_bytes_multibase X vk input (pf_value proof)))))))"

section \<open>The laws of the external libraries\<close>

text \<open>
  What the crate relies on. Text encodings can be read back; the schemes verify their own
  signatures; encoded keys have their documented sizes.
\<close>

definition codecs_ok :: "externs \<Rightarrow> bool" where
  "codecs_ok X \<longleftrightarrow> (\<forall>s. b64_decode X (b64_encode X s) = Some s \<and> b58_decode X (b58_encode X s) = Some s)"

definition schemes_ok :: "externs \<Rightarrow> bool" where
  "schemes_ok X \<longleftrightarrow>
     (\<forall>k m. length k = 32 \<longrightarrow> length (ed_sign X k m) = 64
        \<and> ed_verify X (ed_public X k) m (ed_sign X k m)
        \<and> length (ed_public X k) = 32 \<and> ed_public_ok X (ed_public X k))
     \<and> (\<forall>b k. sm2_secret X b = Some k \<longrightarrow> length k = 32 \<and> sm2_secret X k = Some k
        \<and> (\<exists>x y. sm2_public X k = CHR 0x04 # x @ y \<and> length x = 32 \<and> length y = 32)
        \<and> sm2_sec1 X (sm2_public X k) = Some (sm2_public X k)
        \<and> (\<forall>m. length (sm2_sign X k m) = 64 \<and> sm2_sig_ok X (sm2_sign X k m)
              \<and> sm2_verify X (sm2_public X k) m (sm2_sign X k m)))"

text \<open>
  Two given values whose canonical texts differ and have the same digest text. A statement that ends
  in a collision names the two values, so it says which pair would break the hash.
\<close>

definition collision :: "externs \<Rightarrow> json \<Rightarrow> json \<Rightarrow> bool" where
  "collision X v w \<longleftrightarrow> canonical_json_value X v \<noteq> canonical_json_value X w
     \<and> (\<exists>A B. hash_hex X A (canonical_json_value X v) = hash_hex X B (canonical_json_value X w))"

text \<open>The legacy functions agree with those of the suites on Ed25519 keys.\<close>

lemma legacy_keys_agree:
  assumes "suite \<noteq> Sm2Sm3"
  shows "signing_key_from_bytes X suite bytes
      = rbind (signing_key_from_legacy_ed25519_bytes bytes) (\<lambda>key. Inr (SkEd25519 suite key))"
    and "verifying_key_from_bytes X suite bytes
      = rbind (verifying_key_from_legacy_ed25519_bytes X bytes) (\<lambda>key. Inr (VkEd25519 suite key))"
  using assms
  by (cases suite; simp add: signing_key_from_bytes_def signing_key_from_legacy_ed25519_bytes_def
      verifying_key_from_bytes_def verifying_key_from_legacy_ed25519_bytes_def)+

lemma legacy_signatures_agree:
  "sign_bytes X (SkEd25519 suite key) payload = Inr (sign_legacy_ed25519_bytes X key payload)"
  "verify_bytes X (VkEd25519 suite vk) payload s = verify_legacy_ed25519_bytes X vk payload s"
  by (simp_all add: sign_bytes_def sign_legacy_ed25519_bytes_def verify_bytes_def
      verify_legacy_ed25519_bytes_def)

text \<open>A key the crate can hold: built from bytes it accepted, tagged with a suite of its kind.\<close>

fun signing_key_ok :: "externs \<Rightarrow> signing_key \<Rightarrow> bool" where
  "signing_key_ok X (SkEd25519 suite key) = (suite \<noteq> Sm2Sm3 \<and> length key = 32)"
| "signing_key_ok X (SkSm2 suite key) = (suite = Sm2Sm3 \<and> (\<exists>b. sm2_secret X b = Some key))"

lemma codecs_simps:
  "codecs_ok X \<Longrightarrow> b64_decode X (b64_encode X s) = Some s"
  "codecs_ok X \<Longrightarrow> b58_decode X (b58_encode X s) = Some s"
  by (simp_all add: codecs_ok_def)

lemma demo_codecs [simp]: "codecs_ok demo_externs"
  by (simp add: codecs_ok_def demo_externs_def)

lemma demo_schemes [simp]: "schemes_ok demo_externs"
  unfolding schemes_ok_def
proof (intro conjI allI impI)
  fix b k assume "sm2_secret demo_externs b = Some k"
  then have k: "length k = 32" by (simp add: demo_externs_def split: if_splits)
  then show "\<exists>x y. sm2_public demo_externs k = CHR 0x04 # x @ y \<and> length x = 32 \<and> length y = 32"
    by (auto simp: demo_externs_def)
qed (auto simp: demo_externs_def split: if_splits)

lemma demo_sm2_key [simp]: "\<exists>b. sm2_secret demo_externs b = Some demo_key"
  by (rule exI [of _ demo_key]) code_simp

lemma raw_signature_checks:
  assumes "schemes_ok X" and "signing_key_ok X sk"
  shows "length (raw_signature X sk m) = 64
     \<and> check_signature X (verifying_key_of X sk) m (raw_signature X sk m) = Inr ()"
  using assms by (cases sk) (auto simp: schemes_ok_def)

lemma signing_key_from_bytes_ok:
  "schemes_ok X \<Longrightarrow> signing_key_from_bytes X suite bytes = Inr sk \<Longrightarrow>
     signing_key_ok X sk \<and> signing_key_suite sk = suite"
  by (cases suite) (auto simp: signing_key_from_bytes_def split: if_splits)

lemma verifying_key_suite_of [simp]: "verifying_key_suite (verifying_key_of X sk) = signing_key_suite sk"
  by (cases sk) auto

lemma sign_bytes_multibase_eq:
  "codecs_ok X \<Longrightarrow> sign_bytes_multibase X sk m = Inr (CHR ''z'' # b58_encode X (raw_signature X sk m))"
  by (simp add: sign_bytes_multibase_def sign_bytes_def codecs_simps)

lemma verify_multibase_ok:
  assumes "codecs_ok X" "schemes_ok X" "signing_key_ok X sk"
  shows "verify_bytes_multibase X (verifying_key_of X sk) m
           (CHR ''z'' # b58_encode X (raw_signature X sk m)) = Inr ()"
  using raw_signature_checks [OF assms(2,3), of m] codecs_simps(2) [OF assms(1)]
  by (simp add: verify_bytes_multibase_def)

lemma signature_input_Some:
  "signature_input X suite (Some v) = Inr (if suite = Ed25519Sha256Legacy
     then hash_hex X suite (canonical_json_value X v) else canonical_json_value X v)"
  by (cases suite) (simp_all add: signature_input_def canonical_json_def)

text \<open>
  The proof that is built for a payload, and what the honest signer's proof is worth: it verifies for
  its payload, and no key of another suite accepts it.
\<close>

definition built_proof ::
  "externs \<Rightarrow> datetime \<Rightarrow> json \<Rightarrow> string \<Rightarrow> string \<Rightarrow> signing_key \<Rightarrow> data_integrity_proof" where
  "built_proof X now v creator method sk =
     (let suite = signing_key_suite sk; text = canonical_json_value X v;
          message = if suite = Ed25519Sha256Legacy then hash_hex X suite text else text
      in \<lparr>pf_context = None, pf_type = proof_type suite, pf_creator = creator, pf_created = now,
          pf_purpose = ''assertionMethod'',
          pf_value = CHR ''z'' # b58_encode X (raw_signature X sk message),
          pf_crypto_suite = Some suite, pf_hash_algorithm = Some (canonical_hash_algorithm suite),
          pf_verification_method = Some method\<rparr>)"

lemma built_proof_simps [simp]:
  "pf_creator (built_proof X now v creator method sk) = creator"
  "pf_purpose (built_proof X now v creator method sk) = ''assertionMethod''"
  "pf_crypto_suite (built_proof X now v creator method sk) = Some (signing_key_suite sk)"
  "pf_verification_method (built_proof X now v creator method sk) = Some method"
  "pf_value (built_proof X now v creator method sk) \<noteq> []"
  by (simp_all add: built_proof_def Let_def)

lemma build_data_integrity_proof_eq:
  "codecs_ok X \<Longrightarrow> build_data_integrity_proof X now (Some v) creator method sk
     = Inr (built_proof X now v creator method sk)"
  by (simp add: build_data_integrity_proof_def built_proof_def Let_def signature_input_Some
      sign_bytes_multibase_eq)

lemma verify_built_proof:
  assumes "codecs_ok X" "schemes_ok X" "signing_key_ok X sk"
  shows "verify_payload_with_proof X (Some v) (built_proof X now v creator method sk) (verifying_key_of X sk)
    = Inr ()"
  using verify_multibase_ok [OF assms]
  by (simp add: verify_payload_with_proof_def crypto_suite_from_proof_def pf_suite_def
      signature_input_Some) (simp add: built_proof_def Let_def)

lemma verify_bytes_multibase_iff:
  "verify_bytes_multibase X vk m s = Inr u \<longleftrightarrow>
     (\<exists>e sig. s = CHR ''z'' # e \<and> b58_decode X e = Some sig \<and> length sig = 64
        \<and> check_signature X vk m sig = Inr ())"
  by (auto simp: verify_bytes_multibase_def strip_prefix_Some_iff)

text \<open>What JSON-LD verification accepts; a failed check is retried with the suite's context.\<close>

definition ld_accepts :: "externs \<Rightarrow> json \<Rightarrow> string \<Rightarrow> string \<Rightarrow> bool" where
  "ld_accepts X document method_id key \<longleftrightarrow>
     (let controller = hd (split_on (CHR ''#'') method_id) in
      ld_verify X document method_id controller key = Inr ()
      \<or> ld_verify X (insert_proof_context document) method_id controller key = Inr ())"

definition public_key_of_jwk :: "externs \<Rightarrow> json \<Rightarrow> string \<Rightarrow> bool" where
  "public_key_of_jwk X jwk key \<longleftrightarrow>
     (\<exists>j x. jwk_parse X jwk = Inr j \<and> okp_ed25519 (jwk_to_public X j)
        \<and> json_get_str ''x'' (jwk_to_public X j) = Some x \<and> b64_decode X x = Some key
        \<and> length key = 32 \<and> ed_public_ok X key)"

lemma verify_oan_data_integrity_InrD:
  assumes "verify_oan_data_integrity X document jwk = Inr u"
  shows "\<exists>pf method_id base key. json_get ''proof'' document = Some pf
     \<and> json_get_str ''verificationMethod'' pf = Some method_id
     \<and> (\<forall>k \<in> {''creator'', ''cryptoSuite'', ''hashAlgorithm''}. json_get k pf = None)
     \<and> method_id = base @ ''#key-1''
     \<and> public_key_of_jwk X jwk key \<and> ld_accepts X document method_id key"
proof -
  from assms obtain j where j: "jwk_parse X jwk = Inr j"
    by (auto simp: verify_oan_data_integrity_def)
  from assms obtain pf method_id where p: "json_get ''proof'' document = Some pf"
    "json_get_str ''verificationMethod'' pf = Some method_id"
    by (auto simp: verify_oan_data_integrity_def bind_eq_Some_conv)
  then obtain kvs where o: "pf = JObject kvs"
    by (cases pf) (auto simp: json_get_str_def json_get_def)
  note eq = assms [unfolded verify_oan_data_integrity_def j p o option.case json.case map_err.simps rbind.simps
      Option.bind.simps, unfolded Let_def]
  from eq o p have k: "''creator'' \<notin> set (keys kvs)" "''cryptoSuite'' \<notin> set (keys kvs)"
    "''hashAlgorithm'' \<notin> set (keys kvs)"
    by (auto split: if_splits)
  have none: "json_get c pf = None" if "c \<notin> set (keys kvs)" for c
    using that o by (simp add: json_get_def map_of_eq_None_iff)
  from eq o p obtain base where b: "method_id = base @ ''#key-1''"
    by (auto simp: strip_suffix_Some_iff split: if_splits)
  let ?c = "hd (split_on (CHR ''#'') method_id)"
  from eq o p obtain x key where key: "json_get_str ''x'' (jwk_to_public X j) = Some x"
      "b64_decode X x = Some key" "length key = 32" "ed_public_ok X key"
      "okp_ed25519 (jwk_to_public X j)"
      and ld: "(case ld_verify X document method_id ?c key of Inr _ \<Rightarrow> Inr ()
         | Inl e \<Rightarrow> map_err (\<lambda>_. StandardDataIntegrity e)
             (ld_verify X (insert_proof_context document) method_id ?c key)) = Inr u"
    by (auto split: if_splits)
  have "ld_accepts X document method_id key"
    using ld by (auto simp: ld_accepts_def Let_def split: sum.splits)
  moreover have "public_key_of_jwk X jwk key" using key j by (auto simp: public_key_of_jwk_def)
  ultimately show ?thesis using p b k none by blast
qed

section \<open>Properties\<close>

text \<open>
  What a key of either suite signs, its public key verifies, in both signature encodings;
  signing never fails.
\<close>

theorem sign_verify_roundtrip:
  assumes "codecs_ok X" and "schemes_ok X" and "signing_key_ok X sk"
  shows "\<exists>s t. sign_bytes_multibase X sk m = Inr s \<and> sign_bytes X sk m = Inr t
     \<and> verify_bytes_multibase X (verifying_key_of X sk) m s = Inr ()
     \<and> verify_bytes X (verifying_key_of X sk) m t = Inr ()"
  using verify_multibase_ok [OF assms] raw_signature_checks [OF assms(2,3), of m]
  by (simp add: sign_bytes_multibase_eq [OF assms(1)] sign_bytes_def verify_bytes_def
      codecs_simps [OF assms(1)])

theorem sign_verify_roundtrip_witness:
  "\<exists>s t. sign_bytes_multibase demo_externs (SkSm2 Sm2Sm3 demo_key) ''m'' = Inr s
     \<and> sign_bytes demo_externs (SkSm2 Sm2Sm3 demo_key) ''m'' = Inr t
     \<and> verify_bytes_multibase demo_externs (verifying_key_of demo_externs (SkSm2 Sm2Sm3 demo_key)) ''m'' s = Inr ()
     \<and> verify_bytes demo_externs (verifying_key_of demo_externs (SkSm2 Sm2Sm3 demo_key)) ''m'' t = Inr ()"
  by (rule sign_verify_roundtrip) simp_all

text \<open>
  C8. A proof built over any serialisable payload is accepted for that payload under the
  signer's public key, and rejected under every key of another suite.
\<close>

theorem built_proof_verifies:
  assumes "codecs_ok X" and "schemes_ok X" and "signing_key_ok X sk"
  shows "\<exists>p. build_data_integrity_proof X now (Some v) creator method_id sk = Inr p
     \<and> verify_payload_with_proof X (Some v) p (verifying_key_of X sk) = Inr ()
     \<and> (\<forall>vk. verifying_key_suite vk = signing_key_suite sk
          \<or> verify_payload_with_proof X (Some v) p vk = Inl VerificationFailed)"
  using verify_built_proof [OF assms]
  by (simp add: build_data_integrity_proof_eq [OF assms(1)])
    (simp add: verify_payload_with_proof_def crypto_suite_from_proof_def pf_suite_def)

theorem built_proof_verifies_witness:
  "\<exists>p. build_data_integrity_proof demo_externs 0 (Some JNull) ''c'' ''c#key-1''
           (SkEd25519 Ed25519Sha256Legacy demo_key) = Inr p
     \<and> verify_payload_with_proof demo_externs (Some JNull) p
           (verifying_key_of demo_externs (SkEd25519 Ed25519Sha256Legacy demo_key)) = Inr ()
     \<and> (\<forall>vk. verifying_key_suite vk = signing_key_suite (SkEd25519 Ed25519Sha256Legacy demo_key)
          \<or> verify_payload_with_proof demo_externs (Some JNull) p vk = Inl VerificationFailed)"
  by (rule built_proof_verifies) (simp_all add: demo_key_def)

text \<open>
  C31. Key encodings round trip: the public key of any signing key is read back from its
  multibase text and from its JWK, and the signing key from its private JWK.
\<close>

theorem key_encodings_roundtrip:
  assumes "codecs_ok X" and "schemes_ok X" and "signing_key_ok X sk"
  shows "verifying_key_from_public_key_multibase X (signing_key_suite sk)
           (public_key_multibase X (verifying_key_of X sk)) = Inr (verifying_key_of X sk)
    \<and> verifying_key_from_public_key_jwk X (signing_key_suite sk)
           (public_key_jwk X (verifying_key_of X sk)) = Inr (verifying_key_of X sk)
    \<and> signing_key_from_private_key_jwk X (signing_key_suite sk) (private_key_jwk X sk) = Inr sk"
proof -
  note get = json_get_str_def json_get_object json_as_str_def codecs_simps [OF assms(1)]
  show ?thesis
  proof (cases sk)
    case (SkEd25519 suite k)
    with assms(2,3) have k: "suite \<noteq> Sm2Sm3" "length k = 32" "length (ed_public X k) = 32"
      "ed_public_ok X (ed_public X k)" by (auto simp: schemes_ok_def)
    then show ?thesis using SkEd25519
      by (cases suite) (simp_all add: get public_key_multibase_def
        verifying_key_from_public_key_multibase_def verifying_key_from_public_key_jwk_def
        signing_key_from_private_key_jwk_def verifying_key_from_bytes_def signing_key_from_bytes_def)
  next
    case (SkSm2 suite k)
    with assms(3) obtain b where "suite = Sm2Sm3" "sm2_secret X b = Some k" by auto
    with assms(2) obtain x y where k: "suite = Sm2Sm3" "sm2_secret X k = Some k"
      "sm2_public X k = CHR 0x04 # x @ y" "length x = 32" "length y = 32"
      "sm2_sec1 X (CHR 0x04 # x @ y) = Some (CHR 0x04 # x @ y)"
      unfolding schemes_ok_def by metis
    then show ?thesis using SkSm2
      by (simp add: get public_key_multibase_def
        verifying_key_from_public_key_multibase_def verifying_key_from_public_key_jwk_def
        signing_key_from_private_key_jwk_def verifying_key_from_bytes_def signing_key_from_bytes_def)
  qed
qed

theorem key_encodings_roundtrip_witness:
  "signing_key_from_private_key_jwk demo_externs Sm2Sm3
     (private_key_jwk demo_externs (SkSm2 Sm2Sm3 demo_key)) = Inr (SkSm2 Sm2Sm3 demo_key)"
proof -
  have "signing_key_ok demo_externs (SkSm2 Sm2Sm3 demo_key)" by simp
  from key_encodings_roundtrip [OF demo_codecs demo_schemes this] show ?thesis by simp
qed

text \<open>
  A signature input determines the payload: payloads with the same input are equal, or,
  in the legacy suite that signs a hash, their canonical texts are a SHA-256 collision.
\<close>

theorem signature_input_determines_payload:
  assumes "quote_ok X" and "hex_ok X" and "json_ok v" and "json_ok w"
    and "signature_input X suite (Some v) = signature_input X suite (Some w)"
  shows "v = w \<or> (suite = Ed25519Sha256Legacy \<and> canonical_json_value X v \<noteq> canonical_json_value X w
    \<and> sha256 X (canonical_json_value X v) = sha256 X (canonical_json_value X w))"
proof (cases "suite = Ed25519Sha256Legacy")
  case True
  then have "sha256 X (canonical_json_value X v) = sha256 X (canonical_json_value X w)"
    using assms(2,5) by (simp add: signature_input_Some hash_hex_def hex_ok_def)
  with True canonical_json_inject [OF assms(1,3,4)] show ?thesis by blast
next
  case False
  with assms(5) have "canonical_json_value X v = canonical_json_value X w"
    by (simp add: signature_input_Some)
  with canonical_json_inject [OF assms(1,3,4)] show ?thesis by blast
qed

theorem signature_input_determines_payload_witness:
  "signature_input demo_externs Ed25519Sha256 (Some (JBool True))
     \<noteq> signature_input demo_externs Ed25519Sha256 (Some (JBool False))"
  using signature_input_determines_payload [of demo_externs "JBool True" "JBool False" Ed25519Sha256]
  by auto

text \<open>
  JSON-LD verification accepts a document only when its proof carries none of the legacy
  members, names a \<open>#key-1\<close> method, the JWK given is a 32-byte Ed25519 public key, and the
  suite accepts the document under that key, as it is or with the suite's context added.
\<close>

theorem data_integrity_acceptance:
  assumes "verify_oan_data_integrity X document jwk = Inr ()"
  shows "\<exists>pf method_id base key. json_get ''proof'' document = Some pf
     \<and> json_get_str ''verificationMethod'' pf = Some method_id
     \<and> (\<forall>k \<in> {''creator'', ''cryptoSuite'', ''hashAlgorithm''}. json_get k pf = None)
     \<and> method_id = base @ ''#key-1''
     \<and> public_key_of_jwk X jwk key \<and> ld_accepts X document method_id key"
  using assms by (rule verify_oan_data_integrity_InrD)

definition ld_demo_externs :: externs where
  "ld_demo_externs = demo_externs\<lparr>ld_verify := (\<lambda>d m c k.
     if Option.bind (json_get ''proof'' d) (json_get ''@context'') = None then Inl ''context''
     else Inr ())\<rparr>"

definition ld_demo_document :: json where
  "ld_demo_document = JObject [(''proof'', JObject [(''verificationMethod'', JString (key_1 demo_did))])]"

theorem data_integrity_acceptance_witness:
  "\<exists>key. public_key_of_jwk ld_demo_externs (jwk_json (demo_jwk False)) key
     \<and> ld_accepts ld_demo_externs ld_demo_document (key_1 demo_did) key"
proof -
  have "verify_oan_data_integrity ld_demo_externs ld_demo_document (jwk_json (demo_jwk False)) = Inr ()"
    by code_simp
  from data_integrity_acceptance [OF this] obtain pf m key where
    "json_get ''proof'' ld_demo_document = Some pf" "json_get_str ''verificationMethod'' pf = Some m"
    "public_key_of_jwk ld_demo_externs (jwk_json (demo_jwk False)) key"
    "ld_accepts ld_demo_externs ld_demo_document m key" by blast
  then show ?thesis by (auto simp: ld_demo_document_def json_get_def json_get_str_def json_as_str_def)
qed

lemma blocking_accepts:
  "verify_did_document_proof_standard_blocking X spawned panicked d = Inr u \<Longrightarrow>
     verify_did_document_proof_standard X d = Inr u"
  by (cases spawned) (auto simp: verify_did_document_proof_standard_blocking_def on_verifier_thread_def
      split: if_splits)

text \<open>
  A DID Document proof is accepted only for an authorised key: some method of the
  document is named \<open>#key-1\<close>, is controlled by the document or its controller, and either
  JSON-LD verification accepts the serialised document, or a 64-byte signature in the proof
  checks, under this method's key, over the canonical text of the document without its proof. This holds
  whether the thread of the JSON-LD verifier starts or not and panics or not.
\<close>

theorem did_document_proof_acceptance:
  assumes "verify_did_document_proof X spawned panicked d = Inr ()"
  shows "\<exists>p m. dd_proof d = Some p \<and> m \<in> set (dd_verification_method d) \<and> method_authorized d m
    \<and> key_1 (dd_id d) \<in> set (dd_assertion_method d)
    \<and> (verify_did_document_proof_standard X d = Inr ()
       \<or> (\<exists>vk v e sig. verifying_key_from_method X m = Inr vk
            \<and> did_document_json X (d\<lparr>dd_proof := None\<rparr>) = Some v
            \<and> pf_value p = CHR ''z'' # e \<and> b58_decode X e = Some sig \<and> length sig = 64
            \<and> check_signature X vk (canonical_json_value X v) sig = Inr ()))"
proof -
  from assms obtain p where p: "dd_proof d = Some p"
    by (auto simp: verify_did_document_proof_def split: if_splits)
  from assms p obtain m where m: "List.find (method_authorized d) (dd_verification_method d) = Some m"
    and a: "key_1 (dd_id d) \<in> set (dd_assertion_method d)"
    by (auto simp: verify_did_document_proof_def Let_def list_ex_eq_mem split: if_splits)
  have "\<exists>vk v e sig. verifying_key_from_method X m = Inr vk
            \<and> did_document_json X (d\<lparr>dd_proof := None\<rparr>) = Some v
            \<and> pf_value p = CHR ''z'' # e \<and> b58_decode X e = Some sig \<and> length sig = 64
            \<and> check_signature X vk (canonical_json_value X v) sig = Inr ()"
    if "verify_did_document_proof_standard_blocking X spawned panicked d = Inl e" for e
  proof -
    from assms p m that obtain vk input where "verifying_key_from_method X m = Inr vk"
      "did_document_signature_input X (d\<lparr>dd_proof := None\<rparr>) Ed25519Sha256 = Inr input"
      "verify_bytes_multibase X vk input (pf_value p) = Inr ()"
      by (auto simp: verify_did_document_proof_def Let_def split: if_splits)
    then show ?thesis
      unfolding verify_bytes_multibase_iff
      by (auto simp: did_document_signature_input_def signature_input_def canonical_json_def)
  qed
  then show ?thesis
    using p a find_Some_mem [OF m]
    by (cases "verify_did_document_proof_standard_blocking X spawned panicked d")
      (auto dest: blocking_accepts)
qed

definition signed_demo_document :: did_document where
  "signed_demo_document = demo_document\<lparr>dd_proof := Some (demo_proof\<lparr>pf_creator := key_1 demo_did,
     pf_value := CHR ''z'' # take 64 (replicate 32 (CHR ''2'') @
       canonical_json_value demo_externs
         (the (did_document_json demo_externs (demo_document\<lparr>dd_proof := None\<rparr>))) @
       replicate 64 (CHR ''0''))\<rparr>)\<rparr>"

theorem did_document_proof_acceptance_witness:
  "\<exists>m \<in> set (dd_verification_method signed_demo_document). method_authorized signed_demo_document m"
proof -
  have "verify_did_document_proof demo_externs (Inl ''no thread'') False signed_demo_document = Inr ()"
    by code_simp
  from did_document_proof_acceptance [OF this] show ?thesis by blast
qed

text \<open>
  No DID Document passes both proof checks of the workspace: \<open>validate_proof\<close> of
  \<open>oan-core\<close> demands an empty \<open>creator\<close>, \<open>verify_did_document_proof\<close> of \<open>oan-crypto\<close> demands
  \<open>creator\<close> to name key 1.
\<close>

theorem no_document_passes_both_checks:
  "\<not> (is_ok (validate_oan_resource X d) \<and> is_ok (verify_did_document_proof X spawned panicked d))"
proof
  assume "is_ok (validate_oan_resource X d) \<and> is_ok (verify_did_document_proof X spawned panicked d)"
  then obtain c m p where r: "resource_document_ok X d c m p"
    and v: "verify_did_document_proof X spawned panicked d = Inr ()"
    by (auto simp: is_ok_iff oan_resource_iff)
  from r have "dd_proof d = Some p" "pf_creator p = []"
    by (auto simp: resource_document_ok_def proof_well_formed_def)
  with v show False
    by (auto simp: verify_did_document_proof_def Let_def key_1_def split: if_splits)
qed

text \<open>
  The multibase text that \<open>oan-crypto\<close> prints for an Ed25519 key lacks the multicodec
  prefix, so the strict profile of \<open>oan-core\<close> rejects every document that publishes it as
  \<open>#key-1\<close>.
\<close>

theorem printed_multibase_rejected_by_profile:
  assumes "codecs_ok X" and "length key = 32"
    and "signing_method d = Some m"
    and "om_public_key_multibase m = Some (public_key_multibase X (VkEd25519 suite key))"
  shows "\<exists>e. validate_oan_document X d = Inl e"
proof (cases "validate_oan_document X d")
  case (Inr u)
  then obtain bs where
    "decode_oan_multibase X (public_key_multibase X (VkEd25519 suite key)) 34
       PInvalidVerificationMethod = Inr bs"
    using assms(3,4) validate_oan_document_InrD [of X d u] by auto
  then have "length key = 34"
    using codecs_simps(2) [OF assms(1)]
    by (auto simp: decode_oan_multibase_iff public_key_multibase_def) (metis option.inject)
  with assms(2) show ?thesis by simp
qed simp

theorem printed_multibase_rejected_by_profile_witness:
  "\<exists>e. validate_oan_document demo_externs (demo_oan_document\<lparr>od_verification_method :=
     [\<lparr>om_id = key_1 demo_did, om_type = ''Ed25519VerificationKey2020'', om_controller = demo_did,
       om_public_key_multibase = Some (public_key_multibase demo_externs (VkEd25519 Ed25519Sha256 demo_key)),
       om_public_key_jwk = Some (demo_jwk False)\<rparr>]\<rparr>) = Inl e"
proof (rule printed_multibase_rejected_by_profile)
  show "length demo_key = 32" by (simp add: demo_key_def)
  show "signing_method (demo_oan_document\<lparr>od_verification_method :=
     [\<lparr>om_id = key_1 demo_did, om_type = ''Ed25519VerificationKey2020'', om_controller = demo_did,
       om_public_key_multibase = Some (public_key_multibase demo_externs (VkEd25519 Ed25519Sha256 demo_key)),
       om_public_key_jwk = Some (demo_jwk False)\<rparr>]\<rparr>) =
     Some \<lparr>om_id = key_1 demo_did, om_type = ''Ed25519VerificationKey2020'', om_controller = demo_did,
       om_public_key_multibase = Some (public_key_multibase demo_externs (VkEd25519 Ed25519Sha256 demo_key)),
       om_public_key_jwk = Some (demo_jwk False)\<rparr>"
    by (simp add: signing_method_def demo_oan_document_def)
qed simp_all

end
