(* ===== verification/Bulletin.thy ===== *)
theory Bulletin
  imports Crypto
begin

text \<open>
  The bulletin crate \<open>crates/oan-bulletin\<close>: signed events in a hash chain. The chain check
  is related to a specification over positions, signing an event is shown to extend an
  accepted chain, and two accepted chains that end in the same hash are shown to agree.
\<close>

datatype bulletin_error =
  BulletinCrypto crypto_error
| SequenceMismatch nat "64 word" "64 word"
| PreviousHashMismatch "64 word"
| EventHashMismatch "64 word"
| SignatureMismatch "64 word"

datatype bulletin_event_type =
  RootInitialized | CdnServiceInfoUpdated | RegistrarAuthorized | RegistrarRevoked
| DiscoveryNodeAuthorized | DiscoveryNodeDomainsUpdated | DiscoveryNodeRevoked | NodeRevoked
| CapabilityTagTreeUpdated

definition event_type_text :: "bulletin_event_type \<Rightarrow> string" where
  "event_type_text t = (case t of
     RootInitialized \<Rightarrow> ''ROOT_INITIALIZED''
   | CdnServiceInfoUpdated \<Rightarrow> ''CDN_SERVICE_INFO_UPDATED''
   | RegistrarAuthorized \<Rightarrow> ''REGISTRAR_AUTHORIZED''
   | RegistrarRevoked \<Rightarrow> ''REGISTRAR_REVOKED''
   | DiscoveryNodeAuthorized \<Rightarrow> ''DISCOVERY_NODE_AUTHORIZED''
   | DiscoveryNodeDomainsUpdated \<Rightarrow> ''DISCOVERY_NODE_DOMAINS_UPDATED''
   | DiscoveryNodeRevoked \<Rightarrow> ''DISCOVERY_NODE_REVOKED''
   | NodeRevoked \<Rightarrow> ''NODE_REVOKED''
   | CapabilityTagTreeUpdated \<Rightarrow> ''CAPABILITY_TAG_TREE_UPDATED'')"

record bulletin_event_core =
  ec_sequence :: "64 word"
  ec_previous_hash :: "string option"
  ec_event_type :: bulletin_event_type
  ec_subject_did :: string
  ec_actor_did :: string
  ec_payload :: json
  ec_created_at :: datetime

record bulletin_event =
  ev_core :: bulletin_event_core
  ev_event_hash :: string
  ev_signature :: string
  ev_proof :: "data_integrity_proof option"
  ev_crypto_suite :: "crypto_suite option"
  ev_hash_algorithm :: "string option"

record bulletin =
  bu_version :: string
  bu_root_did :: string
  bu_created_at :: datetime
  bu_events :: "bulletin_event list"

definition event_core_json :: "externs \<Rightarrow> bulletin_event_core \<Rightarrow> json" where
  "event_core_json X c = json_object
     [(''sequence'', JNumber (JInt (uint (ec_sequence c)))),
      (''previousHash'', case ec_previous_hash c of None \<Rightarrow> JNull | Some h \<Rightarrow> JString h),
      (''eventType'', JString (event_type_text (ec_event_type c))),
      (''subjectDid'', JString (ec_subject_did c)), (''actorDid'', JString (ec_actor_did c)),
      (''payload'', ec_payload c), (''createdAt'', JString (time_text X (ec_created_at c)))]"

definition event_core_hash ::
  "externs \<Rightarrow> bulletin_event_core \<Rightarrow> crypto_suite \<Rightarrow> bulletin_error + string" where
  "event_core_hash X c suite =
     map_err BulletinCrypto (hash_json_with_suite X suite (Some (event_core_json X c)))"

definition event_hash_json :: "string \<Rightarrow> json" where
  "event_hash_json h = json_object [(''eventHash'', JString h)]"

definition sign_event ::
  "externs \<Rightarrow> datetime \<Rightarrow> bulletin_event_core \<Rightarrow> signing_key \<Rightarrow> bulletin_error + bulletin_event" where
  "sign_event X now c sk =
     (let suite = signing_key_suite sk in
      rbind (event_core_hash X c suite) (\<lambda>event_hash.
      rbind (map_err BulletinCrypto (build_data_integrity_proof X now
               (Some (event_hash_json event_hash)) (ec_actor_did c) (key_1 (ec_actor_did c)) sk))
        (\<lambda>proof.
      Inr \<lparr>ev_core = c, ev_event_hash = event_hash, ev_signature = pf_value proof,
           ev_proof = Some proof, ev_crypto_suite = Some suite,
           ev_hash_algorithm = Some (hash_algorithm suite)\<rparr>)))"

definition sign_legacy_ed25519 ::
  "externs \<Rightarrow> datetime \<Rightarrow> bulletin_event_core \<Rightarrow> string \<Rightarrow> bulletin_error + bulletin_event" where
  "sign_legacy_ed25519 X now c key = sign_event X now c (SkEd25519 Ed25519Sha256Legacy key)"

definition event_crypto_suite :: "bulletin_event \<Rightarrow> crypto_suite" where
  "event_crypto_suite e =
     (case ev_crypto_suite e of
        Some suite \<Rightarrow> suite
      | None \<Rightarrow> (case Option.bind (ev_proof e) pf_crypto_suite of
          Some suite \<Rightarrow> suite
        | None \<Rightarrow> Ed25519Sha256Legacy))"

text \<open>The signature part of one round of the loop.\<close>

definition verify_event_signature ::
  "externs \<Rightarrow> verifying_key \<Rightarrow> bulletin_event \<Rightarrow> bulletin_error + unit" where
  "verify_event_signature X root_key e =
     (let suite = event_crypto_suite e;
          payload = Some (event_hash_json (ev_event_hash e));
          mismatch = SignatureMismatch (ec_sequence (ev_core e))
      in case ev_proof e of
        Some proof \<Rightarrow>
          if pf_crypto_suite proof = None \<and> ev_crypto_suite e = None
          then rbind (map_err BulletinCrypto (signature_input X suite payload)) (\<lambda>input.
            map_err (\<lambda>_. mismatch) (verify_bytes_multibase X root_key input (pf_value proof)))
          else map_err (\<lambda>_. mismatch) (verify_payload_with_proof X payload proof root_key)
      | None \<Rightarrow>
          rbind (map_err BulletinCrypto (signature_input X suite payload)) (\<lambda>input.
          map_err (\<lambda>_. mismatch) (verify_bytes X root_key input (ev_signature e))))"

fun verify_events ::
  "externs \<Rightarrow> verifying_key \<Rightarrow> nat \<Rightarrow> string option \<Rightarrow> bulletin_event list \<Rightarrow> bulletin_error + unit"
where
  "verify_events X root_key index previous_hash [] = Inr ()"
| "verify_events X root_key index previous_hash (e # es) =
     (let expected = of_nat index + 1; actual = ec_sequence (ev_core e) in
      if actual \<noteq> expected then Inl (SequenceMismatch index expected actual)
      else if ec_previous_hash (ev_core e) \<noteq> previous_hash then Inl (PreviousHashMismatch actual)
      else rbind (event_core_hash X (ev_core e) (event_crypto_suite e)) (\<lambda>event_hash.
        if event_hash \<noteq> ev_event_hash e then Inl (EventHashMismatch actual)
        else rbind (verify_event_signature X root_key e) (\<lambda>_.
          verify_events X root_key (Suc index) (Some (ev_event_hash e)) es)))"

definition verify_hash_chain :: "externs \<Rightarrow> bulletin \<Rightarrow> verifying_key \<Rightarrow> bulletin_error + unit" where
  "verify_hash_chain X b root_key = verify_events X root_key 0 None (bu_events b)"

section \<open>Specification\<close>

text \<open>What one event must satisfy at its position, after the event with the given hash.\<close>

definition event_ok ::
  "externs \<Rightarrow> verifying_key \<Rightarrow> nat \<Rightarrow> string option \<Rightarrow> bulletin_event \<Rightarrow> bool" where
  "event_ok X key i prev e \<longleftrightarrow>
     ec_sequence (ev_core e) = of_nat i + 1 \<and> ec_previous_hash (ev_core e) = prev
     \<and> ev_event_hash e = hash_hex X (event_crypto_suite e)
         (canonical_json_value X (event_core_json X (ev_core e)))
     \<and> verify_event_signature X key e = Inr ()"

definition previous_hash_at :: "bulletin_event list \<Rightarrow> nat \<Rightarrow> string option" where
  "previous_hash_at es i = (if i = 0 then None else Some (ev_event_hash (es ! (i - 1))))"

lemma event_core_hash_eq:
  "event_core_hash X c suite = Inr (hash_hex X suite (canonical_json_value X (event_core_json X c)))"
  by (simp add: event_core_hash_def hash_json_with_suite_def canonical_json_def)

lemma verify_events_Cons:
  "verify_events X key i prev (e # es) = Inr () \<longleftrightarrow>
     event_ok X key i prev e \<and> verify_events X key (Suc i) (Some (ev_event_hash e)) es = Inr ()"
  by (auto simp: event_ok_def event_core_hash_eq Let_def)

declare verify_events.simps(2) [simp del]

text \<open>The chain of a list, read from the back: an event is checked against its predecessor.\<close>

fun last_hash :: "string option \<Rightarrow> bulletin_event list \<Rightarrow> string option" where
  "last_hash prev [] = prev"
| "last_hash prev (e # es) = last_hash (Some (ev_event_hash e)) es"

lemma last_hash_snoc [simp]: "last_hash prev (es @ [e]) = Some (ev_event_hash e)"
  by (induction es arbitrary: prev) auto

lemma last_hash_last: "es \<noteq> [] \<Longrightarrow> last_hash prev es = Some (ev_event_hash (last es))"
  by (induction es arbitrary: prev) auto

lemma verify_events_append:
  "verify_events X key i prev (es @ fs) = Inr () \<longleftrightarrow>
     verify_events X key i prev es = Inr ()
     \<and> verify_events X key (i + length es) (last_hash prev es) fs = Inr ()"
  by (induction es arbitrary: i prev) (auto simp: verify_events_Cons)

lemma verify_events_nth:
  "verify_events X key i prev es = Inr () \<longleftrightarrow>
     (\<forall>j < length es. event_ok X key (i + j)
        (if j = 0 then prev else Some (ev_event_hash (es ! (j - 1)))) (es ! j))"
proof (induction es arbitrary: i prev)
  case (Cons e es)
  show ?case unfolding verify_events_Cons Cons.IH
    by (simp add: All_less_Suc2 nth_Cons')
qed simp

lemma previous_hash_snoc:
  "verify_events X key 0 None (es @ [e]) = Inr () \<longleftrightarrow>
     verify_events X key 0 None es = Inr () \<and> event_ok X key (length es) (last_hash None es) e"
  by (simp add: verify_events_append verify_events_Cons)

section \<open>Signing extends the chain\<close>

lemma sign_event_ok:
  assumes "codecs_ok X" "schemes_ok X" "signing_key_ok X sk"
    and "ec_sequence c = of_nat i + 1" "ec_previous_hash c = prev"
  shows "\<exists>e. sign_event X now c sk = Inr e \<and> ev_core e = c
     \<and> event_ok X (verifying_key_of X sk) i prev e"
  using assms(4,5) verify_built_proof [OF assms(1-3)]
  by (simp add: sign_event_def Let_def event_core_hash_eq build_data_integrity_proof_eq [OF assms(1)]
      event_ok_def event_crypto_suite_def verify_event_signature_def)

section \<open>Equal ends mean equal histories\<close>

definition time_ok :: "externs \<Rightarrow> bool" where
  "time_ok X \<longleftrightarrow> (\<forall>s t. time_text X s = time_text X t \<longrightarrow> s = t)"

lemma demo_time_ok [simp]: "time_ok demo_externs"
  by (simp add: time_ok_def demo_externs_def int_text_inject)

lemma event_type_text_inject: "event_type_text s = event_type_text t \<longleftrightarrow> s = t"
  by (cases s; cases t) (simp_all add: event_type_text_def)

lemma event_core_json_inject:
  assumes "time_ok X" and "event_core_json X c = event_core_json X d"
  shows "c = d"
proof -
  note k = json_object_eqD [OF assms(2) [unfolded event_core_json_def]]
  have "ec_sequence c = ec_sequence d" using k [of "''sequence''"] by (simp add: word_uint_eq_iff)
  moreover have "ec_previous_hash c = ec_previous_hash d"
    using k [of "''previousHash''"] by (simp split: option.splits)
  moreover have "ec_event_type c = ec_event_type d"
    using k [of "''eventType''"] by (simp add: event_type_text_inject)
  moreover have "ec_subject_did c = ec_subject_did d" using k [of "''subjectDid''"] by simp
  moreover have "ec_actor_did c = ec_actor_did d" using k [of "''actorDid''"] by simp
  moreover have "ec_payload c = ec_payload d" using k [of "''payload''"] by simp
  moreover have "ec_created_at c = ec_created_at d"
    using k [of "''createdAt''"] assms(1) by (simp add: time_ok_def)
  ultimately show ?thesis by simp
qed

lemma event_core_json_ok: "json_ok (ec_payload c) \<Longrightarrow> json_ok (event_core_json X c)"
  unfolding event_core_json_def by (rule json_ok_object) (simp split: option.split)

text \<open>Two events whose cores collide.\<close>

definition events_collide :: "externs \<Rightarrow> bulletin_event \<Rightarrow> bulletin_event \<Rightarrow> bool" where
  "events_collide X e f \<longleftrightarrow> collision X (event_core_json X (ev_core e)) (event_core_json X (ev_core f))"

lemma event_hash_eqD:
  assumes "quote_ok X" "time_ok X" "\<not> events_collide X e f"
    and "event_ok X key i prev e" "event_ok X key' j prev' f" "ev_event_hash e = ev_event_hash f"
    and "json_ok (ec_payload (ev_core e))" "json_ok (ec_payload (ev_core f))"
  shows "ev_core e = ev_core f"
proof -
  have "canonical_json_value X (event_core_json X (ev_core e))
          = canonical_json_value X (event_core_json X (ev_core f))"
    using assms(3-6) unfolding events_collide_def collision_def event_ok_def by metis
  then have "event_core_json X (ev_core e) = event_core_json X (ev_core f)"
    using canonical_json_inject [OF assms(1) event_core_json_ok event_core_json_ok] assms(7,8)
    by blast
  with event_core_json_inject [OF assms(2)] show ?thesis .
qed

lemma chains_agree:
  assumes "quote_ok X" "time_ok X"
  shows "verify_events X key 0 None es = Inr () \<Longrightarrow> verify_events X key' 0 None fs = Inr () \<Longrightarrow>
     length es = length fs \<Longrightarrow> last_hash None es = last_hash None fs \<Longrightarrow>
     \<forall>(e, f) \<in> set (zip es fs). \<not> events_collide X e f \<Longrightarrow>
     \<forall>e \<in> set es \<union> set fs. json_ok (ec_payload (ev_core e)) \<Longrightarrow> map ev_core es = map ev_core fs"
proof (induction es arbitrary: fs rule: rev_induct)
  case (snoc e es)
  then obtain gs f where fs: "fs = gs @ [f]" by (cases fs rule: rev_cases) auto
  from snoc.prems fs have ok: "event_ok X key (length es) (last_hash None es) e"
    "event_ok X key' (length gs) (last_hash None gs) f" "ev_event_hash e = ev_event_hash f"
    by (auto simp: previous_hash_snoc)
  have core: "ev_core e = ev_core f"
    by (rule event_hash_eqD [OF assms _ ok]) (use snoc.prems fs in auto)
  then have "last_hash None es = last_hash None gs"
    using ok unfolding event_ok_def by metis
  then have "map ev_core es = map ev_core gs"
    using snoc.prems fs by (intro snoc.IH) (auto simp: previous_hash_snoc)
  with core fs show ?case by simp
qed simp

section \<open>Properties\<close>

text \<open>
  C6. The chain check accepts a bulletin exactly when every event, at its position, carries
  the next sequence number, the hash of its predecessor (none for the first), the hash of its
  own canonical core, and a valid signature of the root key over that hash.
\<close>

theorem hash_chain_iff:
  "verify_hash_chain X b key = Inr () \<longleftrightarrow>
     (\<forall>i < length (bu_events b). event_ok X key i (previous_hash_at (bu_events b) i) (bu_events b ! i))"
  unfolding verify_hash_chain_def verify_events_nth previous_hash_at_def by simp

definition demo_core :: bulletin_event_core where
  "demo_core = \<lparr>ec_sequence = 1, ec_previous_hash = None, ec_event_type = RootInitialized,
     ec_subject_did = demo_did, ec_actor_did = demo_did, ec_payload = JObject [], ec_created_at = 0\<rparr>"

definition demo_bulletin :: "bulletin_event list \<Rightarrow> bulletin" where
  "demo_bulletin es = \<lparr>bu_version = ''1'', bu_root_did = demo_did, bu_created_at = 0, bu_events = es\<rparr>"

lemma demo_event: "\<exists>e. sign_event demo_externs 0 demo_core (SkEd25519 Ed25519Sha256 demo_key) = Inr e
    \<and> ev_core e = demo_core
    \<and> event_ok demo_externs (verifying_key_of demo_externs (SkEd25519 Ed25519Sha256 demo_key)) 0 None e"
  by (rule sign_event_ok) (simp_all add: demo_key_def demo_core_def)

theorem hash_chain_iff_witness:
  "\<exists>e. sign_event demo_externs 0 demo_core (SkEd25519 Ed25519Sha256 demo_key) = Inr e
     \<and> verify_hash_chain demo_externs (demo_bulletin [e])
         (verifying_key_of demo_externs (SkEd25519 Ed25519Sha256 demo_key)) = Inr ()"
  using demo_event
  by (subst hash_chain_iff) (auto simp: demo_bulletin_def previous_hash_at_def)

text \<open>
  Signing an event whose sequence number and previous hash continue an accepted bulletin
  succeeds, and appending it gives an accepted bulletin.
\<close>

theorem signing_extends_chain:
  assumes "codecs_ok X" and "schemes_ok X" and "signing_key_ok X sk"
    and "verify_hash_chain X b (verifying_key_of X sk) = Inr ()"
    and "ec_sequence c = of_nat (length (bu_events b)) + 1"
    and "ec_previous_hash c = last_hash None (bu_events b)"
  shows "\<exists>e. sign_event X now c sk = Inr e \<and>
     verify_hash_chain X (b\<lparr>bu_events := bu_events b @ [e]\<rparr>) (verifying_key_of X sk) = Inr ()"
  using sign_event_ok [OF assms(1-3) assms(5,6)] assms(4)
  by (auto simp: verify_hash_chain_def previous_hash_snoc)

theorem signing_extends_chain_witness:
  "\<exists>e. sign_event demo_externs 0 demo_core (SkEd25519 Ed25519Sha256 demo_key) = Inr e \<and>
     verify_hash_chain demo_externs (demo_bulletin [e])
       (verifying_key_of demo_externs (SkEd25519 Ed25519Sha256 demo_key)) = Inr ()"
  using signing_extends_chain [of demo_externs "SkEd25519 Ed25519Sha256 demo_key" "demo_bulletin []"
      demo_core 0]
  by (simp add: demo_bulletin_def demo_core_def demo_key_def verify_hash_chain_def)

text \<open>
  C5. Tamper evidence: two accepted bulletins with equally many events and the same last
  hash have the same event cores throughout, or the cores of two events at one position are
  a hash collision.
\<close>

theorem equal_heads_equal_histories:
  assumes "quote_ok X" and "time_ok X"
    and "verify_hash_chain X b key = Inr ()" and "verify_hash_chain X b' key' = Inr ()"
    and "length (bu_events b) = length (bu_events b')"
    and "last_hash None (bu_events b) = last_hash None (bu_events b')"
    and "\<forall>e \<in> set (bu_events b) \<union> set (bu_events b'). json_ok (ec_payload (ev_core e))"
  shows "map ev_core (bu_events b) = map ev_core (bu_events b')
    \<or> (\<exists>(e, f) \<in> set (zip (bu_events b) (bu_events b')). events_collide X e f)"
  using chains_agree [OF assms(1,2)] assms(3-7) unfolding verify_hash_chain_def by blast

theorem equal_heads_equal_histories_witness:
  "\<exists>e. sign_event demo_externs 0 demo_core (SkEd25519 Ed25519Sha256 demo_key) = Inr e
     \<and> map ev_core (bu_events (demo_bulletin [e])) = map ev_core (bu_events (demo_bulletin [e]))"
proof -
  let ?k = "verifying_key_of demo_externs (SkEd25519 Ed25519Sha256 demo_key)"
  obtain e where e: "sign_event demo_externs 0 demo_core (SkEd25519 Ed25519Sha256 demo_key) = Inr e"
    "ev_core e = demo_core" "event_ok demo_externs ?k 0 None e"
    using demo_event by blast
  then have "verify_hash_chain demo_externs (demo_bulletin [e]) ?k = Inr ()"
    by (simp add: verify_hash_chain_def demo_bulletin_def verify_events_Cons)
  from equal_heads_equal_histories [OF demo_externs_quote demo_time_ok this this] e
  have "map ev_core (bu_events (demo_bulletin [e])) = map ev_core (bu_events (demo_bulletin [e]))"
    by (simp add: demo_bulletin_def demo_core_def events_collide_def collision_def)
  with e show ?thesis by blast
qed

end
