(* ===== verification/Decode.thy ===== *)
theory Decode
  imports CoreDocument
begin

text \<open>
  Reading JSON: what a derived \<open>Deserialize\<close> accepts, for structs with their defaults, denied and
  flattened members, and from these the readers of the types of \<open>crates/oan-core\<close> down from the DID
  Document. At the end the round trip of documents, and what reading makes of any value.
\<close>

section \<open>Derived readers\<close>

fun all_some :: "'a option list \<Rightarrow> 'a list option" where
  "all_some [] = Some []"
| "all_some (m # ms) = Option.bind m (\<lambda>x. map_option ((#) x) (all_some ms))"

text \<open>
  A struct is read from an object, whose other members are ignored, or from an array of its fields.
  A field is given with what stands for it when its member is missing, and what stands for it when
  the array ends before it: an option without a default may be missing in an object only.
\<close>

type_synonym field = "string \<times> json option \<times> json option"

fun seq_fields :: "field list \<Rightarrow> json list \<Rightarrow> json list option" where
  "seq_fields [] [] = Some []"
| "seq_fields [] (v # vs) = None"
| "seq_fields ((k, d, e) # fs) [] = Option.bind e (\<lambda>x. map_option ((#) x) (seq_fields fs []))"
| "seq_fields ((k, d, e) # fs) (v # vs) = map_option ((#) v) (seq_fields fs vs)"

definition field_value :: "(string \<times> json) list \<Rightarrow> field \<Rightarrow> json option" where
  "field_value kvs f = (case f of (k, d, e) \<Rightarrow> (case map_of kvs k of Some x \<Rightarrow> Some x | None \<Rightarrow> d))"

definition struct_fields :: "field list \<Rightarrow> json \<Rightarrow> json list option" where
  "struct_fields fs v =
     (case v of
        JObject kvs \<Rightarrow> all_some (map (field_value kvs) fs)
      | JArray vs \<Rightarrow> seq_fields fs vs
      | _ \<Rightarrow> None)"

text \<open>With \<open>deny_unknown_fields\<close>, other members are an error.\<close>

definition strict_fields :: "field list \<Rightarrow> json \<Rightarrow> json list option" where
  "strict_fields fs v =
     (case v of
        JObject kvs \<Rightarrow> if set (keys kvs) \<subseteq> set (map fst fs) then struct_fields fs v else None
      | _ \<Rightarrow> struct_fields fs v)"

text \<open>With a flattened map, which gets the other members, a struct is read from objects only.\<close>

definition flat_fields :: "field list \<Rightarrow> json \<Rightarrow> (json list \<times> (string \<times> json) list) option" where
  "flat_fields fs v =
     (case v of
        JObject kvs \<Rightarrow> map_option (\<lambda>xs. (xs, filter (\<lambda>kv. fst kv \<notin> set (map fst fs)) kvs))
          (struct_fields fs v)
      | _ \<Rightarrow> None)"

abbreviation required :: "string \<Rightarrow> field" where "required k \<equiv> (k, None, None)"
abbreviation optional :: "string \<Rightarrow> field" where "optional k \<equiv> (k, Some JNull, None)"
abbreviation with_default :: "string \<Rightarrow> json \<Rightarrow> field" where
  "with_default k d \<equiv> (k, Some d, Some d)"

text \<open>Values: strings, arrays, unsigned integers in range, booleans, and options, whose none is \<open>null\<close>.\<close>

definition parse_array :: "(json \<Rightarrow> 'a option) \<Rightarrow> json \<Rightarrow> 'a list option" where
  "parse_array p v = Option.bind (json_as_array v) (\<lambda>vs. all_some (map p vs))"

definition parse_strings :: "json \<Rightarrow> string list option" where
  "parse_strings v = parse_array json_as_str v"

definition parse_uint :: "nat \<Rightarrow> json \<Rightarrow> int option" where
  "parse_uint bits v =
     (case v of JNumber (JInt i) \<Rightarrow> if 0 \<le> i \<and> i < 2 ^ bits then Some i else None | _ \<Rightarrow> None)"

definition parse_word :: "json \<Rightarrow> 'w::len word option" where
  "parse_word v = map_option word_of_int (parse_uint LENGTH('w) v)"

definition json_as_bool :: "json \<Rightarrow> bool option" where
  "json_as_bool v = (case v of JBool b \<Rightarrow> Some b | _ \<Rightarrow> None)"

definition parse_option :: "(json \<Rightarrow> 'a option) \<Rightarrow> json \<Rightarrow> 'a option option" where
  "parse_option p v = (if v = JNull then Some None else map_option Some (p v))"

definition parse_datetime :: "(string \<Rightarrow> datetime option) \<Rightarrow> json \<Rightarrow> datetime option" where
  "parse_datetime parse_time v = Option.bind (json_as_str v) parse_time"

text \<open>A unit variant is read from its name, or from an object with the name and \<open>null\<close>.\<close>

fun parse_variant :: "(string \<Rightarrow> 'a option) \<Rightarrow> json \<Rightarrow> 'a option" where
  "parse_variant of_text (JString s) = of_text s"
| "parse_variant of_text (JObject [(s, JNull)]) = of_text s"
| "parse_variant of_text _ = None"

section \<open>Readers of enums\<close>

definition all_resource_types :: "resource_type list" where
  "all_resource_types = [RAgentInstance, RAgentProduct, RAgentService, RSkill, RMcpServer, RToolApi,
     RInfrastructureNode, ROrganization, RDeveloper, RRootNode, RRegistrarNode, RDiscoveryNode,
     RCdnNode, RVcIssuerNode, RTrustIndexerNode, RUnspecified, RController]"

definition resource_type_of_text :: "string \<Rightarrow> resource_type option" where
  "resource_type_of_text s = List.find (\<lambda>r. resource_type_as_str r = s) all_resource_types"

definition parse_resource_type :: "json \<Rightarrow> resource_type option" where
  "parse_resource_type = parse_variant resource_type_of_text"

definition all_subject_types :: "subject_type list" where
  "all_subject_types = [SAgentInstance, SAgentProduct, SRootNode, SRegistrarNode, SDiscoveryNode,
     SCdnNode, SVcIssuerNode, STrustIndexerNode, SUnspecified, SAgentService, SSkill, SMcpServer,
     SToolApi, SOrganization, SDeveloper, SInfrastructureNode, SController]"

definition subject_type_of_text :: "string \<Rightarrow> subject_type option" where
  "subject_type_of_text s = List.find (\<lambda>t. subject_type_text t = Some s) all_subject_types"

text \<open>The suites are also read from the names of the variants (\<open>alias\<close>).\<close>

definition suite_of_text :: "string \<Rightarrow> crypto_suite option" where
  "suite_of_text s =
     (if s \<in> {''ed25519-sha256-legacy'', ''Ed25519Sha256Legacy''} then Some Ed25519Sha256Legacy
      else if s \<in> {''ed25519-sha256'', ''Ed25519Sha256''} then Some Ed25519Sha256
      else if s \<in> {''sm2-sm3'', ''Sm2Sm3''} then Some Sm2Sm3 else None)"

definition parse_suite :: "json \<Rightarrow> crypto_suite option" where
  "parse_suite = parse_variant suite_of_text"

text \<open>An untagged enum is read as the first variant that fits.\<close>

definition parse_controller :: "json \<Rightarrow> did_controller option" where
  "parse_controller v =
     (case json_as_str v of Some s \<Rightarrow> Some (Did s) | None \<Rightarrow> map_option Dids (parse_strings v))"

definition parse_credential_issuer :: "json \<Rightarrow> credential_issuer option" where
  "parse_credential_issuer v =
     (case json_as_str v of
        Some s \<Rightarrow> Some (IssuerDid s) | None \<Rightarrow> map_option IssuerDids (parse_strings v))"

section \<open>Readers of structs\<close>

definition parse_verification_method :: "json \<Rightarrow> verification_method option" where
  "parse_verification_method v =
     (case struct_fields (map required [''id'', ''type'', ''controller''] @ map optional
             [''cryptoSuite'', ''publicKeyFormat'', ''publicKeyMultibase'', ''publicKeyJwk'']) v of
        Some [i, t, c, s, f, m, j] \<Rightarrow>
          Option.bind (json_as_str i) (\<lambda>i. Option.bind (json_as_str t) (\<lambda>t.
          Option.bind (json_as_str c) (\<lambda>c. Option.bind (parse_option parse_suite s) (\<lambda>s.
          Option.bind (parse_option json_as_str f) (\<lambda>f. Option.bind (parse_option json_as_str m) (\<lambda>m.
          Option.bind (parse_option Some j) (\<lambda>j.
          Some \<lparr>vm_id = i, vm_type = t, vm_controller = c, vm_crypto_suite = s,
                vm_public_key_format = f, vm_public_key_multibase = m, vm_public_key_jwk = j\<rparr>)))))))
      | _ \<Rightarrow> None)"

definition parse_proof ::
  "(string \<Rightarrow> datetime option) \<Rightarrow> json \<Rightarrow> data_integrity_proof option" where
  "parse_proof parse_time v =
     (case struct_fields [optional ''@context'', required ''type'',
             with_default ''creator'' (JString []), required ''created'', required ''proofPurpose'',
             required ''proofValue'', optional ''cryptoSuite'', optional ''hashAlgorithm'',
             optional ''verificationMethod''] v of
        Some [x, t, c, d, p, w, s, h, m] \<Rightarrow>
          Option.bind (parse_option json_as_str x) (\<lambda>x. Option.bind (json_as_str t) (\<lambda>t.
          Option.bind (json_as_str c) (\<lambda>c. Option.bind (parse_datetime parse_time d) (\<lambda>d.
          Option.bind (json_as_str p) (\<lambda>p. Option.bind (json_as_str w) (\<lambda>w.
          Option.bind (parse_option parse_suite s) (\<lambda>s. Option.bind (parse_option json_as_str h) (\<lambda>h.
          Option.bind (parse_option json_as_str m) (\<lambda>m.
          Some \<lparr>pf_context = x, pf_type = t, pf_creator = c, pf_created = d, pf_purpose = p,
                pf_value = w, pf_crypto_suite = s, pf_hash_algorithm = h,
                pf_verification_method = m\<rparr>)))))))))
      | _ \<Rightarrow> None)"

definition parse_service :: "json \<Rightarrow> service_endpoint option" where
  "parse_service v =
     (case struct_fields (map required [''id'', ''type'', ''serviceEndpoint''] @ map optional
             [''version'', ''protocol'', ''serverType'', ''port'']) v of
        Some [i, t, u, w, p, s, n] \<Rightarrow>
          Option.bind (json_as_str i) (\<lambda>i. Option.bind (json_as_str t) (\<lambda>t.
          Option.bind (json_as_str u) (\<lambda>u. Option.bind (parse_option json_as_str w) (\<lambda>w.
          Option.bind (parse_option json_as_str p) (\<lambda>p. Option.bind (parse_option json_as_str s) (\<lambda>s.
          Option.bind (parse_option parse_word n) (\<lambda>n.
          Some \<lparr>se_id = i, se_type = t, se_endpoint = u, se_version = w, se_protocol = p,
                se_server_type = s, se_port = n\<rparr>)))))))
      | _ \<Rightarrow> None)"

definition parse_agent_description :: "json \<Rightarrow> agent_description option" where
  "parse_agent_description v =
     (case struct_fields [required ''capabilityDescription'', with_default ''capabilityTags'' (JArray []),
             with_default ''useCaseExamples'' (JArray [])] v of
        Some [d, t, u] \<Rightarrow>
          Option.bind (json_as_str d) (\<lambda>d. Option.bind (parse_strings t) (\<lambda>t.
          Option.bind (parse_strings u) (\<lambda>u.
          Some \<lparr>ad_capability_description = d, ad_capability_tags = t, ad_use_case_examples = u\<rparr>)))
      | _ \<Rightarrow> None)"

definition parse_resource_description :: "json \<Rightarrow> resource_description option" where
  "parse_resource_description v =
     (case struct_fields ([optional ''name'', optional ''description'',
             optional ''capabilityDescription'', with_default ''capabilityTags'' (JArray []),
             with_default ''useCaseExamples'' (JArray []), optional ''inputSchema'',
             optional ''outputSchema'', with_default ''examples'' (JArray []), optional ''audience'',
             optional ''domain'', optional ''language'', optional ''version'']) v of
        Some [n, d, c, t, u, i, p, e, a, m, l, w] \<Rightarrow>
          Option.bind (parse_option json_as_str n) (\<lambda>n. Option.bind (parse_option json_as_str d) (\<lambda>d.
          Option.bind (parse_option json_as_str c) (\<lambda>c. Option.bind (parse_strings t) (\<lambda>t.
          Option.bind (parse_strings u) (\<lambda>u. Option.bind (parse_option Some i) (\<lambda>i.
          Option.bind (parse_option Some p) (\<lambda>p. Option.bind (json_as_array e) (\<lambda>e.
          Option.bind (parse_option Some a) (\<lambda>a. Option.bind (parse_option Some m) (\<lambda>m.
          Option.bind (parse_option Some l) (\<lambda>l. Option.bind (parse_option json_as_str w) (\<lambda>w.
          Some \<lparr>rd_name = n, rd_description = d, rd_capability_description = c,
                rd_capability_tags = t, rd_use_case_examples = u, rd_input_schema = i,
                rd_output_schema = p, rd_examples = e, rd_audience = a, rd_domain = m,
                rd_language = l, rd_version = w\<rparr>))))))))))))
      | _ \<Rightarrow> None)"

definition binding_fields :: "field list" where
  "binding_fields = map required [''id'', ''protocol''] @ map optional
     [''version'', ''transport'', ''serviceRef'', ''schemaRef'']"

definition parse_protocol_binding :: "json \<Rightarrow> protocol_binding option" where
  "parse_protocol_binding v =
     (case flat_fields binding_fields v of
        Some ([i, p, w, t, r, s], extra) \<Rightarrow>
          Option.bind (json_as_str i) (\<lambda>i. Option.bind (json_as_str p) (\<lambda>p.
          Option.bind (parse_option json_as_str w) (\<lambda>w. Option.bind (parse_option json_as_str t) (\<lambda>t.
          Option.bind (parse_option json_as_str r) (\<lambda>r. Option.bind (parse_option json_as_str s) (\<lambda>s.
          Some \<lparr>pb_id = i, pb_protocol = p, pb_version = w, pb_transport = t, pb_service_ref = r,
                pb_schema_ref = s, pb_extra = extra\<rparr>))))))
      | _ \<Rightarrow> None)"

definition parse_implementation_link :: "json \<Rightarrow> implementation_link option" where
  "parse_implementation_link v =
     (case struct_fields (map required [''relation'', ''targetDid''] @ map optional
             [''targetType'', ''targetService'', ''versionConstraint'']) v of
        Some [r, d, t, s, c] \<Rightarrow>
          Option.bind (json_as_str r) (\<lambda>r. Option.bind (json_as_str d) (\<lambda>d.
          Option.bind (parse_option parse_resource_type t) (\<lambda>t.
          Option.bind (parse_option json_as_str s) (\<lambda>s. Option.bind (parse_option json_as_str c) (\<lambda>c.
          Some \<lparr>il_relation = r, il_target_did = d, il_target_type = t, il_target_service = s,
                il_version_constraint = c\<rparr>)))))
      | _ \<Rightarrow> None)"

definition parse_credential_requirement :: "json \<Rightarrow> credential_requirement option" where
  "parse_credential_requirement v =
     (case strict_fields (map required [''id'', ''purpose'', ''credentialType''] @ map optional
             [''issuer'', ''scope'', ''presentationMode'']
             @ [with_default ''required'' (JBool False)]) v of
        Some [i, p, c, d, s, m, r] \<Rightarrow>
          Option.bind (json_as_str i) (\<lambda>i. Option.bind (json_as_str p) (\<lambda>p.
          Option.bind (json_as_str c) (\<lambda>c. Option.bind (parse_option parse_credential_issuer d) (\<lambda>d.
          Option.bind (parse_option Some s) (\<lambda>s. Option.bind (parse_option json_as_str m) (\<lambda>m.
          Option.bind (json_as_bool r) (\<lambda>r.
          Some \<lparr>cr_id = i, cr_purpose = p, cr_credential_type = c, cr_issuer = d, cr_scope = s,
                cr_presentation_mode = m, cr_required = r\<rparr>)))))))
      | _ \<Rightarrow> None)"

definition parse_package_info :: "(string \<Rightarrow> datetime option) \<Rightarrow> json \<Rightarrow> package_info option" where
  "parse_package_info parse_time v =
     (case strict_fields (map optional [''manifestUrl'', ''downloadUrl'', ''packageHash'',
             ''metadataHash'', ''rootProofRef'', ''version'', ''versionScheme'', ''previousVersion'',
             ''releaseNotesUrl'', ''createdAt'', ''updatedAt'', ''expiresAt'']) v of
        Some [m, d, p, h, r, w, s, o', n, c, u, e] \<Rightarrow>
          Option.bind (parse_option json_as_str m) (\<lambda>m. Option.bind (parse_option json_as_str d) (\<lambda>d.
          Option.bind (parse_option json_as_str p) (\<lambda>p. Option.bind (parse_option json_as_str h) (\<lambda>h.
          Option.bind (parse_option json_as_str r) (\<lambda>r. Option.bind (parse_option json_as_str w) (\<lambda>w.
          Option.bind (parse_option json_as_str s) (\<lambda>s. Option.bind (parse_option json_as_str o') (\<lambda>o'.
          Option.bind (parse_option json_as_str n) (\<lambda>n.
          Option.bind (parse_option (parse_datetime parse_time) c) (\<lambda>c.
          Option.bind (parse_option (parse_datetime parse_time) u) (\<lambda>u.
          Option.bind (parse_option (parse_datetime parse_time) e) (\<lambda>e.
          Some \<lparr>pi_manifest_url = m, pi_download_url = d, pi_package_hash = p, pi_metadata_hash = h,
                pi_root_proof_ref = r, pi_version = w, pi_version_scheme = s,
                pi_previous_version = o', pi_release_notes_url = n, pi_created_at = c,
                pi_updated_at = u, pi_expires_at = e\<rparr>))))))))))))
      | _ \<Rightarrow> None)"

definition parse_external_identifier :: "json \<Rightarrow> external_identifier option" where
  "parse_external_identifier v =
     (case struct_fields [required ''id'', optional ''resolutionServiceEndpoint''] v of
        Some [i, e] \<Rightarrow>
          Option.bind (json_as_str i) (\<lambda>i. Option.bind (parse_option json_as_str e) (\<lambda>e.
          Some \<lparr>ei_id = i, ei_endpoint = e\<rparr>))
      | _ \<Rightarrow> None)"

definition metadata_fields :: "field list" where
  "metadata_fields = [required ''subjectType'', required ''resourceType'',
     with_default ''externalIdentifiers'' (JArray []), optional ''identityType'',
     optional ''controllerDid'', optional ''publisherDid'', optional ''issuerDid'', optional ''ttl'',
     optional ''resourceDescription'', optional ''agentDescription'',
     with_default ''capabilityTags'' (JArray []), with_default ''authorizedDomains'' (JArray []),
     with_default ''protocolBindings'' (JArray []), with_default ''implementationLinks'' (JArray []),
     with_default ''credentialRequirements'' (JArray []), optional ''packageInfo'',
     optional ''servicePolicy'', optional ''networkScope'', optional ''lifecycleState'']"

definition parse_metadata :: "(string \<Rightarrow> datetime option) \<Rightarrow> json \<Rightarrow> oan_metadata option" where
  "parse_metadata parse_time v =
     (case flat_fields metadata_fields v of
        Some ([st, rt, ei, it, cd, pd, ids, t, rd, ad, ct, az, pb, il, cr, pki, sp, ns, ls], extra) \<Rightarrow>
          Option.bind (parse_variant subject_type_of_text st) (\<lambda>st.
          Option.bind (parse_resource_type rt) (\<lambda>rt.
          Option.bind (parse_array parse_external_identifier ei) (\<lambda>ei.
          Option.bind (parse_option json_as_str it) (\<lambda>it. Option.bind (parse_option json_as_str cd) (\<lambda>cd.
          Option.bind (parse_option json_as_str pd) (\<lambda>pd. Option.bind (parse_option json_as_str ids) (\<lambda>ids.
          Option.bind (parse_option parse_word t) (\<lambda>t.
          Option.bind (parse_option parse_resource_description rd) (\<lambda>rd.
          Option.bind (parse_option parse_agent_description ad) (\<lambda>ad.
          Option.bind (parse_strings ct) (\<lambda>ct. Option.bind (parse_strings az) (\<lambda>az.
          Option.bind (parse_array parse_protocol_binding pb) (\<lambda>pb.
          Option.bind (parse_array parse_implementation_link il) (\<lambda>il.
          Option.bind (parse_array parse_credential_requirement cr) (\<lambda>cr.
          Option.bind (parse_option (parse_package_info parse_time) pki) (\<lambda>pki.
          Option.bind (parse_option json_as_str sp) (\<lambda>sp. Option.bind (parse_option json_as_str ns) (\<lambda>ns.
          Option.bind (parse_option json_as_str ls) (\<lambda>ls.
          Some \<lparr>md_subject_type = st, md_resource_type = rt, md_external_identifiers = ei,
                md_identity_type = it, md_controller_did = cd, md_publisher_did = pd,
                md_issuer_did = ids, md_ttl = t, md_resource_description = rd,
                md_agent_description = ad, md_capability_tags = ct, md_authorized_domains = az,
                md_protocol_bindings = pb, md_implementation_links = il,
                md_credential_requirements = cr, md_package_info = pki, md_service_policy = sp,
                md_network_scope = ns, md_lifecycle_state = ls, md_extra = extra\<rparr>)))))))))))))))))))
      | _ \<Rightarrow> None)"

definition parse_did_document :: "(string \<Rightarrow> datetime option) \<Rightarrow> json \<Rightarrow> did_document option" where
  "parse_did_document parse_time v =
     (case struct_fields [required ''@context'', required ''id'', with_default ''controller'' JNull,
             with_default ''verificationMethod'' (JArray []),
             with_default ''authentication'' (JArray []), with_default ''assertionMethod'' (JArray []),
             with_default ''capabilityInvocation'' (JArray []), with_default ''service'' (JArray []),
             optional ''proof'', optional ''oanMetadata''] v of
        Some [x, i, c, vm, au, am, ci, se, p, m] \<Rightarrow>
          Option.bind (parse_strings x) (\<lambda>x. Option.bind (json_as_str i) (\<lambda>i.
          Option.bind (parse_option parse_controller c) (\<lambda>c.
          Option.bind (parse_array parse_verification_method vm) (\<lambda>vm.
          Option.bind (parse_strings au) (\<lambda>au. Option.bind (parse_strings am) (\<lambda>am.
          Option.bind (parse_strings ci) (\<lambda>ci. Option.bind (parse_array parse_service se) (\<lambda>se.
          Option.bind (parse_option (parse_proof parse_time) p) (\<lambda>p.
          Option.bind (parse_option (parse_metadata parse_time) m) (\<lambda>m.
          Some \<lparr>dd_context = x, dd_id = i, dd_controller = c, dd_verification_method = vm,
                dd_authentication = au, dd_assertion_method = am, dd_capability_invocation = ci,
                dd_service = se, dd_proof = p, dd_metadata = m\<rparr>))))))))))
      | _ \<Rightarrow> None)"

section \<open>Reading what was written\<close>

text \<open>
  The readers of values undo the writers, \<open>reads\<close> collects these laws. Options need a value that is
  not written as \<open>null\<close>.
\<close>

named_theorems reads \<open>a reader applied to what its writer writes\<close>

lemma all_some_map:
  "(\<And>x. x \<in> set xs \<Longrightarrow> p (f x) = Some x) \<Longrightarrow> all_some (map p (map f xs)) = Some xs"
  by (induction xs) simp_all

lemma parse_array_inverse:
  "(\<And>x. x \<in> set xs \<Longrightarrow> p (f x) = Some x) \<Longrightarrow> parse_array p (JArray (map f xs)) = Some xs"
  using all_some_map [of xs p f] by (simp add: parse_array_def json_as_array_def del: map_map)

lemma json_as_str_JString [simp, reads]: "json_as_str (JString s) = Some s"
  by (simp add: json_as_str_def)

lemma json_as_bool_JBool [reads]: "json_as_bool (JBool b) = Some b"
  by (simp add: json_as_bool_def)

lemma json_as_array_JArray [reads]: "json_as_array (JArray vs) = Some vs"
  by (simp add: json_as_array_def)

lemma parse_strings_inverse [simp, reads]: "parse_strings (json_strings ss) = Some ss"
  "parse_strings (JArray (map JString ss)) = Some ss" "parse_strings (JArray []) = Some []"
  by (simp_all add: parse_strings_def json_strings_def parse_array_inverse)
    (simp add: parse_array_def json_as_array_def)

lemma parse_word_inverse [reads]: "parse_word (JNumber (JInt (uint w))) = Some w"
  using uint_lt2p [of w] by (simp add: parse_word_def parse_uint_def)

lemma parse_datetime_inverse [reads]:
  "parse_time (time_text X t) = Some t \<Longrightarrow> parse_datetime parse_time (JString (time_text X t)) = Some t"
  by (simp add: parse_datetime_def)

lemma resource_type_of_text_inverse [simp]: "resource_type_of_text (resource_type_as_str r) = Some r"
  by (cases r) (hypsubst, code_simp)+

lemma parse_resource_type_json [simp, reads]: "parse_resource_type (resource_type_json t) = Some t"
  by (simp add: parse_resource_type_def resource_type_json_def)

lemma subject_type_of_text_inverse:
  assumes "subject_type_text t = Some s"
  shows "subject_type_of_text s = Some t"
proof (cases t)
  case SAgent
  with assms show ?thesis by (simp add: subject_type_text_def)
qed (use assms in \<open>simp add: subject_type_text_def, hypsubst, code_simp\<close>)+

lemma parse_suite_json [reads]: "parse_suite (suite_json s) = Some s"
  by (cases s) (simp_all add: parse_suite_def suite_json_def suite_of_text_def)

lemma parse_controller_json [reads]: "parse_controller (controller_json c) = Some c"
  by (cases c) (simp_all add: parse_controller_def controller_json_def, simp add: json_strings_def json_as_str_def)

lemma parse_credential_issuer_json [reads]:
  "parse_credential_issuer (credential_issuer_json i) = Some i"
  by (cases i) (simp_all add: parse_credential_issuer_def credential_issuer_json_def,
      simp add: json_strings_def json_as_str_def)

text \<open>What stands in an object for an optional field.\<close>

definition nullable :: "('a \<Rightarrow> json) \<Rightarrow> 'a option \<Rightarrow> json" where
  "nullable f m = (case m of None \<Rightarrow> JNull | Some x \<Rightarrow> f x)"

lemma parse_option_nullable:
  "(\<And>x. m = Some x \<Longrightarrow> p (f x) = Some x \<and> f x \<noteq> JNull) \<Longrightarrow> parse_option p (nullable f m) = Some m"
  by (cases m) (auto simp: parse_option_def nullable_def)

lemma parse_option_JNull [simp]: "parse_option p JNull = Some None"
  by (simp add: parse_option_def)

lemma json_object_not_null [simp]: "json_object kvs \<noteq> JNull"
  by (simp add: json_object_def)

lemma not_null [simp]: "resource_type_json t \<noteq> JNull" "suite_json s \<noteq> JNull"
    "controller_json c \<noteq> JNull" "credential_issuer_json i \<noteq> JNull"
  by (simp_all add: resource_type_json_def suite_json_def controller_json_def credential_issuer_json_def
      json_strings_def split: did_controller.split credential_issuer.split)

text \<open>The value of a field in an object, from the fields that the writer lists.\<close>

named_theorems field_values \<open>the value of a field among the members of an object\<close>

lemma field_value_simps [field_values]:
  "field_value [] (q, d, e) = d"
  "field_value ((k, v) # rest) (q, d, e) = (if q = k then Some v else field_value rest (q, d, e))"
  "q \<noteq> k \<Longrightarrow> field_value (opt_field k f m @ rest) (q, d, e) = field_value rest (q, d, e)"
  "q \<noteq> k \<Longrightarrow> field_value (null_field k f m @ rest) (q, d, e) = field_value rest (q, d, e)"
  "q \<noteq> k \<Longrightarrow> field_value (list_field k g xs @ rest) (q, d, e) = field_value rest (q, d, e)"
  "q \<noteq> k \<Longrightarrow> field_value ((if b then [] else [(k, v)]) @ rest) (q, d, e) = field_value rest (q, d, e)"
  "q \<noteq> k \<Longrightarrow> field_value (opt_field k f m) (q, d, e) = d"
  "q \<noteq> k \<Longrightarrow> field_value (null_field k f m) (q, d, e) = d"
  "field_value (null_field k f m @ rest) (k, d, e) = Some (nullable f m)"
  "field_value (null_field k f m) (k, d, e) = Some (nullable f m)"
  "field_value (opt_field k f m) (k, Some JNull, e) = Some (nullable f m)"
  by (auto simp: field_value_def opt_field_def null_field_def list_field_def nullable_def
      split: option.splits)

lemma field_value_absent: "q \<notin> fst ` set kvs \<Longrightarrow> field_value kvs (q, d, e) = d"
  by (simp add: field_value_def map_of_eq_None_iff [symmetric])

lemma field_value_default [field_values]:
  assumes "k \<notin> fst ` set rest"
  shows "field_value (opt_field k f m @ rest) (k, Some JNull, e) = Some (nullable f m)"
    and "field_value (list_field k g xs @ rest) (k, Some (JArray []), e) = Some (JArray (map g xs))"
    and "field_value ((if s = [] then [] else [(k, JString s)]) @ rest) (k, Some (JString []), e)
      = Some (JString s)"
  using assms [folded map_of_eq_None_iff]
  by (auto simp: field_value_def opt_field_def list_field_def nullable_def split: option.splits)

lemma keys_of_fields [field_values]:
  "x \<in> fst ` set (opt_field k f m) \<longleftrightarrow> x = k \<and> m \<noteq> None"
  "x \<in> fst ` set (null_field k f m) \<longleftrightarrow> x = k"
  "x \<in> fst ` set (list_field k g xs) \<longleftrightarrow> x = k \<and> xs \<noteq> []"
  "x \<in> fst ` set (if b then [] else [(k, v)]) \<longleftrightarrow> x = k \<and> \<not> b"
  "fst ` set (opt_field k f m) \<inter> A = {} \<longleftrightarrow> m = None \<or> k \<notin> A"
  "fst ` set (null_field k f m) \<inter> A = {} \<longleftrightarrow> k \<notin> A"
  "fst ` set (list_field k g xs) \<inter> A = {} \<longleftrightarrow> xs = [] \<or> k \<notin> A"
  "fst ` set (opt_field k f m) \<subseteq> A \<longleftrightarrow> m = None \<or> k \<in> A"
  "fst ` set (null_field k f m) \<subseteq> A \<longleftrightarrow> k \<in> A"
  "fst ` set (list_field k g xs) \<subseteq> A \<longleftrightarrow> xs = [] \<or> k \<in> A"
  "fst ` set (if b then [] else [(k, v)]) \<inter> A = {} \<longleftrightarrow> b \<or> k \<notin> A"
  "distinct (keys (if b then [] else [(k, v)]))"
  "distinct (keys (opt_field k f m))" "distinct (keys (null_field k f m))"
  "distinct (keys (list_field k g xs))"
  by (cases m; auto simp: opt_field_def null_field_def list_field_def)+

lemma struct_fields_object:
  "distinct (keys kvs) \<Longrightarrow> struct_fields fs (json_object kvs) = all_some (map (field_value kvs) fs)"
  by (simp add: struct_fields_def json_object_def field_value_def [abs_def] map_of_btree_of
      map_of_rev_distinct)

lemma strict_fields_object:
  "fst ` set kvs \<subseteq> fst ` set fs \<Longrightarrow> strict_fields fs (json_object kvs) = struct_fields fs (json_object kvs)"
  by (simp add: strict_fields_def json_object_def)

declare image_Un [field_values]

text \<open>The flattened map: its members come back when none is the name of a field.\<close>

definition extra_ok :: "field list \<Rightarrow> (string \<times> json) list \<Rightarrow> bool" where
  "extra_ok fs extra \<longleftrightarrow>
     sorted_wrt (<) (keys extra) \<and> list_all (\<lambda>k. k \<notin> set (map fst fs)) (keys extra)"

lemma flat_fields_object:
  assumes "distinct (keys known)" and "fst ` set known \<subseteq> fst ` set fs" and "extra_ok fs extra"
  shows "flat_fields fs (json_object (known @ extra))
    = map_option (\<lambda>xs. (xs, extra)) (all_some (map (field_value known) fs))"
proof -
  have sorted: "sorted_wrt (<) (keys extra)" and new: "fst ` set extra \<inter> fst ` set fs = {}"
    using assms(3) by (auto simp: extra_ok_def list_all_iff)
  have distinct: "distinct (keys (known @ extra))"
    using assms(1,2) new strict_sorted_iff [of "keys extra"] sorted by auto
  have m: "map_of (filter (\<lambda>kv. fst kv \<notin> N) xs) x = (if x \<in> N then None else map_of xs x)" for N x
    and xs :: "(string \<times> json) list" by (induction xs) auto
  let ?rest = "filter (\<lambda>kv. fst kv \<notin> set (map fst fs)) (btree_of (known @ extra))"
  have "?rest = extra"
  proof (rule sorted_keys_eqI)
    show "sorted_wrt (<) (keys ?rest)"
      using sorted_btree_of [of "known @ extra"] unfolding sorted_wrt_map by (rule sorted_wrt_filter)
    have "map_of ?rest x = map_of extra x" for x
    proof (cases "x \<in> fst ` set fs")
      case True
      with new have "x \<notin> fst ` set extra" by blast
      then have "map_of extra x = None" by (simp add: map_of_eq_None_iff)
      with True show ?thesis by (simp only: m set_map if_True)
    next
      case False
      with assms(2) have "x \<notin> fst ` set known" by blast
      then have "map_of known x = None" by (simp add: map_of_eq_None_iff)
      with False show ?thesis
        unfolding m map_of_btree_of map_of_rev_distinct [OF distinct] by (simp add: map_add_def)
    qed
    then show "map_of ?rest = map_of extra" by blast
  qed (rule sorted)
  moreover have "map (field_value (known @ extra)) fs = map (field_value known) fs"
  proof (rule map_cong)
    fix q assume "q \<in> set fs"
    with new have "fst q \<notin> fst ` set extra" by blast
    then have "map_of extra (fst q) = None" by (simp add: map_of_eq_None_iff)
    then show "field_value (known @ extra) q = field_value known q"
      by (cases q) (simp add: field_value_def map_add_def split: option.split)
  qed simp
  ultimately show ?thesis
    using struct_fields_object [OF distinct, of fs]
    by (simp only: flat_fields_def json_object_def json.case)
qed

section \<open>Structs\<close>

text \<open>
  What can be read back. An option of a JSON value must not hold \<open>null\<close>, which is read as none, and
  a flattened map must not have the name of a field.
\<close>

definition vm_readable :: "verification_method \<Rightarrow> bool" where
  "vm_readable m \<longleftrightarrow> vm_public_key_jwk m \<noteq> Some JNull"

definition description_readable :: "resource_description \<Rightarrow> bool" where
  "description_readable d \<longleftrightarrow> list_all (\<lambda>m. m \<noteq> Some JNull)
     [rd_input_schema d, rd_output_schema d, rd_audience d, rd_domain d, rd_language d]"

definition requirement_readable :: "credential_requirement \<Rightarrow> bool" where
  "requirement_readable r \<longleftrightarrow> cr_scope r \<noteq> Some JNull"

lemma parse_value_nullable [reads]:
  "m \<noteq> Some JNull \<Longrightarrow> parse_option Some (nullable (\<lambda>j. j) m) = Some m"
  by (rule parse_option_nullable) auto

lemma parse_option_reads [reads]:
  "parse_option json_as_str (nullable JString s) = Some s"
  "parse_option parse_suite (nullable suite_json c) = Some c"
  "parse_option parse_resource_type (nullable resource_type_json t) = Some t"
  "parse_option parse_controller (nullable controller_json cs) = Some cs"
  "parse_option parse_credential_issuer (nullable credential_issuer_json i) = Some i"
  "parse_option parse_word (nullable (\<lambda>w. JNumber (JInt (uint w))) w) = Some w"
  by (simp_all add: parse_option_nullable reads)

lemma parse_option_datetime [reads]:
  "(\<And>t. parse_time (time_text X t) = Some t) \<Longrightarrow>
     parse_option (parse_datetime parse_time) (nullable (\<lambda>t. JString (time_text X t)) d) = Some d"
  by (simp add: parse_option_nullable reads)

lemma parse_verification_method_inverse:
  assumes "vm_readable m"
  shows "parse_verification_method (vm_json m) = Some m"
  using assms unfolding parse_verification_method_def vm_json_def vm_readable_def
  by (subst struct_fields_object) (simp_all add: field_values reads)

lemma parse_proof_inverse:
  assumes "\<And>t. parse_time (time_text X t) = Some t"
  shows "parse_proof parse_time (proof_json X p) = Some p"
  unfolding parse_proof_def proof_json_def
  by (subst struct_fields_object) (simp_all add: field_values reads assms)

lemma parse_service_inverse: "parse_service (service_json s) = Some s"
  unfolding parse_service_def service_json_def
  by (subst struct_fields_object) (simp_all add: field_values reads)

lemma parse_agent_description_inverse:
  "parse_agent_description (agent_description_json d) = Some d"
  unfolding parse_agent_description_def agent_description_json_def
  by (subst struct_fields_object) (simp_all add: field_values reads)

lemma parse_resource_description_inverse:
  assumes "description_readable d"
  shows "parse_resource_description (resource_description_json d) = Some d"
  using assms unfolding parse_resource_description_def resource_description_json_def description_readable_def
  by (subst struct_fields_object) (simp_all add: field_values reads)

lemma parse_implementation_link_inverse:
  "parse_implementation_link (implementation_link_json l) = Some l"
  unfolding parse_implementation_link_def implementation_link_json_def
  by (subst struct_fields_object) (simp_all add: field_values reads)

lemma parse_protocol_binding_inverse:
  assumes "extra_ok binding_fields (pb_extra b)"
  shows "parse_protocol_binding (protocol_binding_json b) = Some b"
  unfolding parse_protocol_binding_def protocol_binding_json_def append_assoc [symmetric]
  by (subst flat_fields_object [OF _ _ assms]) (simp_all add: binding_fields_def field_values reads)

lemma parse_credential_requirement_inverse:
  assumes "requirement_readable r"
  shows "parse_credential_requirement (credential_requirement_json r) = Some r"
  using assms unfolding parse_credential_requirement_def credential_requirement_json_def requirement_readable_def
  by (subst strict_fields_object, simp add: field_values,
      subst struct_fields_object, simp_all add: field_values reads)

lemma parse_package_info_inverse:
  assumes "\<And>t. parse_time (time_text X t) = Some t"
  shows "parse_package_info parse_time (package_info_json X p) = Some p"
  unfolding parse_package_info_def package_info_json_def
  by (subst strict_fields_object, simp add: field_values,
      subst struct_fields_object, simp_all add: field_values reads assms)

lemma parse_external_identifier_inverse:
  "parse_external_identifier (external_identifier_json e) = Some e"
  unfolding parse_external_identifier_def external_identifier_json_def
  by (subst struct_fields_object) (simp_all add: field_values reads)

definition metadata_readable :: "oan_metadata \<Rightarrow> bool" where
  "metadata_readable m \<longleftrightarrow> extra_ok metadata_fields (md_extra m)
     \<and> pred_option description_readable (md_resource_description m)
     \<and> list_all (\<lambda>b. extra_ok binding_fields (pb_extra b)) (md_protocol_bindings m)
     \<and> list_all requirement_readable (md_credential_requirements m)"

definition document_readable :: "did_document \<Rightarrow> bool" where
  "document_readable d \<longleftrightarrow> list_all vm_readable (dd_verification_method d)
     \<and> pred_option metadata_readable (dd_metadata d)"

lemma parts_not_null [simp]: "proof_json X p \<noteq> JNull" "package_info_json X i \<noteq> JNull"
    "agent_description_json a \<noteq> JNull" "resource_description_json r \<noteq> JNull"
  by (simp_all add: proof_json_def package_info_json_def agent_description_json_def
      resource_description_json_def)

lemma parse_metadata_parts:
  assumes "\<And>t. parse_time (time_text X t) = Some t" and "metadata_readable m"
  shows "parse_array parse_external_identifier (JArray (map external_identifier_json (md_external_identifiers m)))
      = Some (md_external_identifiers m)"
    and "parse_option parse_resource_description
        (nullable resource_description_json (md_resource_description m))
      = Some (md_resource_description m)"
    and "parse_option parse_agent_description (nullable agent_description_json (md_agent_description m))
      = Some (md_agent_description m)"
    and "parse_array parse_protocol_binding (JArray (map protocol_binding_json (md_protocol_bindings m)))
      = Some (md_protocol_bindings m)"
    and "parse_array parse_implementation_link
        (JArray (map implementation_link_json (md_implementation_links m))) = Some (md_implementation_links m)"
    and "parse_array parse_credential_requirement
        (JArray (map credential_requirement_json (md_credential_requirements m)))
      = Some (md_credential_requirements m)"
    and "parse_option (parse_package_info parse_time) (nullable (package_info_json X) (md_package_info m))
      = Some (md_package_info m)"
  using assms(2)
  by (auto simp: metadata_readable_def list_all_iff option.pred_set intro!: parse_array_inverse parse_option_nullable
      parse_external_identifier_inverse parse_resource_description_inverse parse_agent_description_inverse
      parse_protocol_binding_inverse parse_implementation_link_inverse
      parse_credential_requirement_inverse parse_package_info_inverse assms(1))

lemma parse_metadata_inverse:
  assumes "\<And>t. parse_time (time_text X t) = Some t" and "metadata_readable m"
    and "metadata_json X m = Some v"
  shows "parse_metadata parse_time v = Some m"
proof -
  have extra: "extra_ok metadata_fields (md_extra m)" using assms(2) by (simp add: metadata_readable_def)
  obtain subject where subject: "subject_type_text (md_subject_type m) = Some subject"
    using assms(3) by (auto simp: metadata_json_def)
  note v = assms(3) [unfolded metadata_json_def subject option.map option.inject, symmetric]
  show ?thesis
    unfolding v parse_metadata_def append_assoc [symmetric]
    by (subst flat_fields_object [OF _ _ extra])
      (simp_all add: metadata_fields_def field_values reads
        subject_type_of_text_inverse [OF subject] parse_metadata_parts [OF assms(1,2)])
qed

lemma parse_did_document_inverse:
  assumes "\<And>t. parse_time (time_text X t) = Some t" and "document_readable d"
    and "did_document_json X d = Some v"
  shows "parse_did_document parse_time v = Some d"
proof -
  obtain metadata where metadata: "(case dd_metadata d of
      None \<Rightarrow> Some None | Some m \<Rightarrow> map_option Some (metadata_json X m)) = Some metadata"
    using assms(3) by (auto simp: did_document_json_def)
  note v = assms(3) [unfolded did_document_json_def metadata option.map option.inject, symmetric]
  have methods: "parse_array parse_verification_method (JArray (map vm_json (dd_verification_method d)))
      = Some (dd_verification_method d)"
    using assms(2) by (intro parse_array_inverse parse_verification_method_inverse)
      (simp add: document_readable_def list_all_iff)
  have services: "parse_array parse_service (JArray (map service_json (dd_service d))) = Some (dd_service d)"
    by (intro parse_array_inverse parse_service_inverse)
  have proof_read: "parse_option (parse_proof parse_time) (nullable (proof_json X) (dd_proof d)) = Some (dd_proof d)"
    by (rule parse_option_nullable) (simp add: parse_proof_inverse assms(1))
  have metadata_read: "parse_option (parse_metadata parse_time) (nullable (\<lambda>j. j) metadata) = Some (dd_metadata d)"
  proof (cases "dd_metadata d")
    case None
    with metadata show ?thesis by (simp add: nullable_def)
  next
    case (Some m)
    then obtain w where w: "metadata_json X m = Some w" "metadata = Some w" using metadata by auto
    moreover have "w \<noteq> JNull" using w(1) by (auto simp: metadata_json_def)
    moreover have "parse_metadata parse_time w = Some m"
      using assms(1,2) w(1) Some by (intro parse_metadata_inverse) (simp_all add: document_readable_def)
    ultimately show ?thesis using Some by (simp add: nullable_def parse_option_def)
  qed
  show ?thesis
    unfolding v parse_did_document_def
    by (subst struct_fields_object)
      (simp_all add: field_values reads methods services proof_read metadata_read)
qed

section \<open>What is read can be written\<close>

lemma parse_option_value: "parse_option Some v = Some m \<Longrightarrow> m \<noteq> Some JNull"
  by (auto simp: parse_option_def split: if_splits)

lemma parse_option_Some: "parse_option p v = Some (Some x) \<Longrightarrow> p v = Some x"
  by (auto simp: parse_option_def split: if_splits)

lemma all_some_eq_Some: "all_some ms = Some xs \<longleftrightarrow> ms = map Some xs"
  by (induction ms arbitrary: xs) (auto simp: bind_eq_Some_conv Cons_eq_map_conv)

lemma parse_array_all:
  assumes "parse_array p v = Some xs" and "json_ok v"
    and "\<And>w x. json_ok w \<Longrightarrow> p w = Some x \<Longrightarrow> P x"
  shows "list_all P xs"
proof -
  obtain vs where vs: "v = JArray vs" "map p vs = map Some xs"
    using assms(1) by (auto simp: parse_array_def json_as_array_def bind_eq_Some_conv all_some_eq_Some
        split: json.splits)
  then have "list_all2 (\<lambda>w x. p w = Some x) vs xs" by (simp add: list_eq_iff_nth_eq list_all2_conv_all_nth)
  moreover have "list_all json_ok vs" using assms(2) vs(1) by simp
  ultimately show ?thesis using assms(3)
    by (auto simp: list_all2_conv_all_nth list_all_length)
qed

text \<open>The values of the fields are members of the object, or defaults, and as well formed as those.\<close>

lemma seq_fields_ok:
  "seq_fields fs vs = Some xs \<Longrightarrow> list_all json_ok vs \<Longrightarrow>
     list_all (\<lambda>f. pred_option json_ok (snd (snd f))) fs \<Longrightarrow> list_all json_ok xs"
  by (induction fs vs arbitrary: xs rule: seq_fields.induct)
    (auto simp: bind_eq_Some_conv)

lemma map_of_ok: "list_all (\<lambda>kv. json_ok (snd kv)) kvs \<Longrightarrow> map_of kvs k = Some v \<Longrightarrow> json_ok v"
  by (auto simp: list_all_iff dest!: map_of_SomeD)

lemma struct_fields_ok:
  assumes "struct_fields fs v = Some xs" and "json_ok v"
    and "list_all (\<lambda>f. pred_option json_ok (fst (snd f)) \<and> pred_option json_ok (snd (snd f))) fs"
  shows "list_all json_ok xs"
proof (cases v)
  case (JArray vs)
  have "list_all (\<lambda>f. pred_option json_ok (snd (snd f))) fs"
    using assms(3) by (rule list.pred_mono_strong) blast
  moreover have "seq_fields fs vs = Some xs" "list_all json_ok vs"
    using assms(1,2) JArray by (simp_all add: struct_fields_def)
  ultimately show ?thesis by (blast intro: seq_fields_ok)
next
  case (JObject kvs)
  with assms(2) have ok: "list_all (\<lambda>kv. json_ok (snd kv)) kvs" by simp
  have "json_ok x" if "f \<in> set fs" "field_value kvs f = Some x" for f x
    using that assms(3) map_of_ok [OF ok]
    by (auto simp: field_value_def list_all_iff split: prod.splits option.splits dest!: bspec)
  moreover have "map (field_value kvs) fs = map Some xs"
    using assms(1) JObject by (simp add: struct_fields_def all_some_eq_Some)
  moreover have "\<exists>f \<in> set fs. field_value kvs f = Some x" if "x \<in> set xs" for x
  proof -
    have "Some x \<in> set (map (field_value kvs) fs)" using that calculation(2) by simp
    then show ?thesis by (metis (no_types, lifting) imageE set_map)
  qed
  ultimately show ?thesis unfolding list_all_iff by blast
qed (use assms(1) in \<open>simp_all add: struct_fields_def\<close>)

lemma flat_fields_ok:
  assumes "flat_fields fs v = Some (xs, extra)" and "json_ok v"
  shows "extra_ok fs extra" and "struct_fields fs v = Some xs"
proof -
  obtain kvs where kvs: "v = JObject kvs" "extra = filter (\<lambda>kv. fst kv \<notin> set (map fst fs)) kvs"
    "struct_fields fs v = Some xs"
    using assms(1) by (auto simp: flat_fields_def split: json.splits)
  have "sorted_wrt (<) (keys extra)"
    using assms(2) unfolding kvs(1,2) json_ok.simps sorted_wrt_map by (blast intro: sorted_wrt_filter)
  then show "extra_ok fs extra" by (auto simp: extra_ok_def kvs(2) list_all_iff)
  show "struct_fields fs v = Some xs" by (rule kvs(3))
qed

lemma parse_verification_method_readable:
  "parse_verification_method v = Some m \<Longrightarrow> vm_readable m"
  by (auto simp: parse_verification_method_def vm_readable_def bind_eq_Some_conv
      dest: parse_option_value split: option.splits list.splits)

lemma parse_resource_description_readable:
  "parse_resource_description v = Some d \<Longrightarrow> description_readable d"
  by (auto simp: parse_resource_description_def description_readable_def bind_eq_Some_conv
      dest: parse_option_value split: option.splits list.splits)

lemma parse_protocol_binding_readable:
  "json_ok v \<Longrightarrow> parse_protocol_binding v = Some b \<Longrightarrow> extra_ok binding_fields (pb_extra b)"
  by (auto simp: parse_protocol_binding_def bind_eq_Some_conv
      dest: flat_fields_ok split: option.splits list.splits prod.splits)

lemma parse_credential_requirement_readable:
  "parse_credential_requirement v = Some r \<Longrightarrow> requirement_readable r"
  by (auto simp: parse_credential_requirement_def requirement_readable_def bind_eq_Some_conv
      dest: parse_option_value split: option.splits list.splits)

lemma metadata_fields_ok:
  "list_all (\<lambda>f. pred_option json_ok (fst (snd f)) \<and> pred_option json_ok (snd (snd f))) metadata_fields"
  by (simp add: metadata_fields_def)

lemma subject_type_of_text_Some: "subject_type_of_text s = Some t \<Longrightarrow> subject_type_text t = Some s"
  by (auto simp: subject_type_of_text_def find_Some_iff)

lemma parse_variant_Some: "parse_variant of_text v = Some t \<Longrightarrow> \<exists>s. of_text s = Some t"
  by (cases "(of_text, v)" rule: parse_variant.cases) auto

lemma parse_subject_type_text:
  "parse_variant subject_type_of_text v = Some t \<Longrightarrow> \<exists>s. subject_type_text t = Some s"
  by (blast dest: parse_variant_Some subject_type_of_text_Some)

lemma parse_metadata_readable:
  assumes "json_ok v" and "parse_metadata parse_time v = Some m"
  shows "metadata_readable m" and "\<exists>s. subject_type_text (md_subject_type m) = Some s"
proof -
  obtain xs extra where fields: "flat_fields metadata_fields v = Some (xs, extra)"
    using assms(2) by (auto simp: parse_metadata_def split: option.splits)
  note extra = flat_fields_ok(1) [OF fields assms(1)]
  note ok = struct_fields_ok [OF flat_fields_ok(2) [OF fields assms(1)] assms(1) metadata_fields_ok]
  have binding: "list_all (\<lambda>b. extra_ok binding_fields (pb_extra b)) bs"
    if "json_ok w" "parse_array parse_protocol_binding w = Some bs" for w bs
    by (rule parse_array_all [OF that(2,1)]) (rule parse_protocol_binding_readable)
  have requirement: "list_all requirement_readable rs"
    if "json_ok w" "parse_array parse_credential_requirement w = Some rs" for w rs
    by (rule parse_array_all [OF that(2,1)]) (rule parse_credential_requirement_readable)
  have description: "pred_option description_readable r"
    if "parse_option parse_resource_description w = Some r" for w r
    using that by (cases r) (auto dest: parse_option_Some parse_resource_description_readable)
  show "metadata_readable m"
    using assms(2) ok unfolding parse_metadata_def fields
    by (auto simp: metadata_readable_def extra bind_eq_Some_conv split: list.splits
        intro: binding requirement description)
  show "\<exists>s. subject_type_text (md_subject_type m) = Some s"
    using assms(2) unfolding parse_metadata_def fields
    by (auto simp: bind_eq_Some_conv split: list.splits intro: parse_subject_type_text)
qed

lemma parse_did_document_readable:
  assumes "json_ok v" and "parse_did_document parse_time v = Some d"
  shows "document_readable d" and "\<exists>w. did_document_json X d = Some w"
proof -
  obtain x i c vm au am ci se p m where
    fields: "struct_fields [required ''@context'', required ''id'', with_default ''controller'' JNull,
             with_default ''verificationMethod'' (JArray []),
             with_default ''authentication'' (JArray []), with_default ''assertionMethod'' (JArray []),
             with_default ''capabilityInvocation'' (JArray []), with_default ''service'' (JArray []),
             optional ''proof'', optional ''oanMetadata''] v = Some [x, i, c, vm, au, am, ci, se, p, m]"
    and methods: "parse_array parse_verification_method vm = Some (dd_verification_method d)"
    and metadata: "parse_option (parse_metadata parse_time) m = Some (dd_metadata d)"
    using assms(2) by (auto simp: parse_did_document_def bind_eq_Some_conv split: option.splits list.splits)
  have ok: "json_ok vm" "json_ok m"
    using struct_fields_ok [OF fields assms(1)] by simp_all
  have "list_all vm_readable (dd_verification_method d)"
    by (rule parse_array_all [OF methods ok(1)]) (rule parse_verification_method_readable)
  moreover have read: "dd_metadata d = Some md \<Longrightarrow> parse_metadata parse_time m = Some md" for md
    using metadata by (auto dest: parse_option_Some)
  ultimately show "document_readable d"
    by (auto simp: document_readable_def option.pred_set dest: parse_metadata_readable(1) [OF ok(2)])
  show "\<exists>w. did_document_json X d = Some w"
    using read parse_metadata_readable(2) [OF ok(2)]
    by (cases "dd_metadata d") (fastforce simp: did_document_json_def metadata_json_def)+
qed

section \<open>The round trip\<close>

text \<open>
  C14. DID Documents survive storage: what is written for a document whose optional values are not null
  and whose flattened members do not shadow fields is read as that document, and every document that
  was read, from whatever value, is of this kind and can be written.
\<close>

theorem did_document_roundtrip:
  assumes "\<forall>t. parse_time (time_text X t) = Some t"
  shows "(document_readable d \<and> did_document_json X d = Some v \<longrightarrow>
            parse_did_document parse_time v = Some d)
    \<and> (json_ok w \<and> parse_did_document parse_time w = Some d \<longrightarrow>
         document_readable d \<and> (\<exists>v. did_document_json X d = Some v))"
  using assms parse_did_document_inverse [of parse_time X d v]
    parse_did_document_readable(1) [of w parse_time d] parse_did_document_readable(2) [of w parse_time d X]
  by blast

text \<open>So the JSON of a document determines it.\<close>

lemma did_document_json_inject:
  assumes "\<And>t. parse_time (time_text X t) = Some t"
    and "document_readable d" "document_readable e"
    and "did_document_json X d = Some v" "did_document_json X e = Some v"
  shows "d = e"
  using parse_did_document_inverse [OF assms(1,2,4)] parse_did_document_inverse [OF assms(1,3,5)] by simp

text \<open>A reader of the times of the concrete externals.\<close>

definition digits_value :: "string \<Rightarrow> nat" where
  "digits_value s = fold (\<lambda>c n. 10 * n + (of_char c - 48)) s 0"

definition demo_parse_time :: "string \<Rightarrow> datetime option" where
  "demo_parse_time s = Some (case s of
     [] \<Rightarrow> 0
   | c # r \<Rightarrow> if c = CHR ''-'' then - int (digits_value r) else int (digits_value s))"

lemma digits_value_nat_text: "digits_value (nat_text n) = n"
  by (induction n rule: nat_text.induct) (subst nat_text.simps, auto simp: digits_value_def)

lemma nat_text_head: "\<exists>c s. nat_text n = c # s \<and> c \<noteq> CHR ''-''"
proof (induction n rule: nat_text.induct)
  case (1 n)
  have "char_of (48 + n) \<noteq> CHR ''-''" if "n < 10"
  proof
    assume "char_of (48 + n) = CHR ''-''"
    then have "of_char (char_of (48 + n) :: char) = (of_char (CHR ''-'') :: nat)" by simp
    with that show False by simp
  qed
  with 1 show ?case by (subst nat_text.simps) auto
qed

lemma demo_parse_time_text: "demo_parse_time (time_text demo_externs t) = Some t"
proof -
  obtain c s where "nat_text (nat t) = c # s" "c \<noteq> CHR ''-''" using nat_text_head by blast
  then show ?thesis
    using digits_value_nat_text [of "nat t"] digits_value_nat_text [of "nat (- t)"]
    by (auto simp: demo_parse_time_def demo_externs_def int_text_def)
qed

lemma demo_document_readable: "document_readable demo_document"
  by (simp add: document_readable_def demo_document_def demo_metadata_def metadata_readable_def
      vm_readable_def extra_ok_def)

theorem did_document_roundtrip_witness:
  "\<exists>v. did_document_json demo_externs demo_document = Some v
     \<and> parse_did_document demo_parse_time v = Some demo_document"
proof -
  obtain v where v: "did_document_json demo_externs demo_document = Some v"
    using did_document_json_None_iff [of demo_externs demo_document]
    by (auto simp: demo_document_def demo_metadata_def)
  then show ?thesis
    using did_document_roundtrip [of demo_parse_time demo_externs demo_document v] demo_parse_time_text
      demo_document_readable by blast
qed

end
