(* ===== verification/BulletinDecode.thy ===== *)
theory BulletinDecode
  imports Bulletin Decode
begin

text \<open>
  Writing and reading whole bulletins (\<open>Bulletin\<close> and \<open>BulletinEvent\<close> of \<open>crates/oan-bulletin\<close>), whose
  events hold the members of their core beside their own (\<open>flatten\<close>). A bulletin is read as it was
  written, so a chain that was extended, stored and read again is accepted.
\<close>

definition event_core_members :: "externs \<Rightarrow> bulletin_event_core \<Rightarrow> (string \<times> json) list" where
  "event_core_members X c =
     [(''sequence'', JNumber (JInt (uint (ec_sequence c))))]
     @ null_field ''previousHash'' JString (ec_previous_hash c)
     @ [(''eventType'', JString (event_type_text (ec_event_type c))),
        (''subjectDid'', JString (ec_subject_did c)), (''actorDid'', JString (ec_actor_did c)),
        (''payload'', ec_payload c), (''createdAt'', JString (time_text X (ec_created_at c)))]"

lemma event_core_json_members: "event_core_json X c = json_object (event_core_members X c)"
  by (simp add: event_core_json_def event_core_members_def null_field_def)

definition bulletin_event_json :: "externs \<Rightarrow> bulletin_event \<Rightarrow> json" where
  "bulletin_event_json X e = json_object
     (event_core_members X (ev_core e)
      @ [(''eventHash'', JString (ev_event_hash e)), (''signature'', JString (ev_signature e))]
      @ opt_field ''proof'' (proof_json X) (ev_proof e)
      @ opt_field ''cryptoSuite'' suite_json (ev_crypto_suite e)
      @ opt_field ''hashAlgorithm'' JString (ev_hash_algorithm e))"

definition bulletin_json :: "externs \<Rightarrow> bulletin \<Rightarrow> json" where
  "bulletin_json X b = json_object
     [(''version'', JString (bu_version b)), (''rootDid'', JString (bu_root_did b)),
      (''createdAt'', JString (time_text X (bu_created_at b))),
      (''events'', JArray (map (bulletin_event_json X) (bu_events b)))]"

section \<open>Readers\<close>

definition event_type_of_text :: "string \<Rightarrow> bulletin_event_type option" where
  "event_type_of_text s = List.find (\<lambda>t. event_type_text t = s)
     [RootInitialized, CdnServiceInfoUpdated, RegistrarAuthorized, RegistrarRevoked,
      DiscoveryNodeAuthorized, DiscoveryNodeDomainsUpdated, DiscoveryNodeRevoked, NodeRevoked,
      CapabilityTagTreeUpdated]"

definition parse_event_core ::
  "(string \<Rightarrow> datetime option) \<Rightarrow> json \<Rightarrow> bulletin_event_core option" where
  "parse_event_core parse_time v =
     (case struct_fields [required ''sequence'', optional ''previousHash'', required ''eventType'',
             required ''subjectDid'', required ''actorDid'', required ''payload'', required ''createdAt''] v of
        Some [n, h, t, s, a, p, c] \<Rightarrow>
          Option.bind (parse_word n) (\<lambda>n. Option.bind (parse_option json_as_str h) (\<lambda>h.
          Option.bind (parse_variant event_type_of_text t) (\<lambda>t.
          Option.bind (json_as_str s) (\<lambda>s. Option.bind (json_as_str a) (\<lambda>a.
          Option.bind (parse_datetime parse_time c) (\<lambda>c.
          Some \<lparr>ec_sequence = n, ec_previous_hash = h, ec_event_type = t, ec_subject_did = s,
                ec_actor_did = a, ec_payload = p, ec_created_at = c\<rparr>))))))
      | _ \<Rightarrow> None)"

text \<open>The members of the core are looked for among all members; an array is not read.\<close>

definition parse_bulletin_event ::
  "(string \<Rightarrow> datetime option) \<Rightarrow> json \<Rightarrow> bulletin_event option" where
  "parse_bulletin_event parse_time v =
     (if \<not> json_is_object v then None
      else case struct_fields (map required [''eventHash'', ''signature'']
                @ map optional [''proof'', ''cryptoSuite'', ''hashAlgorithm'']) v of
        Some [h, s, p, c, a] \<Rightarrow>
          Option.bind (json_as_str h) (\<lambda>h. Option.bind (json_as_str s) (\<lambda>s.
          Option.bind (parse_option (parse_proof parse_time) p) (\<lambda>p.
          Option.bind (parse_option parse_suite c) (\<lambda>c. Option.bind (parse_option json_as_str a) (\<lambda>a.
          Option.bind (parse_event_core parse_time v) (\<lambda>core.
          Some \<lparr>ev_core = core, ev_event_hash = h, ev_signature = s, ev_proof = p,
                ev_crypto_suite = c, ev_hash_algorithm = a\<rparr>))))))
      | _ \<Rightarrow> None)"

definition parse_bulletin :: "(string \<Rightarrow> datetime option) \<Rightarrow> json \<Rightarrow> bulletin option" where
  "parse_bulletin parse_time v =
     (case struct_fields (map required [''version'', ''rootDid'', ''createdAt'', ''events'']) v of
        Some [w, d, c, es] \<Rightarrow>
          Option.bind (json_as_str w) (\<lambda>w. Option.bind (json_as_str d) (\<lambda>d.
          Option.bind (parse_datetime parse_time c) (\<lambda>c.
          Option.bind (parse_array (parse_bulletin_event parse_time) es) (\<lambda>es.
          Some \<lparr>bu_version = w, bu_root_did = d, bu_created_at = c, bu_events = es\<rparr>))))
      | _ \<Rightarrow> None)"

section \<open>Reading what was written\<close>

lemma event_type_of_text_inverse: "event_type_of_text (event_type_text t) = Some t"
  by (cases t) (hypsubst, code_simp)+

lemma event_members_distinct:
  "distinct (keys (event_core_members X (ev_core e)
      @ [(''eventHash'', JString (ev_event_hash e)), (''signature'', JString (ev_signature e))]
      @ opt_field ''proof'' (proof_json X) (ev_proof e)
      @ opt_field ''cryptoSuite'' suite_json (ev_crypto_suite e)
      @ opt_field ''hashAlgorithm'' JString (ev_hash_algorithm e)))"
  by (simp add: event_core_members_def field_values)

lemma parse_bulletin_event_inverse:
  assumes "\<And>t. parse_time (time_text X t) = Some t"
  shows "parse_bulletin_event parse_time (bulletin_event_json X e) = Some e"
proof -
  note fields = struct_fields_object [OF event_members_distinct [of X e], folded bulletin_event_json_def]
  have proof_read: "parse_option (parse_proof parse_time) (nullable (proof_json X) (ev_proof e)) = Some (ev_proof e)"
    by (rule parse_option_nullable) (simp add: parse_proof_inverse assms)
  have "parse_event_core parse_time (bulletin_event_json X e) = Some (ev_core e)"
    unfolding parse_event_core_def fields event_core_members_def
    by (simp add: field_values reads assms event_type_of_text_inverse)
  moreover have "json_is_object (bulletin_event_json X e)"
    by (simp add: bulletin_event_json_def json_object_def json_is_object_def)
  ultimately show ?thesis
    unfolding parse_bulletin_event_def fields
    by (simp add: event_core_members_def field_values reads proof_read)
qed

lemma parse_bulletin_inverse:
  assumes "\<And>t. parse_time (time_text X t) = Some t"
  shows "parse_bulletin parse_time (bulletin_json X b) = Some b"
proof -
  have "parse_array (parse_bulletin_event parse_time) (JArray (map (bulletin_event_json X) (bu_events b)))
      = Some (bu_events b)"
    by (intro parse_array_inverse parse_bulletin_event_inverse assms)
  then show ?thesis
    unfolding parse_bulletin_def bulletin_json_def
    by (subst struct_fields_object) (simp_all add: field_values reads assms)
qed

text \<open>
  C7. The life of a bulletin: an accepted bulletin is extended by a signed event that continues it, written
  and read again, and the bulletin that was read is the extended one and is accepted.
\<close>

theorem stored_bulletin_grows:
  assumes "codecs_ok X" and "schemes_ok X" and "signing_key_ok X sk"
    and "\<forall>t. parse_time (time_text X t) = Some t"
    and "verify_hash_chain X b (verifying_key_of X sk) = Inr ()"
    and "ec_sequence c = of_nat (length (bu_events b)) + 1"
    and "ec_previous_hash c = last_hash None (bu_events b)"
  shows "\<exists>e. sign_event X now c sk = Inr e
    \<and> parse_bulletin parse_time (bulletin_json X (b\<lparr>bu_events := bu_events b @ [e]\<rparr>))
        = Some (b\<lparr>bu_events := bu_events b @ [e]\<rparr>)
    \<and> verify_hash_chain X (b\<lparr>bu_events := bu_events b @ [e]\<rparr>) (verifying_key_of X sk) = Inr ()"
proof -
  obtain e where e: "sign_event X now c sk = Inr e"
    and ok: "event_ok X (verifying_key_of X sk) (length (bu_events b)) (last_hash None (bu_events b)) e"
    using sign_event_ok [OF assms(1-3,6,7)] by blast
  have "verify_hash_chain X (b\<lparr>bu_events := bu_events b @ [e]\<rparr>) (verifying_key_of X sk) = Inr ()"
    using assms(5) ok by (simp add: verify_hash_chain_def previous_hash_snoc)
  moreover have "parse_bulletin parse_time (bulletin_json X (b\<lparr>bu_events := bu_events b @ [e]\<rparr>))
      = Some (b\<lparr>bu_events := bu_events b @ [e]\<rparr>)"
    using assms(4) by (intro parse_bulletin_inverse) blast
  ultimately show ?thesis using e by blast
qed

theorem stored_bulletin_grows_witness:
  "\<exists>e. sign_event demo_externs 0 demo_core (SkEd25519 Ed25519Sha256 demo_key) = Inr e
     \<and> parse_bulletin demo_parse_time (bulletin_json demo_externs (demo_bulletin [e])) = Some (demo_bulletin [e])
     \<and> verify_hash_chain demo_externs (demo_bulletin [e])
         (verifying_key_of demo_externs (SkEd25519 Ed25519Sha256 demo_key)) = Inr ()"
proof -
  have "(demo_bulletin [])\<lparr>bu_events := bu_events (demo_bulletin []) @ [e]\<rparr> = demo_bulletin [e]" for e
    by (simp add: demo_bulletin_def)
  moreover have "signing_key_ok demo_externs (SkEd25519 Ed25519Sha256 demo_key)"
    by (simp add: demo_key_def)
  moreover have "verify_hash_chain demo_externs (demo_bulletin [])
      (verifying_key_of demo_externs (SkEd25519 Ed25519Sha256 demo_key)) = Inr ()"
    by (simp add: verify_hash_chain_def demo_bulletin_def)
  moreover have "ec_sequence demo_core = of_nat (length (bu_events (demo_bulletin []))) + 1"
    "ec_previous_hash demo_core = last_hash None (bu_events (demo_bulletin []))"
    by (simp_all add: demo_core_def demo_bulletin_def)
  ultimately show ?thesis
    using stored_bulletin_grows [OF demo_codecs demo_schemes, of "SkEd25519 Ed25519Sha256 demo_key"
        demo_parse_time "demo_bulletin []" demo_core 0] demo_parse_time_text by simp
qed

end
