(* ===== verification/ProfileDecode.thy ===== *)
theory ProfileDecode
  imports CoreProfile Decode
begin

text \<open>
  The readers of the strict \<open>did:oan\<close> profile of \<open>crates/oan-core\<close>, whose structs all deny unknown
  members, down from the identity. They undo the writers, and the readers of the identity and of its
  public part accept no value in common.
\<close>

section \<open>Readers\<close>

definition parse_oan_jwk :: "json \<Rightarrow> oan_jwk option" where
  "parse_oan_jwk v =
     (case strict_fields (map required [''kty'', ''crv'', ''x''] @ map optional [''d'', ''alg'']) v of
        Some [k, c, x, d, a] \<Rightarrow>
          Option.bind (json_as_str k) (\<lambda>k. Option.bind (json_as_str c) (\<lambda>c.
          Option.bind (json_as_str x) (\<lambda>x. Option.bind (parse_option json_as_str d) (\<lambda>d.
          Option.bind (parse_option json_as_str a) (\<lambda>a.
          Some \<lparr>jwk_kty = k, jwk_crv = c, jwk_x = x, jwk_d = d, jwk_alg = a\<rparr>)))))
      | _ \<Rightarrow> None)"

definition parse_oan_method :: "json \<Rightarrow> oan_verification_method option" where
  "parse_oan_method v =
     (case strict_fields (map required [''id'', ''type'', ''controller'']
             @ map optional [''publicKeyMultibase'', ''publicKeyJwk'']) v of
        Some [i, t, c, m, j] \<Rightarrow>
          Option.bind (json_as_str i) (\<lambda>i. Option.bind (json_as_str t) (\<lambda>t.
          Option.bind (json_as_str c) (\<lambda>c. Option.bind (parse_option json_as_str m) (\<lambda>m.
          Option.bind (parse_option parse_oan_jwk j) (\<lambda>j.
          Some \<lparr>om_id = i, om_type = t, om_controller = c, om_public_key_multibase = m,
                om_public_key_jwk = j\<rparr>)))))
      | _ \<Rightarrow> None)"

text \<open>\<open>OanDataIntegrityProof\<close> and \<open>OanCredentialProof\<close> have the same members.\<close>

definition parse_oan_proof :: "(string \<Rightarrow> datetime option) \<Rightarrow> json \<Rightarrow> oan_proof option" where
  "parse_oan_proof parse_time v =
     (case strict_fields (map required
             [''type'', ''created'', ''proofPurpose'', ''proofValue'', ''verificationMethod'']) v of
        Some [t, c, p, w, m] \<Rightarrow>
          Option.bind (json_as_str t) (\<lambda>t. Option.bind (parse_datetime parse_time c) (\<lambda>c.
          Option.bind (json_as_str p) (\<lambda>p. Option.bind (json_as_str w) (\<lambda>w.
          Option.bind (json_as_str m) (\<lambda>m.
          Some \<lparr>op_type = t, op_created = c, op_purpose = p, op_value = w,
                op_verification_method = m\<rparr>)))))
      | _ \<Rightarrow> None)"

definition parse_oan_credential ::
  "(string \<Rightarrow> datetime option) \<Rightarrow> json \<Rightarrow> oan_verifiable_credential option" where
  "parse_oan_credential parse_time v =
     (case strict_fields (optional ''id'' # map required [''type'', ''@context'', ''issuer'', ''issuanceDate'']
             @ [optional ''expirationDate'', required ''credentialSubject'', optional ''credentialStatus'',
                optional ''credentialSchema'', required ''proof'']) v of
        Some [i, t, x, s, d, e, cs, st, sc, p] \<Rightarrow>
          Option.bind (parse_option json_as_str i) (\<lambda>i. Option.bind (parse_strings t) (\<lambda>t.
          Option.bind (parse_strings x) (\<lambda>x. Option.bind (json_as_str s) (\<lambda>s.
          Option.bind (parse_datetime parse_time d) (\<lambda>d.
          Option.bind (parse_option (parse_datetime parse_time) e) (\<lambda>e.
          Option.bind (parse_option Some st) (\<lambda>st. Option.bind (parse_option Some sc) (\<lambda>sc.
          Option.bind (parse_oan_proof parse_time p) (\<lambda>p.
          Some \<lparr>vc_id = i, vc_type = t, vc_context = x, vc_issuer = s, vc_issuance_date = d,
                vc_expiration_date = e, vc_subject = cs, vc_status = st, vc_schema = sc,
                vc_proof = p\<rparr>)))))))))
      | _ \<Rightarrow> None)"

definition parse_oan_document :: "(string \<Rightarrow> datetime option) \<Rightarrow> json \<Rightarrow> oan_did_document option" where
  "parse_oan_document parse_time v =
     (case strict_fields [required ''@context'', required ''id'', with_default ''controller'' JNull,
             required ''verificationMethod'', required ''authentication'', required ''assertionMethod'',
             with_default ''capability_invocation'' (JArray []), with_default ''service'' (JArray []),
             required ''proof'', with_default ''oanMetadata'' JNull] v of
        Some [x, i, c, vm, au, am, ci, se, p, m] \<Rightarrow>
          Option.bind (parse_strings x) (\<lambda>x. Option.bind (json_as_str i) (\<lambda>i.
          Option.bind (parse_option parse_controller c) (\<lambda>c.
          Option.bind (parse_array parse_oan_method vm) (\<lambda>vm.
          Option.bind (parse_strings au) (\<lambda>au. Option.bind (parse_strings am) (\<lambda>am.
          Option.bind (parse_strings ci) (\<lambda>ci. Option.bind (json_as_array se) (\<lambda>se.
          Option.bind (parse_oan_proof parse_time p) (\<lambda>p. Option.bind (parse_option Some m) (\<lambda>m.
          Some \<lparr>od_context = x, od_id = i, od_controller = c, od_verification_method = vm,
                od_authentication = au, od_assertion_method = am, od_capability_invocation = ci,
                od_service = se, od_proof = p, od_metadata = m\<rparr>))))))))))
      | _ \<Rightarrow> None)"

definition public_identity_fields :: "field list" where
  "public_identity_fields = map required
     [''id'', ''createdAt'', ''did'', ''verificationMethodId'', ''didDocument'', ''publicKeyJwk'']"

definition parse_public_identity ::
  "(string \<Rightarrow> datetime option) \<Rightarrow> json \<Rightarrow> oan_public_identity option" where
  "parse_public_identity parse_time v =
     (case strict_fields public_identity_fields v of
        Some [i, c, d, m, doc, j] \<Rightarrow>
          Option.bind (json_as_str i) (\<lambda>i. Option.bind (json_as_str c) (\<lambda>c.
          Option.bind (json_as_str d) (\<lambda>d. Option.bind (json_as_str m) (\<lambda>m.
          Option.bind (parse_oan_document parse_time doc) (\<lambda>doc. Option.bind (parse_oan_jwk j) (\<lambda>j.
          Some \<lparr>pid_id = i, pid_created_at = c, pid_did = d, pid_verification_method_id = m,
                pid_did_document = doc, pid_public_key_jwk = j\<rparr>))))))
      | _ \<Rightarrow> None)"

definition identity_json :: "externs \<Rightarrow> oan_identity \<Rightarrow> json" where
  "identity_json X i = json_object
     [(''id'', JString (id_id i)), (''createdAt'', JString (id_created_at i)),
      (''did'', JString (id_did i)),
      (''verificationMethodId'', JString (id_verification_method_id i)),
      (''didDocument'', oan_document_json X (id_did_document i)),
      (''publicKeyJwk'', jwk_json (id_public_key_jwk i)),
      (''privateKeyJwk'', jwk_json (id_private_key_jwk i))]"

definition parse_identity :: "(string \<Rightarrow> datetime option) \<Rightarrow> json \<Rightarrow> oan_identity option" where
  "parse_identity parse_time v =
     (case strict_fields (public_identity_fields @ [required ''privateKeyJwk'']) v of
        Some [i, c, d, m, doc, j, k] \<Rightarrow>
          Option.bind (json_as_str i) (\<lambda>i. Option.bind (json_as_str c) (\<lambda>c.
          Option.bind (json_as_str d) (\<lambda>d. Option.bind (json_as_str m) (\<lambda>m.
          Option.bind (parse_oan_document parse_time doc) (\<lambda>doc. Option.bind (parse_oan_jwk j) (\<lambda>j.
          Option.bind (parse_oan_jwk k) (\<lambda>k.
          Some \<lparr>id_id = i, id_created_at = c, id_did = d, id_verification_method_id = m,
                id_did_document = doc, id_public_key_jwk = j, id_private_key_jwk = k\<rparr>)))))))
      | _ \<Rightarrow> None)"

section \<open>Reading what was written\<close>

lemma strict_object:
  assumes "distinct (keys kvs)" and "fst ` set kvs \<subseteq> fst ` set fs"
  shows "strict_fields fs (json_object kvs) = all_some (map (field_value kvs) fs)"
  by (simp add: strict_fields_object [OF assms(2)] struct_fields_object [OF assms(1)])

lemma parse_oan_jwk_inverse: "parse_oan_jwk (jwk_json j) = Some j"
  unfolding parse_oan_jwk_def jwk_json_def
  by (subst strict_object) (simp_all add: field_values reads)

lemma jwk_json_not_null [simp]: "jwk_json j \<noteq> JNull"
  by (simp add: jwk_json_def)

lemma parse_oan_method_inverse: "parse_oan_method (oan_method_json m) = Some m"
proof -
  have "parse_option parse_oan_jwk (nullable jwk_json (om_public_key_jwk m)) = Some (om_public_key_jwk m)"
    by (rule parse_option_nullable) (simp add: parse_oan_jwk_inverse)
  then show ?thesis
    unfolding parse_oan_method_def oan_method_json_def
    by (subst strict_object) (simp_all add: field_values reads)
qed

lemma parse_oan_proof_inverse:
  assumes "\<And>t. parse_time (time_text X t) = Some t"
  shows "parse_oan_proof parse_time (oan_proof_json X p) = Some p"
  unfolding parse_oan_proof_def oan_proof_json_def
  by (subst strict_object) (simp_all add: field_values reads assms)

lemma parse_oan_credential_inverse:
  assumes "\<And>t. parse_time (time_text X t) = Some t"
    and "vc_status c \<noteq> Some JNull" and "vc_schema c \<noteq> Some JNull"
  shows "parse_oan_credential parse_time (oan_credential_json X c) = Some c"
  unfolding parse_oan_credential_def oan_credential_json_def
  by (subst strict_object) (simp_all add: field_values reads assms parse_oan_proof_inverse)

lemma parse_oan_document_inverse:
  assumes "\<And>t. parse_time (time_text X t) = Some t" and "od_metadata d \<noteq> Some JNull"
  shows "parse_oan_document parse_time (oan_document_json X d) = Some d"
proof -
  have "parse_array parse_oan_method (JArray (map oan_method_json (od_verification_method d)))
      = Some (od_verification_method d)"
    by (intro parse_array_inverse parse_oan_method_inverse)
  then show ?thesis
    unfolding parse_oan_document_def oan_document_json_def
    by (subst strict_object) (simp_all add: field_values reads assms parse_oan_proof_inverse)
qed

text \<open>
  The profile's identities survive their file: an identity and its public part are read as they were
  written, and neither reader accepts what the other one writes. A file with a private key is never
  read as a public identity.
\<close>

theorem identity_roundtrip:
  assumes "\<forall>t. parse_time (time_text X t) = Some t" and "od_metadata (id_did_document i) \<noteq> Some JNull"
  shows "parse_identity parse_time (identity_json X i) = Some i
    \<and> parse_public_identity parse_time (public_identity_json X (public_projection i)) = Some (public_projection i)
    \<and> parse_public_identity parse_time (identity_json X i) = None
    \<and> parse_identity parse_time (public_identity_json X (public_projection i)) = None"
proof -
  have times: "\<And>t. parse_time (time_text X t) = Some t" using assms(1) by blast
  note fields = public_identity_fields_def field_values reads
    parse_oan_document_inverse [OF times assms(2)] parse_oan_jwk_inverse
  have "parse_identity parse_time (identity_json X i) = Some i"
    unfolding parse_identity_def identity_json_def
    by (subst strict_object) (simp_all add: fields)
  moreover have "parse_public_identity parse_time (public_identity_json X (public_projection i))
      = Some (public_projection i)"
    unfolding parse_public_identity_def public_identity_json_def public_projection_def
    by (subst strict_object) (simp_all add: fields)
  moreover have "strict_fields public_identity_fields (identity_json X i) = None"
    by (simp add: strict_fields_def identity_json_def json_object_def public_identity_fields_def)
  moreover have "strict_fields (public_identity_fields @ [required ''privateKeyJwk''])
      (public_identity_json X (public_projection i)) = None"
    unfolding public_identity_json_def
    by (subst strict_object) (simp_all add: fields)
  ultimately show ?thesis
    by (simp add: parse_identity_def parse_public_identity_def)
qed

theorem identity_roundtrip_witness:
  "parse_identity demo_parse_time (identity_json demo_externs demo_identity) = Some demo_identity
   \<and> parse_public_identity demo_parse_time (identity_json demo_externs demo_identity) = None"
proof -
  have "od_metadata (id_did_document demo_identity) \<noteq> Some JNull"
    by (simp add: demo_identity_def demo_oan_document_def)
  then show ?thesis
    using identity_roundtrip [of demo_parse_time demo_externs demo_identity] demo_parse_time_text by simp
qed

end
