(* ===== verification/Credentials.thy ===== *)
theory Credentials
  imports Crypto ProfileDecode
begin

text \<open>
  Crate \<open>oan-credentials\<close>: the credentials with their typed subjects, their validators, signing
  and verification, and the identity of a node with its two validators. The serialised form of a
  payload of any type is an argument (\<open>None\<close> when serialisation fails), and so is the parser of
  time stamps. A function that can panic returns an option, \<open>None\<close> for the panic.
\<close>

datatype credential_error =
    CredCrypto crypto_error | CredMissingProof | CredInvalidSignature | CredInvalidType
  | CredInvalidSubject | CredSerialization

definition VC_INFRASTRUCTURE_AUTHORIZATION :: string where
  "VC_INFRASTRUCTURE_AUTHORIZATION = ''OANInfrastructureAuthorizationCredential''"
definition VC_RESOURCE_REGISTRATION :: string where
  "VC_RESOURCE_REGISTRATION = ''OANResourceRegistrationCredential''"
definition VC_BUSINESS_FACT :: string where "VC_BUSINESS_FACT = ''OANBusinessFactCredential''"
definition VC_QUALIFICATION :: string where "VC_QUALIFICATION = ''OANQualificationCredential''"
definition VC_AUDIT_RESULT :: string where "VC_AUDIT_RESULT = ''OANAuditResultCredential''"
definition VC_SELF_CLAIMED_CAPABILITY :: string where
  "VC_SELF_CLAIMED_CAPABILITY = ''OANSelfClaimedCapabilityCredential''"
definition OAN_VC_CONTEXTS :: "string list" where
  "OAN_VC_CONTEXTS = [''https://www.w3.org/2018/credentials/v1'',
     ''https://openagenet.xyz/did-oan-specs/v1'',
     ''https://w3id.org/security/suites/ed25519-2020/v1'']"

section \<open>Credentials and their subjects\<close>

record status_reference =
  sr_id :: string
  sr_type :: string
  sr_credential_id :: "string option"
  sr_subject_did :: "string option"
  sr_issuer_did :: "string option"
  sr_status :: "string option"
  sr_updated_at :: "datetime option"
  sr_extra :: "(string \<times> json) list"

definition status_json :: "externs \<Rightarrow> status_reference \<Rightarrow> json" where
  "status_json X s = json_object
     ([(''id'', JString (sr_id s)), (''type'', JString (sr_type s))]
      @ opt_field ''credentialId'' JString (sr_credential_id s)
      @ opt_field ''subjectDid'' JString (sr_subject_did s)
      @ opt_field ''issuerDid'' JString (sr_issuer_did s)
      @ opt_field ''status'' JString (sr_status s)
      @ opt_field ''updatedAt'' (\<lambda>t. JString (time_text X t)) (sr_updated_at s)
      @ sr_extra s)"

record schema_reference =
  sc_id :: string
  sc_type :: string

definition schema_json :: "schema_reference \<Rightarrow> json" where
  "schema_json s = json_object [(''id'', JString (sc_id s)), (''type'', JString (sc_type s))]"

record 's credential =
  cr_context :: "string list"
  cr_id :: "string option"
  cr_type :: "string list"
  cr_issuer :: string
  cr_issuance_date :: datetime
  cr_expiration_date :: "datetime option"
  cr_subject :: 's
  cr_status :: "status_reference option"
  cr_schema :: "schema_reference option"
  cr_proof :: oan_proof

definition credential_json ::
  "externs \<Rightarrow> ('s \<Rightarrow> json option) \<Rightarrow> 's credential \<Rightarrow> json option" where
  "credential_json X subject_json c = map_option (\<lambda>subject. json_object
     ([(''@context'', json_strings (cr_context c))]
      @ opt_field ''id'' JString (cr_id c)
      @ [(''type'', json_strings (cr_type c)), (''issuer'', JString (cr_issuer c)),
         (''issuanceDate'', JString (time_text X (cr_issuance_date c)))]
      @ opt_field ''expirationDate'' (\<lambda>t. JString (time_text X t)) (cr_expiration_date c)
      @ [(''credentialSubject'', subject)]
      @ opt_field ''credentialStatus'' (status_json X) (cr_status c)
      @ opt_field ''credentialSchema'' schema_json (cr_schema c)
      @ [(''proof'', oan_proof_json X (cr_proof c))])) (subject_json (cr_subject c))"

record infrastructure_subject =
  is_id :: string
  is_role :: string
  is_subject_type :: string
  is_resource_type :: string
  is_endpoint :: "string option"
  is_authorized_domains :: "string list"
  is_did_document_hash :: string

definition infrastructure_subject_json :: "infrastructure_subject \<Rightarrow> json option" where
  "infrastructure_subject_json s = Some (json_object
     ([(''id'', JString (is_id s)), (''role'', JString (is_role s)),
       (''subjectType'', JString (is_subject_type s)), (''resourceType'', JString (is_resource_type s))]
      @ opt_field ''endpoint'' JString (is_endpoint s)
      @ [(''authorizedDomains'', json_strings (is_authorized_domains s)),
         (''didDocumentHash'', JString (is_did_document_hash s))]))"

record registration_subject =
  rs_id :: string
  rs_resource_type :: resource_type
  rs_subject_type :: subject_type
  rs_registrar_did :: string
  rs_did_document_hash :: string
  rs_metadata_hash :: string
  rs_package_hash :: string
  rs_package_version :: string
  rs_hash_algorithm :: string
  rs_authorized_domains :: "string list"
  rs_external_identifiers :: "string list"
  rs_lifecycle_state :: string

definition registration_subject_json :: "registration_subject \<Rightarrow> json option" where
  "registration_subject_json s = map_option (\<lambda>subject_type. json_object
     [(''id'', JString (rs_id s)), (''resourceType'', resource_type_json (rs_resource_type s)),
      (''subjectType'', JString subject_type),
      (''registrarDid'', JString (rs_registrar_did s)),
      (''didDocumentHash'', JString (rs_did_document_hash s)),
      (''metadataHash'', JString (rs_metadata_hash s)), (''packageHash'', JString (rs_package_hash s)),
      (''packageVersion'', JString (rs_package_version s)),
      (''hashAlgorithm'', JString (rs_hash_algorithm s)),
      (''authorizedDomains'', json_strings (rs_authorized_domains s)),
      (''externalIdentifiers'',
        JArray (map (\<lambda>i. json_object [(''id'', JString i)]) (rs_external_identifiers s))),
      (''lifecycleState'', JString (rs_lifecycle_state s))]) (subject_type_text (rs_subject_type s))"

text \<open>The subjects of the other four credentials.\<close>

record business_fact_subject =
  bf_id :: string
  bf_subject_type :: string
  bf_fact_type :: string
  bf_claim :: json

record qualification_subject =
  qs_id :: string
  qs_subject_type :: string
  qs_qualification_type :: string
  qs_qualification :: json

record audit_result_subject =
  as_id :: string
  as_subject_type :: string
  as_audit_type :: string
  as_result :: json
  as_audited_at :: datetime

record self_claimed_subject =
  ss_id :: string
  ss_capability :: string
  ss_claim :: json

datatype governed_role = Root | Registrar | Discovery | VcIssuer

fun governed_resource_type :: "governed_role \<Rightarrow> string" where
  "governed_resource_type Root = ''root_node''"
| "governed_resource_type Registrar = ''registrar_node''"
| "governed_resource_type Discovery = ''discovery_node''"
| "governed_resource_type VcIssuer = ''vc_issuer_node''"

fun governed_role_as_str :: "governed_role \<Rightarrow> string" where
  "governed_role_as_str Root = ''root''"
| "governed_role_as_str Registrar = ''registrar''"
| "governed_role_as_str Discovery = ''discovery''"
| "governed_role_as_str VcIssuer = ''vc_issuer''"

section \<open>Validators\<close>

definition validate_infrastructure_authorization_credential ::
  "infrastructure_subject credential \<Rightarrow> credential_error + unit" where
  "validate_infrastructure_authorization_credential c =
     (if cr_type c \<noteq> [''VerifiableCredential'', VC_INFRASTRUCTURE_AUTHORIZATION]
      then Inl CredInvalidType
      else let s = cr_subject c;
               role_resource_matches = (is_role s, is_resource_type s)
                 \<in> set [(''root'', ''root_node''), (''registrar'', ''registrar_node''),
                        (''discovery'', ''discovery_node''), (''vc_issuer'', ''vc_issuer_node'')]
        in if is_subject_type s \<noteq> ''infrastructure_node'' \<or> \<not> role_resource_matches
           then Inl CredInvalidSubject
           else if is_id s = [] \<or> is_did_document_hash s = [] then Inl CredInvalidSubject
           else Inr ())"

definition validate_resource_registration_credential ::
  "registration_subject credential \<Rightarrow> credential_error + unit" where
  "validate_resource_registration_credential c =
     (if cr_type c \<noteq> [''VerifiableCredential'', VC_RESOURCE_REGISTRATION] then Inl CredInvalidType
      else let s = cr_subject c in
        if rs_id s = [] \<or> rs_registrar_did s = [] \<or> rs_did_document_hash s = []
           \<or> rs_metadata_hash s = [] \<or> rs_package_hash s = [] \<or> rs_package_version s = []
           \<or> rs_hash_algorithm s = []
        then Inl CredInvalidSubject else Inr ())"

definition validate_business_subject :: "business_fact_subject \<Rightarrow> credential_error + unit" where
  "validate_business_subject s =
     (if bf_id s = [] \<or> bf_subject_type s = [] \<or> bf_fact_type s = []
      then Inl CredInvalidSubject else Inr ())"

definition validate_business_fact_credential ::
  "business_fact_subject credential \<Rightarrow> credential_error + unit" where
  "validate_business_fact_credential c =
     (if cr_type c \<noteq> [''VerifiableCredential'', VC_BUSINESS_FACT] then Inl CredInvalidType
      else validate_business_subject (cr_subject c))"

definition validate_qualification_credential ::
  "qualification_subject credential \<Rightarrow> credential_error + unit" where
  "validate_qualification_credential c =
     (if cr_type c \<noteq> [''VerifiableCredential'', VC_QUALIFICATION] then Inl CredInvalidType
      else let s = cr_subject c in
        if qs_id s = [] \<or> qs_subject_type s = [] \<or> qs_qualification_type s = []
        then Inl CredInvalidSubject else Inr ())"

definition validate_audit_result_credential ::
  "audit_result_subject credential \<Rightarrow> credential_error + unit" where
  "validate_audit_result_credential c =
     (if cr_type c \<noteq> [''VerifiableCredential'', VC_AUDIT_RESULT] then Inl CredInvalidType
      else let s = cr_subject c in
        if as_id s = [] \<or> as_subject_type s = [] \<or> as_audit_type s = []
        then Inl CredInvalidSubject else Inr ())"

definition validate_self_claimed_capability_credential ::
  "self_claimed_subject credential \<Rightarrow> credential_error + unit" where
  "validate_self_claimed_capability_credential c =
     (if cr_type c \<noteq> [''VerifiableCredential'', VC_SELF_CLAIMED_CAPABILITY] then Inl CredInvalidType
      else let s = cr_subject c in
        if ss_id s = [] \<or> ss_capability s = [] then Inl CredInvalidSubject else Inr ())"

section \<open>Signing and verification\<close>

definition proof_payload_hash ::
  "externs \<Rightarrow> crypto_suite \<Rightarrow> json option \<Rightarrow> credential_error + string" where
  "proof_payload_hash X suite payload = map_err CredCrypto (hash_json_with_suite X suite payload)"

definition sign_credential ::
  "externs \<Rightarrow> datetime \<Rightarrow> json option \<Rightarrow> string \<Rightarrow> string \<Rightarrow> signing_key
     \<Rightarrow> credential_error + oan_proof" where
  "sign_credential X now payload creator verification_method sk =
     (case sk of
        SkSm2 _ _ \<Rightarrow> Inl CredInvalidSignature
      | SkEd25519 _ key \<Rightarrow>
          rbind (map_err CredCrypto (signature_input X Ed25519Sha256 payload)) (\<lambda>input.
          let signature = ed_sign X key input in
          Inr \<lparr>op_type = ''Ed25519Signature2020'', op_created = now, op_purpose = ''assertionMethod'',
               op_value = CHR ''z'' # b58_encode X signature,
               op_verification_method = verification_method\<rparr>))"

definition sign_credential_data_integrity ::
  "externs \<Rightarrow> (string \<Rightarrow> datetime option) \<Rightarrow> json option \<Rightarrow> string \<Rightarrow> signing_key
     \<Rightarrow> credential_error + oan_proof" where
  "sign_credential_data_integrity X parse_time payload verification_method sk =
     rbind (ok_or payload CredSerialization) (\<lambda>v.
     let v = json_remove ''proof'' v in
     rbind (ok_or (strip_suffix ''#key-1'' verification_method) CredInvalidSignature) (\<lambda>did.
     rbind (map_err CredCrypto (sign_oan_data_integrity X v did (private_key_jwk X sk))) (\<lambda>signed.
     rbind (ok_or (json_get ''proof'' signed) CredMissingProof) (\<lambda>proof.
     ok_or (parse_oan_proof parse_time (json_remove ''@context'' proof)) CredSerialization))))"

definition verify_credential_data_integrity ::
  "externs \<Rightarrow> json option \<Rightarrow> json \<Rightarrow> credential_error + unit" where
  "verify_credential_data_integrity X credential issuer_public_key_jwk =
     rbind (ok_or credential CredSerialization) (\<lambda>v.
     rbind (ok_or (json_get_str ''issuer'' v) CredInvalidSubject) (\<lambda>issuer.
     rbind (ok_or (Option.bind (json_get ''proof'' v) (json_get_str ''verificationMethod''))
              CredInvalidSignature) (\<lambda>verification_method.
     if verification_method \<noteq> key_1 issuer then Inl CredInvalidSignature
     else map_err CredCrypto (verify_oan_data_integrity X v issuer_public_key_jwk))))"

definition verify_signed_payload ::
  "externs \<Rightarrow> json option \<Rightarrow> oan_proof option \<Rightarrow> verifying_key \<Rightarrow> credential_error + unit" where
  "verify_signed_payload X payload proof vk =
     rbind (ok_or proof CredMissingProof) (\<lambda>proof.
     map_err (\<lambda>_. CredInvalidSignature) (verify_oan_payload X payload proof vk))"

definition proof_matches_payload ::
  "externs \<Rightarrow> json option \<Rightarrow> oan_proof option \<Rightarrow> credential_error + string" where
  "proof_matches_payload X payload proof =
     rbind (ok_or proof CredMissingProof) (\<lambda>proof.
     rbind (map_err CredCrypto (signature_input X Ed25519Sha256 payload)) (\<lambda>input.
     map_err CredCrypto (hash_json_with_suite X Ed25519Sha256 (Some (json_object
       [(''payloadInput'', JString input), (''proofValue'', JString (op_value proof))])))))"

definition verify_oan_credential ::
  "externs \<Rightarrow> ('s \<Rightarrow> json option) \<Rightarrow> 's credential \<Rightarrow> verifying_key \<Rightarrow> credential_error + unit" where
  "verify_oan_credential X subject_json c vk =
     (if cr_context c \<noteq> OAN_VC_CONTEXTS then Inl CredInvalidSubject
      else let verification_method = op_verification_method (cr_proof c) in
        if op_type (cr_proof c) \<noteq> ''Ed25519Signature2020'' \<or> op_purpose (cr_proof c) \<noteq> ''assertionMethod''
           \<or> \<not> starts_with verification_method (cr_issuer c @ ''#'')
           \<or> \<not> starts_with (op_value (cr_proof c)) ''z''
        then Inl CredInvalidSignature
        else rbind (ok_or (credential_json X subject_json c) CredSerialization) (\<lambda>unsigned.
          if \<not> json_is_object unsigned then Inl CredInvalidSubject
          else verify_signed_payload X (Some (json_remove ''proof'' unsigned)) (Some (cr_proof c)) vk))"

section \<open>Identities\<close>

record node_identity =
  ni_id :: string
  ni_created_at :: string
  ni_did :: string
  ni_verification_method_id :: string
  ni_did_document :: did_document
  ni_public_key_jwk :: json
  ni_private_key_jwk :: json

definition identity_method :: "node_identity \<Rightarrow> verification_method option" where
  "identity_method i =
     List.find (\<lambda>m. vm_id m = ni_verification_method_id i)
       (dd_verification_method (ni_did_document i))"

definition validate_identity_bindings :: "externs \<Rightarrow> node_identity \<Rightarrow> credential_error + unit" where
  "validate_identity_bindings X i =
     (let d = ni_did_document i; method_id = ni_verification_method_id i;
          controlled_by = (\<lambda>did. case dd_controller d of
            None \<Rightarrow> False | Some c \<Rightarrow> controller_contains c did) in
      if ni_did i \<noteq> dd_id d then Inl CredInvalidSubject
      else if method_id = [] \<or> list_all (\<lambda>m. vm_id m \<noteq> method_id) (dd_verification_method d)
      then Inl CredInvalidSubject
      else rbind (ok_or (identity_method i) CredInvalidSubject) (\<lambda>m.
      if \<not> controlled_by (vm_controller m)
         \<or> \<not> list_ex (\<lambda>v. v = method_id) (dd_authentication d)
         \<or> \<not> list_ex (\<lambda>v. v = method_id) (dd_assertion_method d)
      then Inl CredInvalidSubject
      else if (case dd_metadata d of None \<Rightarrow> False | Some metadata \<Rightarrow>
                 md_subject_type metadata = SController \<and> md_resource_type metadata = RController)
              \<and> \<not> controlled_by (ni_did i)
      then Inl CredInvalidSubject
      else if vm_public_key_jwk m \<noteq> Some (ni_public_key_jwk i) then Inl CredInvalidSubject
      else rbind (map_err (\<lambda>_. CredInvalidSubject)
             (signing_key_from_private_key_jwk X Ed25519Sha256 (ni_private_key_jwk i))) (\<lambda>sk.
      if public_key_jwk X (verifying_key_of X sk) \<noteq> ni_public_key_jwk i then Inl CredInvalidSubject
      else Inr ())))"

definition validate_data_integrity ::
  "externs \<Rightarrow> string + unit \<Rightarrow> bool \<Rightarrow> node_identity \<Rightarrow> credential_error + unit" where
  "validate_data_integrity X spawned panicked i =
     (let d = ni_did_document i in
      rbind (validate_identity_bindings X i) (\<lambda>_.
      rbind (map_err (\<lambda>_. CredInvalidSubject) (validate_mvp d)) (\<lambda>_.
      if is_ok (verify_did_document_proof X spawned panicked d) then Inr ()
      else rbind (ok_or (did_document_json X d) CredSerialization) (\<lambda>v.
      if is_ok (verify_oan_data_integrity X v (ni_public_key_jwk i)) then Inr ()
      else rbind (ok_or (dd_proof d) CredInvalidSignature) (\<lambda>proof.
        if pf_type proof \<noteq> ''Ed25519Signature2020'' \<or> pf_purpose proof \<noteq> ''assertionMethod''
           \<or> pf_verification_method proof \<noteq> Some (ni_verification_method_id i)
           \<or> \<not> starts_with (pf_value proof) ''z''
        then Inl CredInvalidSignature
        else rbind (ok_or (b58_decode X (tl (pf_value proof))) CredInvalidSignature) (\<lambda>signature.
          if length signature \<noteq> 64 then Inl CredInvalidSignature else Inr ()))))))"

text \<open>The other validator unwraps the verification method of the proof: \<open>None\<close> is the panic.\<close>

definition validate_node_identity :: "externs \<Rightarrow> node_identity \<Rightarrow> (credential_error + unit) option" where
  "validate_node_identity X i =
     (let d = ni_did_document i in
      case rbind (validate_identity_bindings X i) (\<lambda>_.
           rbind (map_err (\<lambda>_. CredInvalidSubject) (validate_mvp d)) (\<lambda>_.
           rbind (ok_or (identity_method i) CredInvalidSubject) (\<lambda>m.
           rbind (map_err (\<lambda>_. CredInvalidSubject) (verifying_key_from_method X m)) (\<lambda>vk.
           rbind (ok_or (dd_proof d) CredInvalidSubject) (\<lambda>proof. Inr (vk, proof)))))) of
        Inl e \<Rightarrow> Some (Inl e)
      | Inr (vk, proof) \<Rightarrow>
          (case pf_verification_method proof of
             None \<Rightarrow> None
           | Some verification_method \<Rightarrow>
               Some (map_err (\<lambda>_. CredInvalidSignature)
                 (verify_oan_payload X (did_document_json X (d\<lparr>dd_proof := None\<rparr>))
                    \<lparr>op_type = pf_type proof, op_created = pf_created proof,
                     op_purpose = pf_purpose proof, op_value = pf_value proof,
                     op_verification_method = verification_method\<rparr> vk))))"

section \<open>Properties\<close>

lemma unsigned_credential:
  "map_option (json_remove ''proof'') (credential_json X subject_json (c\<lparr>cr_proof := p\<rparr>))
     = map_option (json_remove ''proof'') (credential_json X subject_json c)"
proof (cases "subject_json (cr_subject c)")
  case (Some subject)
  then show ?thesis
    unfolding credential_json_def
    by (simp, intro json_remove_object) (simp add: opt_field_def split: option.splits)
qed (simp add: credential_json_def)

lemma verify_oan_payload_signed:
  assumes "codecs_ok X" and "schemes_ok X" and "length key = 32"
    and "op_type p = ''Ed25519Signature2020''" and "op_purpose p = ''assertionMethod''"
    and "op_value p = CHR ''z'' # b58_encode X (ed_sign X key (canonical_json_value X v))"
  shows "verify_oan_payload X (Some v) p (VkEd25519 suite (ed_public X key)) = Inr ()"
  using assms by (simp add: verify_oan_payload_def signature_input_Some codecs_simps schemes_ok_def
      starts_with_def)

text \<open>
  C35. Credentials round trip: with an Ed25519 key, the proof that is made over the serialised credential
  without its proof, put into the credential, is accepted under the issuer's public key, provided
  the contexts are the expected ones and the method is one of the issuer's; an SM2 key never signs.
\<close>

theorem signed_credential_verifies:
  assumes "codecs_ok X" and "schemes_ok X" and "length key = 32"
    and "cr_context c = OAN_VC_CONTEXTS" and "starts_with method (cr_issuer c @ ''#'')"
    and "credential_json X subject_json c \<noteq> None"
  shows "(\<exists>p. sign_credential X now
        (map_option (json_remove ''proof'') (credential_json X subject_json c)) creator method
        (SkEd25519 suite key) = Inr p
      \<and> verify_oan_credential X subject_json (c\<lparr>cr_proof := p\<rparr>) (VkEd25519 suite (ed_public X key)) = Inr ())
    \<and> sign_credential X now payload creator method (SkSm2 suite key) = Inl CredInvalidSignature"
proof -
  obtain v where v: "credential_json X subject_json c = Some v" using assms(6) by auto
  define p where "p = \<lparr>op_type = ''Ed25519Signature2020'', op_created = now,
    op_purpose = ''assertionMethod'',
    op_value = CHR ''z'' # b58_encode X (ed_sign X key (canonical_json_value X (json_remove ''proof'' v))),
    op_verification_method = method\<rparr>"
  have signed: "sign_credential X now (map_option (json_remove ''proof'') (credential_json X subject_json c))
      creator method (SkEd25519 suite key) = Inr p"
    by (simp add: sign_credential_def v signature_input_Some p_def)
  obtain w where w: "credential_json X subject_json (c\<lparr>cr_proof := p\<rparr>) = Some w"
    "json_remove ''proof'' w = json_remove ''proof'' v"
    using unsigned_credential [where c = c and p = p and X = X and subject_json = subject_json] v by auto
  have "json_is_object w"
    using w(1) by (auto simp: credential_json_def json_object_def json_is_object_def)
  moreover have "verify_oan_payload X (Some (json_remove ''proof'' v)) p
      (VkEd25519 suite (ed_public X key)) = Inr ()"
    by (rule verify_oan_payload_signed [OF assms(1-3)]) (simp_all add: p_def)
  moreover have "op_type p = ''Ed25519Signature2020''" "op_purpose p = ''assertionMethod''"
    "op_verification_method p = method" "starts_with (op_value p) ''z''"
    by (simp_all add: p_def starts_with_def)
  ultimately have "verify_oan_credential X subject_json (c\<lparr>cr_proof := p\<rparr>)
      (VkEd25519 suite (ed_public X key)) = Inr ()"
    using assms(4,5) w by (simp add: verify_oan_credential_def verify_signed_payload_def)
  with signed show ?thesis by (auto simp: sign_credential_def)
qed

definition demo_credential :: "infrastructure_subject credential" where
  "demo_credential = \<lparr>cr_context = OAN_VC_CONTEXTS, cr_id = None,
     cr_type = [''VerifiableCredential'', VC_INFRASTRUCTURE_AUTHORIZATION], cr_issuer = ''did:oan:r'',
     cr_issuance_date = 0, cr_expiration_date = None,
     cr_subject = \<lparr>is_id = ''did:oan:n'', is_role = ''registrar'', is_subject_type = ''infrastructure_node'',
       is_resource_type = ''registrar_node'', is_endpoint = None, is_authorized_domains = [],
       is_did_document_hash = ''h''\<rparr>,
     cr_status = None, cr_schema = None,
     cr_proof = \<lparr>op_type = [], op_created = 0, op_purpose = [], op_value = [], op_verification_method = []\<rparr>\<rparr>"

theorem signed_credential_verifies_witness:
  "\<exists>p. verify_oan_credential demo_externs infrastructure_subject_json (demo_credential\<lparr>cr_proof := p\<rparr>)
     (VkEd25519 Ed25519Sha256 (ed_public demo_externs demo_key)) = Inr ()"
proof -
  have "length demo_key = 32" by (simp add: demo_key_def)
  moreover have "credential_json demo_externs infrastructure_subject_json demo_credential \<noteq> None"
    by (simp add: credential_json_def infrastructure_subject_json_def)
  moreover have "cr_context demo_credential = OAN_VC_CONTEXTS" by (simp add: demo_credential_def)
  moreover have "starts_with ''did:oan:r#key-1'' (cr_issuer demo_credential @ ''#'')"
    by (simp add: demo_credential_def starts_with_def)
  ultimately show ?thesis
    using signed_credential_verifies [OF demo_codecs demo_schemes, of demo_key demo_credential
        "''did:oan:r#key-1''" infrastructure_subject_json 0 "[]" Ed25519Sha256 None]
    by blast
qed

text \<open>
  Infrastructure authorisations: accepted are exactly the credentials of this type for a subject
  with an id and a document hash, in one of the governed roles with the resource type of that role.
\<close>

theorem infrastructure_authorization_iff:
  "validate_infrastructure_authorization_credential c = Inr () \<longleftrightarrow>
     cr_type c = [''VerifiableCredential'', VC_INFRASTRUCTURE_AUTHORIZATION]
   \<and> is_subject_type (cr_subject c) = ''infrastructure_node''
   \<and> is_id (cr_subject c) \<noteq> [] \<and> is_did_document_hash (cr_subject c) \<noteq> []
   \<and> (\<exists>role. is_role (cr_subject c) = governed_role_as_str role
        \<and> is_resource_type (cr_subject c) = governed_resource_type role)"
proof -
  have roles: "(\<exists>role. P role) \<longleftrightarrow> P Root \<or> P Registrar \<or> P Discovery \<or> P VcIssuer"
    for P :: "governed_role \<Rightarrow> bool"
    by (metis governed_role.exhaust)
  show ?thesis
    unfolding validate_infrastructure_authorization_credential_def Let_def roles by auto
qed

text \<open>
  Identity bindings: an accepted identity names its own document, its method is published for
  authentication and assertion by a controller of the document, and its private key, in either
  validator's reading, belongs to the public key that the method publishes.
\<close>

lemma identity_bindings_sound:
  assumes "validate_identity_bindings X i = Inr ()"
  shows "ni_did i = dd_id (ni_did_document i)
    \<and> (\<exists>m c sk. identity_method i = Some m \<and> dd_controller (ni_did_document i) = Some c
        \<and> controller_contains c (vm_controller m)
        \<and> ni_verification_method_id i \<in> set (dd_authentication (ni_did_document i))
            \<inter> set (dd_assertion_method (ni_did_document i))
        \<and> vm_public_key_jwk m = Some (ni_public_key_jwk i)
        \<and> signing_key_from_private_key_jwk X Ed25519Sha256 (ni_private_key_jwk i) = Inr sk
        \<and> public_key_jwk X (verifying_key_of X sk) = ni_public_key_jwk i)"
  using assms unfolding validate_identity_bindings_def Let_def
  by (auto simp: list_ex_iff split: if_split_asm option.splits)

text \<open>
  The asynchronous validator does not rest on the signature of the document: with valid bindings and
  a well-formed document, a proof of the right shape is accepted whatever the 64 bytes of its
  signature are.
\<close>

theorem identity_acceptance_ignores_signature:
  assumes "codecs_ok X" and "validate_identity_bindings X i = Inr ()"
    and "validate_mvp (ni_did_document i) = Inr ()"
    and "did_document_json X (ni_did_document i) \<noteq> None"
    and "dd_proof (ni_did_document i) = Some p" and "pf_type p = ''Ed25519Signature2020''"
    and "pf_purpose p = ''assertionMethod''"
    and "pf_verification_method p = Some (ni_verification_method_id i)"
    and "pf_value p = CHR ''z'' # b58_encode X signature" and "length signature = 64"
  shows "validate_data_integrity X spawned panicked i = Inr ()"
  using assms by (auto simp: validate_data_integrity_def Let_def starts_with_def codecs_simps)

definition demo_node_identity :: node_identity where
  "demo_node_identity = \<lparr>ni_id = ''i'', ni_created_at = ''0'', ni_did = demo_did,
     ni_verification_method_id = key_1 demo_did,
     ni_did_document = demo_document\<lparr>dd_verification_method := map (\<lambda>m. m\<lparr>vm_public_key_jwk :=
       Some (public_key_jwk demo_externs (VkEd25519 Ed25519Sha256 demo_key))\<rparr>)
       (dd_verification_method demo_document)\<rparr>,
     ni_public_key_jwk = public_key_jwk demo_externs (VkEd25519 Ed25519Sha256 demo_key),
     ni_private_key_jwk = private_key_jwk demo_externs (SkEd25519 Ed25519Sha256 demo_key)\<rparr>"

theorem identity_acceptance_ignores_signature_witness:
  "validate_data_integrity demo_externs (Inr ()) False demo_node_identity = Inr ()"
proof (rule identity_acceptance_ignores_signature)
  show "validate_identity_bindings demo_externs demo_node_identity = Inr ()" by code_simp
  show "validate_mvp (ni_did_document demo_node_identity) = Inr ()" by code_simp
  show "did_document_json demo_externs (ni_did_document demo_node_identity) \<noteq> None" by code_simp
  show "dd_proof (ni_did_document demo_node_identity) = Some demo_proof"
    by (simp add: demo_node_identity_def demo_document_def)
  show "pf_value demo_proof = CHR ''z'' # b58_encode demo_externs (replicate 64 (CHR ''1''))"
    by (simp add: demo_proof_def demo_externs_def)
qed (simp_all add: demo_proof_def demo_node_identity_def)

text \<open>
  The synchronous validator panics exactly on the identities that pass all checks up to the proof
  and whose proof names no verification method.
\<close>

theorem node_identity_panics_iff:
  "validate_node_identity X i = None \<longleftrightarrow>
     validate_identity_bindings X i = Inr () \<and> validate_mvp (ni_did_document i) = Inr ()
   \<and> (\<exists>m vk p. identity_method i = Some m \<and> verifying_key_from_method X m = Inr vk
        \<and> dd_proof (ni_did_document i) = Some p \<and> pf_verification_method p = None)"
  unfolding validate_node_identity_def Let_def
  by (cases "rbind (validate_identity_bindings X i) (\<lambda>_.
           rbind (map_err (\<lambda>_. CredInvalidSubject) (validate_mvp (ni_did_document i))) (\<lambda>_.
           rbind (ok_or (identity_method i) CredInvalidSubject) (\<lambda>m.
           rbind (map_err (\<lambda>_. CredInvalidSubject) (verifying_key_from_method X m)) (\<lambda>vk.
           rbind (ok_or (dd_proof (ni_did_document i)) CredInvalidSubject) (\<lambda>proof. Inr (vk, proof))))))")
    (auto split: option.splits)

end
