(* ===== verification/CredentialDecode.thy ===== *)
theory CredentialDecode
  imports Credentials
begin

text \<open>
  Writing and reading the credentials of \<open>crates/oan-credentials\<close> with each of their six subjects,
  and the identity of a node. A credential is generic in its subject, so the round trip is proved once
  for any subject whose reader undoes its writer.
\<close>

section \<open>Writers of the remaining subjects\<close>

definition business_fact_json :: "business_fact_subject \<Rightarrow> json" where
  "business_fact_json s = json_object
     [(''id'', JString (bf_id s)), (''subjectType'', JString (bf_subject_type s)),
      (''factType'', JString (bf_fact_type s)), (''claim'', bf_claim s)]"

definition qualification_json :: "qualification_subject \<Rightarrow> json" where
  "qualification_json s = json_object
     [(''id'', JString (qs_id s)), (''subjectType'', JString (qs_subject_type s)),
      (''qualificationType'', JString (qs_qualification_type s)), (''qualification'', qs_qualification s)]"

definition audit_result_json :: "externs \<Rightarrow> audit_result_subject \<Rightarrow> json" where
  "audit_result_json X s = json_object
     [(''id'', JString (as_id s)), (''subjectType'', JString (as_subject_type s)),
      (''auditType'', JString (as_audit_type s)), (''result'', as_result s),
      (''auditedAt'', JString (time_text X (as_audited_at s)))]"

definition self_claimed_json :: "self_claimed_subject \<Rightarrow> json" where
  "self_claimed_json s = json_object
     [(''id'', JString (ss_id s)), (''capability'', JString (ss_capability s)), (''claim'', ss_claim s)]"

definition node_identity_json :: "externs \<Rightarrow> node_identity \<Rightarrow> json option" where
  "node_identity_json X i = map_option (\<lambda>d. json_object
     [(''id'', JString (ni_id i)), (''createdAt'', JString (ni_created_at i)),
      (''did'', JString (ni_did i)), (''verificationMethodId'', JString (ni_verification_method_id i)),
      (''didDocument'', d), (''publicKeyJwk'', ni_public_key_jwk i),
      (''privateKeyJwk'', ni_private_key_jwk i)]) (did_document_json X (ni_did_document i))"

section \<open>Readers\<close>

definition status_fields :: "field list" where
  "status_fields = map required [''id'', ''type''] @ map optional
     [''credentialId'', ''subjectDid'', ''issuerDid'', ''status'', ''updatedAt'']"

definition parse_status :: "(string \<Rightarrow> datetime option) \<Rightarrow> json \<Rightarrow> status_reference option" where
  "parse_status parse_time v =
     (case flat_fields status_fields v of
        Some ([i, t, c, s, d, st, u], extra) \<Rightarrow>
          Option.bind (json_as_str i) (\<lambda>i. Option.bind (json_as_str t) (\<lambda>t.
          Option.bind (parse_option json_as_str c) (\<lambda>c. Option.bind (parse_option json_as_str s) (\<lambda>s.
          Option.bind (parse_option json_as_str d) (\<lambda>d. Option.bind (parse_option json_as_str st) (\<lambda>st.
          Option.bind (parse_option (parse_datetime parse_time) u) (\<lambda>u.
          Some \<lparr>sr_id = i, sr_type = t, sr_credential_id = c, sr_subject_did = s, sr_issuer_did = d,
                sr_status = st, sr_updated_at = u, sr_extra = extra\<rparr>)))))))
      | _ \<Rightarrow> None)"

definition parse_schema :: "json \<Rightarrow> schema_reference option" where
  "parse_schema v =
     (case struct_fields (map required [''id'', ''type'']) v of
        Some [i, t] \<Rightarrow>
          Option.bind (json_as_str i) (\<lambda>i. Option.bind (json_as_str t) (\<lambda>t.
          Some \<lparr>sc_id = i, sc_type = t\<rparr>))
      | _ \<Rightarrow> None)"

definition parse_credential ::
  "(string \<Rightarrow> datetime option) \<Rightarrow> (json \<Rightarrow> 's option) \<Rightarrow> json \<Rightarrow> 's credential option" where
  "parse_credential parse_time parse_subject v =
     (case struct_fields [required ''@context'', optional ''id'', required ''type'', required ''issuer'',
             required ''issuanceDate'', optional ''expirationDate'', required ''credentialSubject'',
             optional ''credentialStatus'', optional ''credentialSchema'', required ''proof''] v of
        Some [x, i, t, s, d, e, cs, st, sc, p] \<Rightarrow>
          Option.bind (parse_strings x) (\<lambda>x. Option.bind (parse_option json_as_str i) (\<lambda>i.
          Option.bind (parse_strings t) (\<lambda>t. Option.bind (json_as_str s) (\<lambda>s.
          Option.bind (parse_datetime parse_time d) (\<lambda>d.
          Option.bind (parse_option (parse_datetime parse_time) e) (\<lambda>e.
          Option.bind (parse_subject cs) (\<lambda>cs.
          Option.bind (parse_option (parse_status parse_time) st) (\<lambda>st.
          Option.bind (parse_option parse_schema sc) (\<lambda>sc.
          Option.bind (parse_oan_proof parse_time p) (\<lambda>p.
          Some \<lparr>cr_context = x, cr_id = i, cr_type = t, cr_issuer = s, cr_issuance_date = d,
                cr_expiration_date = e, cr_subject = cs, cr_status = st, cr_schema = sc,
                cr_proof = p\<rparr>))))))))))
      | _ \<Rightarrow> None)"

definition parse_infrastructure_subject :: "json \<Rightarrow> infrastructure_subject option" where
  "parse_infrastructure_subject v =
     (case struct_fields (map required [''id'', ''role'', ''subjectType'', ''resourceType'']
             @ [optional ''endpoint'', with_default ''authorizedDomains'' (JArray []),
                required ''didDocumentHash'']) v of
        Some [i, r, s, t, e, az, h] \<Rightarrow>
          Option.bind (json_as_str i) (\<lambda>i. Option.bind (json_as_str r) (\<lambda>r.
          Option.bind (json_as_str s) (\<lambda>s. Option.bind (json_as_str t) (\<lambda>t.
          Option.bind (parse_option json_as_str e) (\<lambda>e. Option.bind (parse_strings az) (\<lambda>az.
          Option.bind (json_as_str h) (\<lambda>h.
          Some \<lparr>is_id = i, is_role = r, is_subject_type = s, is_resource_type = t, is_endpoint = e,
                is_authorized_domains = az, is_did_document_hash = h\<rparr>)))))))
      | _ \<Rightarrow> None)"

definition parse_external_reference :: "json \<Rightarrow> string option" where
  "parse_external_reference v =
     (case struct_fields [required ''id''] v of Some [i] \<Rightarrow> json_as_str i | _ \<Rightarrow> None)"

definition parse_registration_subject :: "json \<Rightarrow> registration_subject option" where
  "parse_registration_subject v =
     (case struct_fields (map required [''id'', ''resourceType'', ''subjectType'', ''registrarDid'',
             ''didDocumentHash'', ''metadataHash'', ''packageHash'', ''packageVersion'', ''hashAlgorithm'']
             @ [with_default ''authorizedDomains'' (JArray []),
                with_default ''externalIdentifiers'' (JArray []), required ''lifecycleState'']) v of
        Some [i, t, s, r, dh, mh, ph, pv, ha, az, ei, ls] \<Rightarrow>
          Option.bind (json_as_str i) (\<lambda>i. Option.bind (parse_resource_type t) (\<lambda>t.
          Option.bind (parse_variant subject_type_of_text s) (\<lambda>s.
          Option.bind (json_as_str r) (\<lambda>r. Option.bind (json_as_str dh) (\<lambda>dh.
          Option.bind (json_as_str mh) (\<lambda>mh. Option.bind (json_as_str ph) (\<lambda>ph.
          Option.bind (json_as_str pv) (\<lambda>pv. Option.bind (json_as_str ha) (\<lambda>ha.
          Option.bind (parse_strings az) (\<lambda>az.
          Option.bind (parse_array parse_external_reference ei) (\<lambda>ei. Option.bind (json_as_str ls) (\<lambda>ls.
          Some \<lparr>rs_id = i, rs_resource_type = t, rs_subject_type = s, rs_registrar_did = r,
                rs_did_document_hash = dh, rs_metadata_hash = mh, rs_package_hash = ph,
                rs_package_version = pv, rs_hash_algorithm = ha, rs_authorized_domains = az,
                rs_external_identifiers = ei, rs_lifecycle_state = ls\<rparr>))))))))))))
      | _ \<Rightarrow> None)"

definition parse_business_fact :: "json \<Rightarrow> business_fact_subject option" where
  "parse_business_fact v =
     (case struct_fields (map required [''id'', ''subjectType'', ''factType'', ''claim'']) v of
        Some [i, s, t, c] \<Rightarrow>
          Option.bind (json_as_str i) (\<lambda>i. Option.bind (json_as_str s) (\<lambda>s.
          Option.bind (json_as_str t) (\<lambda>t.
          Some \<lparr>bf_id = i, bf_subject_type = s, bf_fact_type = t, bf_claim = c\<rparr>)))
      | _ \<Rightarrow> None)"

definition parse_qualification :: "json \<Rightarrow> qualification_subject option" where
  "parse_qualification v =
     (case struct_fields (map required [''id'', ''subjectType'', ''qualificationType'', ''qualification'']) v of
        Some [i, s, t, c] \<Rightarrow>
          Option.bind (json_as_str i) (\<lambda>i. Option.bind (json_as_str s) (\<lambda>s.
          Option.bind (json_as_str t) (\<lambda>t.
          Some \<lparr>qs_id = i, qs_subject_type = s, qs_qualification_type = t, qs_qualification = c\<rparr>)))
      | _ \<Rightarrow> None)"

definition parse_audit_result ::
  "(string \<Rightarrow> datetime option) \<Rightarrow> json \<Rightarrow> audit_result_subject option" where
  "parse_audit_result parse_time v =
     (case struct_fields (map required [''id'', ''subjectType'', ''auditType'', ''result'', ''auditedAt'']) v of
        Some [i, s, t, r, a] \<Rightarrow>
          Option.bind (json_as_str i) (\<lambda>i. Option.bind (json_as_str s) (\<lambda>s.
          Option.bind (json_as_str t) (\<lambda>t. Option.bind (parse_datetime parse_time a) (\<lambda>a.
          Some \<lparr>as_id = i, as_subject_type = s, as_audit_type = t, as_result = r, as_audited_at = a\<rparr>))))
      | _ \<Rightarrow> None)"

definition parse_self_claimed :: "json \<Rightarrow> self_claimed_subject option" where
  "parse_self_claimed v =
     (case struct_fields (map required [''id'', ''capability'', ''claim'']) v of
        Some [i, c, w] \<Rightarrow>
          Option.bind (json_as_str i) (\<lambda>i. Option.bind (json_as_str c) (\<lambda>c.
          Some \<lparr>ss_id = i, ss_capability = c, ss_claim = w\<rparr>))
      | _ \<Rightarrow> None)"

definition parse_node_identity :: "(string \<Rightarrow> datetime option) \<Rightarrow> json \<Rightarrow> node_identity option" where
  "parse_node_identity parse_time v =
     (case struct_fields (map required [''id'', ''createdAt'', ''did'', ''verificationMethodId'',
             ''didDocument'', ''publicKeyJwk'', ''privateKeyJwk'']) v of
        Some [i, c, d, m, doc, j, k] \<Rightarrow>
          Option.bind (json_as_str i) (\<lambda>i. Option.bind (json_as_str c) (\<lambda>c.
          Option.bind (json_as_str d) (\<lambda>d. Option.bind (json_as_str m) (\<lambda>m.
          Option.bind (parse_did_document parse_time doc) (\<lambda>doc.
          Some \<lparr>ni_id = i, ni_created_at = c, ni_did = d, ni_verification_method_id = m,
                ni_did_document = doc, ni_public_key_jwk = j, ni_private_key_jwk = k\<rparr>)))))
      | _ \<Rightarrow> None)"

section \<open>Reading what was written\<close>

lemma parse_status_inverse:
  assumes "\<And>t. parse_time (time_text X t) = Some t" and "extra_ok status_fields (sr_extra s)"
  shows "parse_status parse_time (status_json X s) = Some s"
  unfolding parse_status_def status_json_def append_assoc [symmetric]
  by (subst flat_fields_object [OF _ _ assms(2)]) (simp_all add: status_fields_def field_values reads assms(1))

lemma parse_schema_inverse: "parse_schema (schema_json s) = Some s"
  unfolding parse_schema_def schema_json_def
  by (subst struct_fields_object) (simp_all add: field_values)

lemma parse_infrastructure_subject_inverse:
  "infrastructure_subject_json s = Some v \<Longrightarrow> parse_infrastructure_subject v = Some s"
  unfolding parse_infrastructure_subject_def infrastructure_subject_json_def option.inject
  by (hypsubst, subst struct_fields_object) (simp_all add: field_values reads)

lemma parse_registration_subject_inverse:
  assumes "registration_subject_json s = Some v"
  shows "parse_registration_subject v = Some s"
proof -
  obtain subject where subject: "subject_type_text (rs_subject_type s) = Some subject"
    using assms by (auto simp: registration_subject_json_def)
  note v = assms [unfolded registration_subject_json_def subject option.map option.inject, symmetric]
  have references: "parse_array parse_external_reference
      (JArray (map (\<lambda>i. json_object [(''id'', JString i)]) (rs_external_identifiers s)))
    = Some (rs_external_identifiers s)"
    by (rule parse_array_inverse)
      (simp add: parse_external_reference_def struct_fields_object field_values)
  show ?thesis
    unfolding v parse_registration_subject_def
    by (subst struct_fields_object)
      (simp_all add: field_values reads references subject_type_of_text_inverse [OF subject])
qed

lemma parse_other_subjects_inverse:
  "parse_business_fact (business_fact_json b) = Some b"
  "parse_qualification (qualification_json q) = Some q"
  "(\<And>t. parse_time (time_text X t) = Some t) \<Longrightarrow> parse_audit_result parse_time (audit_result_json X a) = Some a"
  "parse_self_claimed (self_claimed_json s) = Some s"
  unfolding parse_business_fact_def business_fact_json_def parse_qualification_def qualification_json_def
    parse_audit_result_def audit_result_json_def parse_self_claimed_def self_claimed_json_def
  by (subst struct_fields_object; simp add: field_values reads)+

lemma parse_node_identity_inverse:
  assumes "\<And>t. parse_time (time_text X t) = Some t" and "document_readable (ni_did_document i)"
    and "node_identity_json X i = Some v"
  shows "parse_node_identity parse_time v = Some i"
proof -
  obtain d where d: "did_document_json X (ni_did_document i) = Some d"
    using assms(3) by (auto simp: node_identity_json_def)
  note v = assms(3) [unfolded node_identity_json_def d option.map option.inject, symmetric]
  show ?thesis
    unfolding v parse_node_identity_def
    by (subst struct_fields_object)
      (simp_all add: field_values reads parse_did_document_inverse [OF assms(1,2) d])
qed

text \<open>
  Credentials survive their JSON with every subject whose reader undoes its writer, as those of the
  six kinds do: a credential is read as it was written, so its proof verifies where it did before.
\<close>

theorem credential_roundtrip:
  assumes "\<forall>t. parse_time (time_text X t) = Some t"
    and "pred_option (\<lambda>s. extra_ok status_fields (sr_extra s)) (cr_status c)"
    and "\<forall>w. subject_json (cr_subject c) = Some w \<longrightarrow> parse_subject w = Some (cr_subject c)"
    and "credential_json X subject_json c = Some v"
  shows "parse_credential parse_time parse_subject v = Some c"
proof -
  have times: "\<And>t. parse_time (time_text X t) = Some t" using assms(1) by blast
  obtain subject where subject: "subject_json (cr_subject c) = Some subject"
    using assms(4) by (auto simp: credential_json_def)
  note v = assms(4) [unfolded credential_json_def subject option.map option.inject, symmetric]
  have status: "parse_option (parse_status parse_time) (nullable (status_json X) (cr_status c)) = Some (cr_status c)"
    using assms(2) by (intro parse_option_nullable) (simp add: parse_status_inverse times, simp add: status_json_def)
  have schema: "parse_option parse_schema (nullable schema_json (cr_schema c)) = Some (cr_schema c)"
    by (intro parse_option_nullable) (simp add: parse_schema_inverse, simp add: schema_json_def)
  show ?thesis
    unfolding v parse_credential_def
    by (subst struct_fields_object)
      (simp_all add: field_values reads times status schema parse_oan_proof_inverse assms(3) subject)
qed

theorem credential_roundtrip_witness:
  "\<exists>v. credential_json demo_externs infrastructure_subject_json demo_credential = Some v
     \<and> parse_credential demo_parse_time parse_infrastructure_subject v = Some demo_credential"
proof -
  obtain v where v: "credential_json demo_externs infrastructure_subject_json demo_credential = Some v"
    by (simp add: credential_json_def infrastructure_subject_json_def)
  have "pred_option (\<lambda>s. extra_ok status_fields (sr_extra s)) (cr_status demo_credential)"
    by (simp add: demo_credential_def)
  moreover have "\<forall>w. infrastructure_subject_json (cr_subject demo_credential) = Some w \<longrightarrow>
      parse_infrastructure_subject w = Some (cr_subject demo_credential)"
    using parse_infrastructure_subject_inverse by blast
  ultimately have "parse_credential demo_parse_time parse_infrastructure_subject v = Some demo_credential"
    using v demo_parse_time_text by (intro credential_roundtrip) simp_all
  with v show ?thesis by blast
qed

end
