(* ===== verification/Publication.thy ===== *)
theory Publication
  imports Prelude
begin

text \<open>The publication event of \<open>crates/oan-publication-events\<close>: construction and validation.\<close>

definition CDN_PUBLISH_REQUESTED_EVENT_TYPE :: string where
  "CDN_PUBLISH_REQUESTED_EVENT_TYPE = ''cdn_publish_requested''"

definition CDN_PUBLISH_EVENT_SCHEMA_VERSION :: string where
  "CDN_PUBLISH_EVENT_SCHEMA_VERSION = ''1''"

text \<open>\<open>i64\<close> is a 64-bit word read as a signed number; a time stamp is its nanosecond count.\<close>

record cdn_publish_requested_event =
  ce_event_type :: string
  ce_schema_version :: string
  ce_job_key :: string
  ce_resource_did :: string
  ce_package_version :: string
  ce_publication_cursor :: "64 word"
  ce_root_did :: string
  ce_package_hash :: string
  ce_did_document_hash :: string
  ce_metadata_hash :: string
  ce_created_at :: int

record cdn_publish_requested_event_input =
  ci_job_key :: string
  ci_resource_did :: string
  ci_package_version :: string
  ci_publication_cursor :: "64 word"
  ci_root_did :: string
  ci_package_hash :: string
  ci_did_document_hash :: string
  ci_metadata_hash :: string
  ci_created_at :: int

definition new_event :: "cdn_publish_requested_event_input \<Rightarrow> cdn_publish_requested_event" where
  "new_event input =
     \<lparr>ce_event_type = CDN_PUBLISH_REQUESTED_EVENT_TYPE,
      ce_schema_version = CDN_PUBLISH_EVENT_SCHEMA_VERSION,
      ce_job_key = ci_job_key input, ce_resource_did = ci_resource_did input,
      ce_package_version = ci_package_version input,
      ce_publication_cursor = ci_publication_cursor input, ce_root_did = ci_root_did input,
      ce_package_hash = ci_package_hash input,
      ce_did_document_hash = ci_did_document_hash input,
      ce_metadata_hash = ci_metadata_hash input, ce_created_at = ci_created_at input\<rparr>"

definition validate_event :: "cdn_publish_requested_event \<Rightarrow> string + unit" where
  "validate_event e =
     (if ce_event_type e \<noteq> CDN_PUBLISH_REQUESTED_EVENT_TYPE
      then Inl ''unsupported_cdn_publish_event_type''
      else if ce_schema_version e \<noteq> CDN_PUBLISH_EVENT_SCHEMA_VERSION
      then Inl ''unsupported_cdn_publish_event_schema''
      else if is_blank (ce_job_key e) then Inl ''empty_job_key''
      else if is_blank (ce_resource_did e) then Inl ''empty_resource_did''
      else if is_blank (ce_package_version e) then Inl ''empty_package_version''
      else if sint (ce_publication_cursor e) \<le> 0 then Inl ''invalid_publication_cursor''
      else if is_blank (ce_root_did e) then Inl ''empty_root_did''
      else if is_blank (ce_package_hash e) then Inl ''empty_package_hash''
      else if is_blank (ce_did_document_hash e) then Inl ''empty_did_document_hash''
      else if is_blank (ce_metadata_hash e) then Inl ''empty_metadata_hash''
      else Inr ())"

text \<open>The input fields, each with the error its blank value is reported as.\<close>

definition event_fields :: "cdn_publish_requested_event_input \<Rightarrow> (string \<times> string) list" where
  "event_fields i =
     [(ci_job_key i, ''empty_job_key''), (ci_resource_did i, ''empty_resource_did''),
      (ci_package_version i, ''empty_package_version''), (ci_root_did i, ''empty_root_did''),
      (ci_package_hash i, ''empty_package_hash''),
      (ci_did_document_hash i, ''empty_did_document_hash''),
      (ci_metadata_hash i, ''empty_metadata_hash'')]"

lemma validate_new_event_iff:
  "validate_event (new_event i) = Inr () \<longleftrightarrow>
     0 < sint (ci_publication_cursor i) \<and> list_all (\<lambda>f. \<not> is_blank (fst f)) (event_fields i)"
  by (simp add: validate_event_def new_event_def event_fields_def not_le)

text \<open>
  An event built by the constructor passes validation exactly when its cursor is positive
  as a signed number and no field is blank, and is otherwise rejected for one of these reasons.
\<close>

theorem built_event_validation:
  "(validate_event (new_event i) = Inr () \<longleftrightarrow>
      0 < sint (ci_publication_cursor i) \<and> list_all (\<lambda>f. \<not> is_blank (fst f)) (event_fields i))
   \<and> validate_event (new_event i) \<in> {Inr (), Inl ''invalid_publication_cursor''}
        \<union> Inl ` snd ` {f. f \<in> set (event_fields i) \<and> is_blank (fst f)}"
proof
  show "validate_event (new_event i) = Inr () \<longleftrightarrow>
      0 < sint (ci_publication_cursor i) \<and> list_all (\<lambda>f. \<not> is_blank (fst f)) (event_fields i)"
    by (rule validate_new_event_iff)
  show "validate_event (new_event i) \<in> {Inr (), Inl ''invalid_publication_cursor''}
        \<union> Inl ` snd ` {f. f \<in> set (event_fields i) \<and> is_blank (fst f)}"
    unfolding validate_event_def new_event_def event_fields_def
    by (simp add: image_iff)
qed

end
