(* ===== verification/Protocol.thy ===== *)
theory Protocol
  imports Crypto
begin

text \<open>
  The protocol crate \<open>crates/oan-protocol\<close>: the signed request envelope, the challenges and
  proof bundles of the registration flow with the values that are signed, the submission of
  a resource with its shape check, and the routing check of a registrar.
\<close>

definition OAN_RESOURCE_PROTOCOL_VERSION :: string where
  "OAN_RESOURCE_PROTOCOL_VERSION = ''oan-resource-2026''"

definition PURPOSE_RESOURCE_REGISTRATION :: string where
  "PURPOSE_RESOURCE_REGISTRATION = ''resource-registration''"

definition PURPOSE_CONTROLLER_AUTHORIZATION_REGISTRATION :: string where
  "PURPOSE_CONTROLLER_AUTHORIZATION_REGISTRATION =
     ''resource-registration-controller-authorization''"

definition PURPOSE_REGISTRATION_CREDENTIAL_QUERY :: string where
  "PURPOSE_REGISTRATION_CREDENTIAL_QUERY = ''registration-credential-query''"

definition PROTOCOL_REGISTRATION_CREDENTIAL_QUERY_V1 :: string where
  "PROTOCOL_REGISTRATION_CREDENTIAL_QUERY_V1 = ''oan-registration-credential-query-v1''"

text \<open>The slice \<open>suffix_code()[..5]\<close> of a parsed identifier, whose suffix has 32 bytes.\<close>

definition validate_resource_routing_code :: "string \<Rightarrow> string \<Rightarrow> string + unit" where
  "validate_resource_routing_code resource_did registrar_did =
     rbind (map_err display_error (parse resource_did)) (\<lambda>resource.
     rbind (map_err display_error (parse registrar_did)) (\<lambda>registrar.
     if did_routing_code resource \<noteq> take 5 (did_suffix_code registrar)
     then Inl ''resource_routing_code_mismatch''
     else Inr ()))"

section \<open>Messages\<close>

record signed_request_envelope =
  sr_request_id :: string
  sr_protocol_version :: string
  sr_purpose :: string
  sr_method :: string
  sr_path :: string
  sr_aud :: string
  sr_request_timestamp :: datetime
  sr_request_nonce :: string
  sr_body_hash :: string
  sr_proof :: data_integrity_proof

record did_control_challenge =
  dc_challenge_id :: string
  dc_draft_id :: string
  dc_subject_did :: string
  dc_did_document_hash :: string
  dc_registrar_did :: string
  dc_purpose :: string
  dc_verification_method :: string
  dc_nonce :: string
  dc_issued_at :: datetime
  dc_expires_at :: datetime

record subject_control_proof_bundle =
  sb_challenge :: did_control_challenge
  sb_proof :: data_integrity_proof
  sb_verified_at :: "datetime option"
  sb_verified_verification_method :: "string option"
  sb_proof_hash :: "string option"

record controller_authorization_challenge =
  cc_challenge_id :: string
  cc_resource_did :: string
  cc_controller_did :: string
  cc_publisher_did :: "string option"
  cc_did_document_hash :: string
  cc_metadata_hash :: string
  cc_registrar_did :: string
  cc_purpose :: string
  cc_verification_method :: string
  cc_nonce :: string
  cc_issued_at :: datetime
  cc_expires_at :: datetime

record controller_authorization_proof_bundle =
  cb_challenge :: controller_authorization_challenge
  cb_controller_did_document :: did_document
  cb_proof :: data_integrity_proof

record registration_credential_query_challenge =
  qc_method :: string
  qc_path :: string
  qc_resource_did :: string
  qc_controller_did :: string
  qc_verification_method :: string
  qc_purpose :: string
  qc_request_timestamp :: datetime
  qc_request_nonce :: string
  qc_aud :: string
  qc_protocol_version :: string
  qc_body_hash :: "string option"

record registration_credential_query_request =
  qr_challenge :: registration_credential_query_challenge
  qr_controller_did_document :: did_document
  qr_proof :: data_integrity_proof

record resource_registration_submission =
  sub_resource_did :: string
  sub_resource_type :: resource_type
  sub_did_document :: did_document
  sub_did_document_hash :: string
  sub_metadata :: json
  sub_package_version :: string
  sub_package_hash :: string
  sub_metadata_hash :: string
  sub_hash_algorithm :: string
  sub_registration_credential :: json
  sub_subject_control_proof :: subject_control_proof_bundle
  sub_controller_authorization_proof :: "controller_authorization_proof_bundle option"

definition did_control_challenge_json :: "externs \<Rightarrow> did_control_challenge \<Rightarrow> json" where
  "did_control_challenge_json X c = json_object
     [(''challengeId'', JString (dc_challenge_id c)), (''draftId'', JString (dc_draft_id c)),
      (''subjectDid'', JString (dc_subject_did c)),
      (''didDocumentHash'', JString (dc_did_document_hash c)),
      (''registrarDid'', JString (dc_registrar_did c)), (''purpose'', JString (dc_purpose c)),
      (''verificationMethod'', JString (dc_verification_method c)),
      (''nonce'', JString (dc_nonce c)),
      (''issuedAt'', JString (time_text X (dc_issued_at c))),
      (''expiresAt'', JString (time_text X (dc_expires_at c)))]"

definition controller_challenge_json :: "externs \<Rightarrow> controller_authorization_challenge \<Rightarrow> json" where
  "controller_challenge_json X c = json_object
     ([(''challengeId'', JString (cc_challenge_id c)),
       (''resourceDid'', JString (cc_resource_did c)),
       (''controllerDid'', JString (cc_controller_did c))]
      @ opt_field ''publisherDid'' JString (cc_publisher_did c)
      @ [(''didDocumentHash'', JString (cc_did_document_hash c)),
         (''metadataHash'', JString (cc_metadata_hash c)),
         (''registrarDid'', JString (cc_registrar_did c)), (''purpose'', JString (cc_purpose c)),
         (''verificationMethod'', JString (cc_verification_method c)),
         (''nonce'', JString (cc_nonce c)),
         (''issuedAt'', JString (time_text X (cc_issued_at c))),
         (''expiresAt'', JString (time_text X (cc_expires_at c)))])"

definition query_challenge_json :: "externs \<Rightarrow> registration_credential_query_challenge \<Rightarrow> json" where
  "query_challenge_json X c = json_object
     ([(''method'', JString (qc_method c)), (''path'', JString (qc_path c)),
       (''resourceDid'', JString (qc_resource_did c)),
       (''controllerDid'', JString (qc_controller_did c)),
       (''verificationMethod'', JString (qc_verification_method c)),
       (''purpose'', JString (qc_purpose c)),
       (''requestTimestamp'', JString (time_text X (qc_request_timestamp c))),
       (''requestNonce'', JString (qc_request_nonce c)), (''aud'', JString (qc_aud c)),
       (''protocolVersion'', JString (qc_protocol_version c))]
      @ opt_field ''bodyHash'' JString (qc_body_hash c))"

section \<open>The shape of a submission\<close>

definition validate_hash_reference :: "string \<Rightarrow> string \<Rightarrow> string \<Rightarrow> string + unit" where
  "validate_hash_reference field_name v algorithm =
     (if is_blank v then Inl (''empty_'' @ field_name)
      else if CHR '':'' \<in> set v \<and> \<not> starts_with v (algorithm @ '':'')
      then Inl (field_name @ ''_algorithm_mismatch'')
      else Inr ())"

definition check_controller_bundle ::
  "resource_registration_submission \<Rightarrow> controller_authorization_proof_bundle \<Rightarrow> string + unit" where
  "check_controller_bundle s bundle =
     (let c = cb_challenge bundle in
      if cc_resource_did c \<noteq> sub_resource_did s
      then Inl ''controller_authorization_resource_did_mismatch''
      else if cc_did_document_hash c \<noteq> sub_did_document_hash s
      then Inl ''controller_authorization_did_document_hash_mismatch''
      else if cc_metadata_hash c \<noteq> sub_metadata_hash s
      then Inl ''controller_authorization_metadata_hash_mismatch''
      else if cc_purpose c \<noteq> PURPOSE_CONTROLLER_AUTHORIZATION_REGISTRATION
      then Inl ''controller_authorization_purpose_mismatch''
      else if dd_id (cb_controller_did_document bundle) \<noteq> cc_controller_did c
      then Inl ''controller_authorization_did_document_id_mismatch''
      else Inr ())"

definition validate_shape :: "externs \<Rightarrow> resource_registration_submission \<Rightarrow> string + unit" where
  "validate_shape X s =
     rbind (map_err display_error (parse (sub_resource_did s))) (\<lambda>_.
     if dd_id (sub_did_document s) \<noteq> sub_resource_did s then Inl ''did_document_id_mismatch''
     else rbind (map_err document_error_text (validate_oan_resource X (sub_did_document s))) (\<lambda>_.
     if (case dd_metadata (sub_did_document s) of
           None \<Rightarrow> True | Some m \<Rightarrow> md_resource_type m \<noteq> sub_resource_type s)
     then Inl ''resource_type_mismatch''
     else if is_blank (sub_package_version s) then Inl ''empty_package_version''
     else if is_blank (sub_hash_algorithm s) then Inl ''empty_hash_algorithm''
     else
     rbind (validate_hash_reference ''did_document_hash'' (sub_did_document_hash s)
              (sub_hash_algorithm s)) (\<lambda>_.
     rbind (validate_hash_reference ''metadata_hash'' (sub_metadata_hash s) (sub_hash_algorithm s)) (\<lambda>_.
     rbind (validate_hash_reference ''package_hash'' (sub_package_hash s) (sub_hash_algorithm s)) (\<lambda>_.
     let challenge = sb_challenge (sub_subject_control_proof s) in
     if dc_subject_did challenge \<noteq> sub_resource_did s then Inl ''challenge_subject_did_mismatch''
     else if dc_did_document_hash challenge \<noteq> sub_did_document_hash s
     then Inl ''challenge_did_document_hash_mismatch''
     else if dc_purpose challenge \<noteq> PURPOSE_RESOURCE_REGISTRATION
     then Inl ''challenge_purpose_mismatch''
     else case sub_controller_authorization_proof s of
       None \<Rightarrow> Inr ()
     | Some bundle \<Rightarrow> check_controller_bundle s bundle)))))"

section \<open>Lemmas\<close>

lemma routing_code_Inr_iff:
  "validate_resource_routing_code a b = Inr u \<longleftrightarrow>
     (\<exists>ra sa rb sb. a = DID_PREFIX @ ra @ '':'' @ sa \<and> b = DID_PREFIX @ rb @ '':'' @ sb
        \<and> (\<exists>d. parse a = Inr d) \<and> (\<exists>d. parse b = Inr d)
        \<and> length ra = 5 \<and> length rb = 5 \<and> ra = take 5 sb)" (is "?l = ?r")
proof
  assume ?l
  then obtain d e where p: "parse a = Inr d" "parse b = Inr e"
    and t: "did_routing_code d = take 5 (did_suffix_code e)"
    by (auto simp: validate_resource_routing_code_def split: if_splits)
  obtain ra sa where a: "a = DID_PREFIX @ ra @ '':'' @ sa" "length ra = 5" "did_routing_code d = ra"
    using parse_InrD [OF p(1)] by auto
  obtain rb sb where b: "b = DID_PREFIX @ rb @ '':'' @ sb" "length rb = 5" "did_suffix_code e = sb"
    using parse_InrD [OF p(2)] by auto
  from a b p t show ?r by blast
next
  assume ?r
  then obtain ra sa rb sb d e where *: "a = DID_PREFIX @ ra @ '':'' @ sa"
    "b = DID_PREFIX @ rb @ '':'' @ sb" "parse a = Inr d" "parse b = Inr e"
    "length ra = 5" "length rb = 5" "ra = take 5 sb" by blast
  from parse_InrD [OF *(3)] *(1,5) have "did_routing_code d = ra" by auto
  moreover from parse_InrD [OF *(4)] *(2,6) have "did_suffix_code e = sb" by auto
  ultimately show ?l using * by (simp add: validate_resource_routing_code_def)
qed

text \<open>A hash reference carries no algorithm prefix, or the stated one.\<close>

definition hash_reference_ok :: "string \<Rightarrow> string \<Rightarrow> bool" where
  "hash_reference_ok algorithm v \<longleftrightarrow>
     \<not> is_blank v \<and> (CHR '':'' \<notin> set v \<or> (\<exists>h. v = algorithm @ CHR '':'' # h))"

lemma validate_hash_reference_iff:
  "validate_hash_reference f v a = Inr u \<longleftrightarrow> hash_reference_ok a v"
  by (auto simp: validate_hash_reference_def hash_reference_ok_def starts_with_iff)

definition controller_bundle_ok ::
  "resource_registration_submission \<Rightarrow> controller_authorization_proof_bundle \<Rightarrow> bool" where
  "controller_bundle_ok s b \<longleftrightarrow>
     cc_resource_did (cb_challenge b) = sub_resource_did s
     \<and> cc_did_document_hash (cb_challenge b) = sub_did_document_hash s
     \<and> cc_metadata_hash (cb_challenge b) = sub_metadata_hash s
     \<and> cc_purpose (cb_challenge b) = PURPOSE_CONTROLLER_AUTHORIZATION_REGISTRATION
     \<and> cc_controller_did (cb_challenge b) = dd_id (cb_controller_did_document b)"

lemma check_controller_bundle_iff:
  "check_controller_bundle s b = Inr u \<longleftrightarrow> controller_bundle_ok s b"
  by (auto simp: check_controller_bundle_def controller_bundle_ok_def Let_def)

lemma validate_shape_InrD:
  assumes "validate_shape X s = Inr u"
  shows "(\<exists>c m p. resource_document_ok X (sub_did_document s) c m p
        \<and> md_resource_type m = sub_resource_type s)
     \<and> dd_id (sub_did_document s) = sub_resource_did s
     \<and> \<not> is_blank (sub_package_version s) \<and> \<not> is_blank (sub_hash_algorithm s)
     \<and> list_all (hash_reference_ok (sub_hash_algorithm s))
          [sub_did_document_hash s, sub_metadata_hash s, sub_package_hash s]
     \<and> dc_subject_did (sb_challenge (sub_subject_control_proof s)) = sub_resource_did s
     \<and> dc_did_document_hash (sb_challenge (sub_subject_control_proof s)) = sub_did_document_hash s
     \<and> dc_purpose (sb_challenge (sub_subject_control_proof s)) = PURPOSE_RESOURCE_REGISTRATION
     \<and> pred_option (controller_bundle_ok s) (sub_controller_authorization_proof s)"
proof -
  from assms have v: "validate_oan_resource X (sub_did_document s) = Inr ()"
    by (auto simp: validate_shape_def split: if_splits)
  then obtain c m p where ok: "resource_document_ok X (sub_did_document s) c m p"
    by (auto simp: oan_resource_iff)
  then have m: "dd_metadata (sub_did_document s) = Some m" by (simp add: resource_document_ok_def)
  have "md_resource_type m = sub_resource_type s"
    using assms m by (auto simp: validate_shape_def split: if_splits)
  moreover have "pred_option (controller_bundle_ok s) (sub_controller_authorization_proof s)"
    using assms
    by (auto simp: validate_shape_def Let_def check_controller_bundle_iff
        split: if_splits option.splits)
  moreover have "dd_id (sub_did_document s) = sub_resource_did s
     \<and> \<not> is_blank (sub_package_version s) \<and> \<not> is_blank (sub_hash_algorithm s)
     \<and> list_all (hash_reference_ok (sub_hash_algorithm s))
          [sub_did_document_hash s, sub_metadata_hash s, sub_package_hash s]
     \<and> dc_subject_did (sb_challenge (sub_subject_control_proof s)) = sub_resource_did s
     \<and> dc_did_document_hash (sb_challenge (sub_subject_control_proof s)) = sub_did_document_hash s
     \<and> dc_purpose (sb_challenge (sub_subject_control_proof s)) = PURPOSE_RESOURCE_REGISTRATION"
    using assms
    by (auto simp: validate_shape_def Let_def validate_hash_reference_iff split: if_splits)
  ultimately show ?thesis using ok by blast
qed

section \<open>Properties\<close>

text \<open>
  Resources are routed to their registrar: an identifier derived under the first five
  characters of a registrar's suffix is admitted for this registrar, and an identifier is
  admitted only when it carries these characters as routing code.
\<close>

theorem derived_resources_are_routed:
  assumes "parse registrar = Inr r"
  shows "(derive fuel sha (take 5 (did_suffix_code r)) material nonce = Some (Inr d)
            \<longrightarrow> validate_resource_routing_code (as_str d) registrar = Inr ())
     \<and> (validate_resource_routing_code resource registrar = Inr ()
            \<longrightarrow> (\<exists>d. parse resource = Inr d \<and> did_routing_code d = take 5 (did_suffix_code r)))"
proof (intro conjI impI)
  assume "derive fuel sha (take 5 (did_suffix_code r)) material nonce = Some (Inr d)"
  then have "parse (as_str d) = Inr d \<and> did_routing_code d = take 5 (did_suffix_code r)"
    by (rule derive_InrD)
  with assms show "validate_resource_routing_code (as_str d) registrar = Inr ()"
    by (simp add: validate_resource_routing_code_def)
next
  assume "validate_resource_routing_code resource registrar = Inr ()"
  with assms show "\<exists>d. parse resource = Inr d \<and> did_routing_code d = take 5 (did_suffix_code r)"
    by (auto simp: validate_resource_routing_code_def split: if_splits)
qed

theorem derived_resources_are_routed_witness:
  "validate_resource_routing_code ''did:oan:7YpQm:77777777777777777777777777777777'' demo_did = Inr ()"
proof -
  let ?r = "\<lparr>did_value = demo_did, did_routing_code = ''K7mQ9'',
            did_suffix_code = ''7YpQm9Kx2VnRb6Ts3WfHa4Cd5Ej8LgNz''\<rparr>"
  let ?d = "\<lparr>did_value = ''did:oan:7YpQm:77777777777777777777777777777777'', did_routing_code = ''7YpQm'',
            did_suffix_code = replicate 32 (CHR ''7'')\<rparr>"
  have r: "parse demo_did = Inr ?r" by code_simp
  have "derive 1 (\<lambda>_. replicate 32 6) (take 5 (did_suffix_code ?r)) [1] [2] = Some (Inr ?d)"
    by code_simp
  with conjunct1 [OF derived_resources_are_routed [OF r, of 1 "\<lambda>_. replicate 32 6" "[1]" "[2]" ?d]]
  show ?thesis by (simp add: as_str_def)
qed

text \<open>
  A submission of valid shape is consistent: its DID Document is a valid resource
  document for the submitted DID and type, its hashes name the submitted algorithm, the
  subject challenge is for this DID, document hash and purpose, and so is the controller
  authorisation when there is one, made by the controller whose document it carries.
\<close>

theorem valid_shape_is_consistent:
  assumes "validate_shape X s = Inr ()"
  shows "(\<exists>c m p. resource_document_ok X (sub_did_document s) c m p
        \<and> md_resource_type m = sub_resource_type s)
     \<and> dd_id (sub_did_document s) = sub_resource_did s
     \<and> \<not> is_blank (sub_package_version s) \<and> \<not> is_blank (sub_hash_algorithm s)
     \<and> list_all (hash_reference_ok (sub_hash_algorithm s))
          [sub_did_document_hash s, sub_metadata_hash s, sub_package_hash s]
     \<and> dc_subject_did (sb_challenge (sub_subject_control_proof s)) = sub_resource_did s
     \<and> dc_did_document_hash (sb_challenge (sub_subject_control_proof s)) = sub_did_document_hash s
     \<and> dc_purpose (sb_challenge (sub_subject_control_proof s)) = PURPOSE_RESOURCE_REGISTRATION
     \<and> pred_option (controller_bundle_ok s) (sub_controller_authorization_proof s)"
  using assms by (rule validate_shape_InrD)

definition demo_submission :: resource_registration_submission where
  "demo_submission = \<lparr>sub_resource_did = demo_did, sub_resource_type = RRootNode,
     sub_did_document = demo_document, sub_did_document_hash = ''sha256:aa'',
     sub_metadata = JNull, sub_package_version = ''1'', sub_package_hash = ''sha256:bb'',
     sub_metadata_hash = ''cc'', sub_hash_algorithm = ''sha256'', sub_registration_credential = JNull,
     sub_subject_control_proof = \<lparr>sb_challenge = \<lparr>dc_challenge_id = ''1'', dc_draft_id = ''1'',
        dc_subject_did = demo_did, dc_did_document_hash = ''sha256:aa'', dc_registrar_did = demo_did,
        dc_purpose = PURPOSE_RESOURCE_REGISTRATION, dc_verification_method = key_1 demo_did,
        dc_nonce = ''n'', dc_issued_at = 0, dc_expires_at = 1\<rparr>, sb_proof = demo_proof,
        sb_verified_at = None, sb_verified_verification_method = None, sb_proof_hash = None\<rparr>,
     sub_controller_authorization_proof = None\<rparr>"

theorem valid_shape_is_consistent_witness:
  "\<exists>c m p. resource_document_ok demo_externs (sub_did_document demo_submission) c m p"
proof -
  have "validate_shape demo_externs demo_submission = Inr ()" by code_simp
  from valid_shape_is_consistent [OF this] show ?thesis by blast
qed

end
