(* ===== verification/Security.thy ===== *)
theory Security
  imports Protocol "HOL-Library.Multiset"
begin

text \<open>
  The service security crate \<open>crates/oan-service-security\<close>: signed request envelopes with
  freshness and replay protection, the challenges of the registration flow and the proofs
  over them, the admin token, and the registration binding claims. Errors are the code
  strings of \<open>SecurityError\<close>. A time stamp counts nanoseconds; \<open>Utc::now()\<close> is an argument.
\<close>

section \<open>Policies and contexts\<close>

definition DEFAULT_MAX_NONCE_ENTRIES :: nat where
  "DEFAULT_MAX_NONCE_ENTRIES = 10000"

definition REGISTRATION_FLOW :: string where
  "REGISTRATION_FLOW = ''did-control''"

datatype verification_relationship = AssertionMethod | Authentication | CapabilityInvocation

definition relationship_as_str :: "verification_relationship \<Rightarrow> string" where
  "relationship_as_str r = (case r of
     AssertionMethod \<Rightarrow> ''assertionMethod''
   | Authentication \<Rightarrow> ''authentication''
   | CapabilityInvocation \<Rightarrow> ''capabilityInvocation'')"

text \<open>The paths of the nonce stores are left out: each definition is about one store.\<close>

datatype admin_auth_mode =
  StaticToken "string list"
| SignedDid "did_document list" int int string

record admin_principal =
  ap_subject :: string
  ap_verification_method :: string

record trusted_upstream_policy =
  tp_expected_purpose :: string
  tp_expected_method :: string
  tp_expected_path :: string
  tp_expected_audience :: string
  tp_max_clock_skew_seconds :: int
  tp_nonce_ttl_seconds :: int

record trusted_upstream_context =
  tc_signer_did :: string
  tc_verification_method :: string
  tc_request_id :: string

record did_control_policy =
  dp_challenge_ttl_seconds :: int
  dp_challenge_purpose :: string

record did_control_verification_context =
  dx_expected_subject_did :: string
  dx_expected_did_document_hash :: string
  dx_expected_registrar_did :: string
  dx_expected_purpose :: string
  dx_now :: datetime

record controller_authorization_verification_context =
  cx_expected_resource_did :: string
  cx_expected_controller_did :: string
  cx_expected_publisher_did :: "string option"
  cx_expected_did_document_hash :: string
  cx_expected_metadata_hash :: string
  cx_expected_registrar_did :: string
  cx_expected_purpose :: string
  cx_max_clock_skew_seconds :: int
  cx_now :: datetime

section \<open>Freshness and the nonce store\<close>

definition seconds :: "int \<Rightarrow> int" where
  "seconds s = s * 1000000000"

text \<open>\<open>Duration::num_seconds\<close> truncates towards zero.\<close>

definition num_seconds :: "int \<Rightarrow> int" where
  "num_seconds d = (if d < 0 then - ((- d) div 1000000000) else d div 1000000000)"

definition verify_freshness :: "datetime \<Rightarrow> datetime \<Rightarrow> int \<Rightarrow> string \<Rightarrow> string + unit" where
  "verify_freshness timestamp now max_clock_skew_seconds code =
     (let skew = \<bar>num_seconds (now - timestamp)\<bar> in
      if skew > max_clock_skew_seconds then Inl code else Inr ())"

type_synonym nonce_store = "(string \<times> datetime) list"

text \<open>The store's file: it may be missing, or hold something that does not parse.\<close>

datatype nonce_file = NoFile | Unreadable | Nonces nonce_store

definition retain_since :: "datetime \<Rightarrow> nonce_store \<Rightarrow> nonce_store" where
  "retain_since cutoff m = filter (\<lambda>kv. snd kv \<ge> cutoff) m"

definition prune_nonce_store :: "nonce_store \<Rightarrow> datetime \<Rightarrow> int \<Rightarrow> nat \<Rightarrow> nonce_store" where
  "prune_nonce_store m now ttl_seconds max_entries =
     (let m = retain_since (now - seconds ttl_seconds) m in
      if length m \<le> max_entries then m
      else
        let entries = sort_key snd m;
            overflow = length entries - max_entries;
            stale = map fst (take overflow entries)
        in filter (\<lambda>kv. fst kv \<notin> set stale) m)"

definition store_nonce ::
  "nonce_store \<Rightarrow> string \<Rightarrow> datetime \<Rightarrow> datetime \<Rightarrow> int \<Rightarrow> string + nonce_store" where
  "store_nonce m nonce seen_at now ttl_seconds =
     (let m = retain_since (now - seconds ttl_seconds) m in
      if nonce \<in> set (keys m) then Inl ''trusted_upstream_nonce_replayed''
      else Inr (prune_nonce_store (btree_insert nonce seen_at m) now ttl_seconds
                  DEFAULT_MAX_NONCE_ENTRIES))"

text \<open>
  How the final write ends. The JSON store writes with \<open>fs::write\<close>, which empties the file before
  it writes: a write that fails may not have touched the file, may have left a part of the text,
  which does not parse, or may have failed at the end, with the whole value in the file.
\<close>

datatype write_outcome = Written | Untouched | Torn | Unconfirmed

definition after_write ::
  "write_outcome \<Rightarrow> nonce_file \<Rightarrow> nonce_store \<Rightarrow> nonce_file \<times> (string + unit)" where
  "after_write w file m = (case w of
       Written \<Rightarrow> (Nonces m, Inr ())
     | Untouched \<Rightarrow> (file, Inl ''invalid_nonce_store'')
     | Torn \<Rightarrow> (Unreadable, Inl ''invalid_nonce_store'')
     | Unconfirmed \<Rightarrow> (Nonces m, Inl ''invalid_nonce_store''))"

lemma after_write_simps [simp]:
  "after_write Written file m = (Nonces m, Inr ())"
  "after_write Untouched file m = (file, Inl ''invalid_nonce_store'')"
  "after_write Torn file m = (Unreadable, Inl ''invalid_nonce_store'')"
  "after_write Unconfirmed file m = (Nonces m, Inl ''invalid_nonce_store'')"
  by (simp_all add: after_write_def)

text \<open>
  The whole operation on the file; \<open>w\<close> says how its write ends. The mutex of the path makes calls
  on one store follow each other.
\<close>

definition verify_and_store_nonce ::
  "write_outcome \<Rightarrow> nonce_file \<Rightarrow> string \<Rightarrow> datetime \<Rightarrow> datetime \<Rightarrow> int \<Rightarrow> nonce_file \<times> (string + unit)" where
  "verify_and_store_nonce w file nonce seen_at now ttl_seconds =
     (case (case file of NoFile \<Rightarrow> Some [] | Unreadable \<Rightarrow> None | Nonces m \<Rightarrow> Some m) of
        None \<Rightarrow> (file, Inl ''invalid_nonce_store'')
      | Some m \<Rightarrow> (case store_nonce m nonce seen_at now ttl_seconds of
          Inl e \<Rightarrow> (file, Inl e)
        | Inr m' \<Rightarrow> after_write w file m'))"

section \<open>Signed request envelopes\<close>

definition envelope_payload :: "externs \<Rightarrow> signed_request_envelope \<Rightarrow> json" where
  "envelope_payload X e = json_object
     [(''requestId'', JString (sr_request_id e)),
      (''protocolVersion'', JString (sr_protocol_version e)),
      (''purpose'', JString (sr_purpose e)), (''method'', JString (sr_method e)),
      (''path'', JString (sr_path e)), (''aud'', JString (sr_aud e)),
      (''requestTimestamp'', JString (time_text X (sr_request_timestamp e))),
      (''requestNonce'', JString (sr_request_nonce e)), (''bodyHash'', JString (sr_body_hash e))]"

record envelope_input =
  in_request_id :: string
  in_protocol_version :: string
  in_purpose :: string
  in_method :: string
  in_path :: string
  in_aud :: string
  in_payload :: "json option"
  in_creator :: string
  in_verification_method :: string
  in_signing_key :: signing_key
  in_nonce :: string

definition create_signed_request_envelope ::
  "externs \<Rightarrow> datetime \<Rightarrow> envelope_input \<Rightarrow> crypto_error + signed_request_envelope" where
  "create_signed_request_envelope X now i =
     (let suite = signing_key_suite (in_signing_key i) in
      rbind (hash_json_with_suite X suite (in_payload i)) (\<lambda>body_hash.
      let envelope = \<lparr>sr_request_id = in_request_id i,
            sr_protocol_version = in_protocol_version i, sr_purpose = in_purpose i,
            sr_method = in_method i, sr_path = in_path i, sr_aud = in_aud i,
            sr_request_timestamp = now, sr_request_nonce = in_nonce i, sr_body_hash = body_hash,
            sr_proof = \<lparr>pf_context = None, pf_type = [], pf_creator = [], pf_created = now,
              pf_purpose = [], pf_value = [], pf_crypto_suite = None, pf_hash_algorithm = None,
              pf_verification_method = None\<rparr>\<rparr>
      in rbind (build_data_integrity_proof X now (Some (envelope_payload X envelope))
                  (in_creator i) (in_verification_method i) (in_signing_key i)) (\<lambda>proof.
         Inr (envelope\<lparr>sr_proof := proof\<rparr>))))"

definition find_relationship_method ::
  "did_document \<Rightarrow> verification_relationship \<Rightarrow> string option \<Rightarrow> string + verification_method" where
  "find_relationship_method d relationship expected_method =
     (let ids = (case relationship of
        AssertionMethod \<Rightarrow> dd_assertion_method d
      | Authentication \<Rightarrow> dd_authentication d
      | CapabilityInvocation \<Rightarrow> dd_capability_invocation d)
      in ok_or (List.find (\<lambda>m. list_ex (\<lambda>i. i = vm_id m) ids
                 \<and> (case expected_method of None \<Rightarrow> True | Some v \<Rightarrow> v = vm_id m))
           (dd_verification_method d)) ''missing_verification_method'')"

text \<open>The part of the envelope check after the nonce has been stored.\<close>

definition verify_envelope_signature ::
  "externs \<Rightarrow> signed_request_envelope \<Rightarrow> json option \<Rightarrow> string \<Rightarrow> did_document
     \<Rightarrow> string + trusted_upstream_context" where
  "verify_envelope_signature X e payload signer_did signer_document =
     (let expected_method = (case pf_verification_method (sr_proof e) of
        Some m \<Rightarrow> Some m | None \<Rightarrow> Some (key_1 signer_did)) in
      rbind (find_relationship_method signer_document AssertionMethod expected_method) (\<lambda>m.
      rbind (map_err (\<lambda>_. ''trusted_upstream_key_invalid'') (verifying_key_from_method X m)) (\<lambda>vk.
      rbind (map_err (\<lambda>_. ''trusted_upstream_signature_invalid'')
               (verify_payload_with_proof X (Some (envelope_payload X e)) (sr_proof e) vk)) (\<lambda>_.
      rbind (map_err (\<lambda>_. ''trusted_upstream_suite_invalid'')
               (crypto_suite_from_verification_method m)) (\<lambda>suite.
      rbind (map_err (\<lambda>_. ''trusted_upstream_body_hash_invalid'')
               (hash_json_with_suite X suite payload)) (\<lambda>actual_body_hash.
      if actual_body_hash \<noteq> sr_body_hash e then Inl ''trusted_upstream_body_hash_mismatch''
      else Inr \<lparr>tc_signer_did = signer_did, tc_verification_method = vm_id m,
                tc_request_id = sr_request_id e\<rparr>))))))"

definition verify_signed_request_envelope ::
  "externs \<Rightarrow> write_outcome \<Rightarrow> nonce_file \<Rightarrow> signed_request_envelope \<Rightarrow> json option \<Rightarrow> string \<Rightarrow> did_document
     \<Rightarrow> trusted_upstream_policy \<Rightarrow> datetime \<Rightarrow> nonce_file \<times> (string + trusted_upstream_context)" where
  "verify_signed_request_envelope X w file e payload signer_did signer_document policy now =
     (if pf_value (sr_proof e) = [] then (file, Inl ''trusted_upstream_signature_missing'')
      else if sr_method e \<noteq> tp_expected_method policy
      then (file, Inl ''trusted_upstream_method_mismatch'')
      else if sr_path e \<noteq> tp_expected_path policy
      then (file, Inl ''trusted_upstream_path_mismatch'')
      else if sr_purpose e \<noteq> tp_expected_purpose policy
      then (file, Inl ''trusted_upstream_purpose_mismatch'')
      else if sr_aud e \<noteq> tp_expected_audience policy
      then (file, Inl ''trusted_upstream_audience_mismatch'')
      else case verify_freshness (sr_request_timestamp e) now (tp_max_clock_skew_seconds policy)
                  ''trusted_upstream_timestamp_stale'' of
        Inl c \<Rightarrow> (file, Inl c)
      | Inr _ \<Rightarrow> (case verify_and_store_nonce w file (sr_request_nonce e)
                    (sr_request_timestamp e) now (tp_nonce_ttl_seconds policy) of
          (file', Inl c) \<Rightarrow> (file', Inl c)
        | (file', Inr _) \<Rightarrow>
            (file', verify_envelope_signature X e payload signer_did signer_document)))"

section \<open>Challenges and control proofs\<close>

datatype anyhow = ASecurity string | ACrypto crypto_error

definition hash_proof :: "externs \<Rightarrow> data_integrity_proof \<Rightarrow> anyhow + string" where
  "hash_proof X p =
     rbind (ok_or (pf_suite p) (ASecurity ''invalid_proof_hash'')) (\<lambda>suite.
     map_err ACrypto (hash_json_with_suite X suite (Some (proof_json X p))))"

definition timestamp_millis :: "datetime \<Rightarrow> int" where
  "timestamp_millis t = t div 1000000"

definition create_did_control_challenge ::
  "datetime \<Rightarrow> string \<Rightarrow> string \<Rightarrow> string \<Rightarrow> string \<Rightarrow> string \<Rightarrow> did_control_policy \<Rightarrow> string
     \<Rightarrow> did_control_challenge" where
  "create_did_control_challenge issued_at draft_id subject_did did_document_hash registrar_did
       verification_method policy nonce =
     \<lparr>dc_challenge_id = ''challenge-'' @ draft_id @ ''-'' @ int_text (timestamp_millis issued_at),
      dc_draft_id = draft_id, dc_subject_did = subject_did,
      dc_did_document_hash = did_document_hash, dc_registrar_did = registrar_did,
      dc_purpose = dp_challenge_purpose policy, dc_verification_method = verification_method,
      dc_nonce = nonce, dc_issued_at = issued_at,
      dc_expires_at = issued_at + seconds (dp_challenge_ttl_seconds policy)\<rparr>"

record controller_challenge_input =
  ki_resource_did :: string
  ki_controller_did :: string
  ki_publisher_did :: "string option"
  ki_did_document_hash :: string
  ki_metadata_hash :: string
  ki_registrar_did :: string
  ki_verification_method :: string
  ki_ttl_seconds :: int
  ki_nonce :: string

definition create_controller_authorization_challenge ::
  "datetime \<Rightarrow> controller_challenge_input \<Rightarrow> controller_authorization_challenge" where
  "create_controller_authorization_challenge issued_at i =
     \<lparr>cc_challenge_id = ''controller-auth-'' @ replace_char (CHR '':'') (CHR ''-'') (ki_resource_did i)
        @ ''-'' @ int_text (timestamp_millis issued_at),
      cc_resource_did = ki_resource_did i, cc_controller_did = ki_controller_did i,
      cc_publisher_did = ki_publisher_did i, cc_did_document_hash = ki_did_document_hash i,
      cc_metadata_hash = ki_metadata_hash i, cc_registrar_did = ki_registrar_did i,
      cc_purpose = PURPOSE_CONTROLLER_AUTHORIZATION_REGISTRATION,
      cc_verification_method = ki_verification_method i, cc_nonce = ki_nonce i,
      cc_issued_at = issued_at, cc_expires_at = issued_at + seconds (ki_ttl_seconds i)\<rparr>"

definition PRIVATE_KEY_MEMBERS :: "string list" where
  "PRIVATE_KEY_MEMBERS =
     [''privateKeyJwk'', ''privateKeyMultibase'', ''privateKeyBase58'', ''privateKeyHex'', ''d'']"

fun contains_private_key_material :: "json \<Rightarrow> bool" where
  "contains_private_key_material (JObject kvs) =
     list_ex (\<lambda>kv. fst kv \<in> set PRIVATE_KEY_MEMBERS \<or> contains_private_key_material (snd kv)) kvs"
| "contains_private_key_material (JArray items) = list_ex contains_private_key_material items"
| "contains_private_key_material v = False"

definition reject_private_key_material :: "externs \<Rightarrow> did_document \<Rightarrow> string + unit" where
  "reject_private_key_material X d =
     rbind (ok_or (did_document_json X d) ''controller_authorization_did_document_invalid'') (\<lambda>v.
     if contains_private_key_material v then Inl ''controller_authorization_private_key_material''
     else Inr ())"

text \<open>\<open>or_else\<close> of two lookups, both with the same error.\<close>

definition controller_method ::
  "did_document \<Rightarrow> string \<Rightarrow> string + verification_method" where
  "controller_method d method_id =
     (case find_relationship_method d CapabilityInvocation (Some method_id) of
        Inr m \<Rightarrow> Inr m
      | Inl _ \<Rightarrow> find_relationship_method d AssertionMethod (Some method_id))"

definition verify_controller_authorization_proof ::
  "externs \<Rightarrow> controller_authorization_proof_bundle \<Rightarrow> controller_authorization_verification_context
     \<Rightarrow> string + string" where
  "verify_controller_authorization_proof X bundle x =
     (let c = cb_challenge bundle; d = cb_controller_did_document bundle; p = cb_proof bundle in
      if cc_resource_did c \<noteq> cx_expected_resource_did x
      then Inl ''controller_authorization_resource_mismatch''
      else if cc_controller_did c \<noteq> cx_expected_controller_did x
      then Inl ''controller_authorization_controller_mismatch''
      else if cc_publisher_did c \<noteq> cx_expected_publisher_did x
      then Inl ''controller_authorization_publisher_mismatch''
      else if cc_did_document_hash c \<noteq> cx_expected_did_document_hash x
      then Inl ''controller_authorization_did_document_hash_mismatch''
      else if cc_metadata_hash c \<noteq> cx_expected_metadata_hash x
      then Inl ''controller_authorization_metadata_hash_mismatch''
      else if cc_registrar_did c \<noteq> cx_expected_registrar_did x
      then Inl ''controller_authorization_registrar_mismatch''
      else if cc_purpose c \<noteq> cx_expected_purpose x
      then Inl ''controller_authorization_purpose_mismatch''
      else if is_blank (cc_nonce c) then Inl ''controller_authorization_nonce_missing''
      else if cc_issued_at c > cc_expires_at c
      then Inl ''controller_authorization_time_window_invalid''
      else if cc_issued_at c > cx_now x + seconds (cx_max_clock_skew_seconds x)
      then Inl ''controller_authorization_challenge_not_yet_valid''
      else if cx_now x > cc_expires_at c then Inl ''controller_authorization_challenge_expired''
      else if dd_id d \<noteq> cc_controller_did c
      then Inl ''controller_authorization_did_document_id_mismatch''
      else rbind (reject_private_key_material X d) (\<lambda>_.
      rbind (controller_method d (cc_verification_method c)) (\<lambda>m.
      if vm_controller m \<noteq> cc_controller_did c
      then Inl ''controller_authorization_method_controller_mismatch''
      else rbind (map_err (\<lambda>_. ''controller_authorization_proof_invalid'')
                    (verifying_key_from_method X m)) (\<lambda>vk.
      if pf_purpose p \<noteq> relationship_as_str CapabilityInvocation
         \<and> pf_purpose p \<noteq> relationship_as_str AssertionMethod
      then Inl ''controller_authorization_proof_purpose_mismatch''
      else if pf_creator p \<noteq> cc_controller_did c \<and> pf_creator p \<noteq> cc_verification_method c
      then Inl ''controller_authorization_proof_creator_mismatch''
      else rbind (map_err (\<lambda>_. ''controller_authorization_proof_invalid'')
                    (verify_payload_with_proof X (Some (controller_challenge_json X c)) p vk)) (\<lambda>_.
      if pf_verification_method p \<noteq> None
         \<and> pf_verification_method p \<noteq> Some (cc_verification_method c)
      then Inl ''controller_authorization_verification_method_mismatch''
      else Inr (vm_id m))))))"

definition verify_subject_control_proof ::
  "externs \<Rightarrow> subject_control_proof_bundle \<Rightarrow> did_document \<Rightarrow> did_control_verification_context
     \<Rightarrow> string + string" where
  "verify_subject_control_proof X bundle d x =
     (let c = sb_challenge bundle; p = sb_proof bundle in
      if dc_subject_did c \<noteq> dx_expected_subject_did x then Inl ''subject_control_subject_mismatch''
      else if dc_did_document_hash c \<noteq> dx_expected_did_document_hash x
      then Inl ''subject_control_did_document_hash_mismatch''
      else if dc_registrar_did c \<noteq> dx_expected_registrar_did x
      then Inl ''subject_control_registrar_mismatch''
      else if dc_purpose c \<noteq> dx_expected_purpose x then Inl ''subject_control_purpose_mismatch''
      else if dx_now x > dc_expires_at c then Inl ''subject_control_challenge_expired''
      else rbind (find_relationship_method d AssertionMethod (Some (dc_verification_method c))) (\<lambda>m.
      rbind (map_err (\<lambda>_. ''subject_control_proof_invalid'') (verifying_key_from_method X m)) (\<lambda>vk.
      rbind (map_err (\<lambda>_. ''subject_control_proof_invalid'')
               (verify_payload_with_proof X (Some (did_control_challenge_json X c)) p vk)) (\<lambda>_.
      if pf_verification_method p \<noteq> None
         \<and> pf_verification_method p \<noteq> Some (dc_verification_method c)
      then Inl ''subject_control_verification_method_mismatch''
      else Inr (vm_id m)))))"

section \<open>Tokens, identifiers and registration bindings\<close>

definition verify_admin_token :: "string option \<Rightarrow> admin_auth_mode \<Rightarrow> string + admin_principal" where
  "verify_admin_token provided_token mode =
     (case mode of
        StaticToken tokens \<Rightarrow>
          rbind (ok_or provided_token ''admin_auth_required'') (\<lambda>token.
          if list_ex (\<lambda>v. v = token) tokens
          then Inr \<lparr>ap_subject = ''static-admin'', ap_verification_method = ''static-token''\<rparr>
          else Inl ''admin_auth_invalid'')
      | SignedDid _ _ _ _ \<Rightarrow> Inl ''admin_auth_required'')"

definition verify_registration_binding_claims ::
  "json \<Rightarrow> string \<Rightarrow> string \<Rightarrow> string \<Rightarrow> string \<Rightarrow> subject_control_proof_bundle \<Rightarrow> string + unit" where
  "verify_registration_binding_claims claims subject_did did_document_hash registrar_did
       expected_purpose bundle =
     (let invalid = ''registration_binding_invalid''; c = sb_challenge bundle in
      rbind (ok_or (json_get_str ''didDocumentHash'' claims) invalid) (\<lambda>claim_hash.
      if claim_hash \<noteq> did_document_hash then Inl invalid
      else rbind (ok_or (json_get ''registrationBinding'' claims) invalid) (\<lambda>binding.
      if json_get_str ''subjectDid'' binding \<noteq> Some subject_did then Inl invalid
      else if json_get_str ''challengeId'' binding \<noteq> Some (dc_challenge_id c) then Inl invalid
      else if json_get_str ''draftId'' binding \<noteq> Some (dc_draft_id c) then Inl invalid
      else if json_get_str ''verificationMethod'' binding \<noteq> Some (dc_verification_method c)
      then Inl invalid
      else if json_get_str ''registrarDid'' binding \<noteq> Some registrar_did then Inl invalid
      else if json_get_str ''purpose'' binding \<noteq> Some expected_purpose then Inl invalid
      else if json_get ''verifiedAt'' binding = None then Inl invalid
      else case sb_proof_hash bundle of
        None \<Rightarrow> Inr ()
      | Some expected \<Rightarrow>
          if json_get_str ''proofHash'' binding \<noteq> Some expected then Inl invalid else Inr ())))"

definition build_registration_binding_claims ::
  "externs \<Rightarrow> string \<Rightarrow> did_control_challenge \<Rightarrow> string \<Rightarrow> datetime \<Rightarrow> json" where
  "build_registration_binding_claims X did_document_hash c proof_hash verified_at = json_object
     [(''didDocumentHash'', JString did_document_hash),
      (''registrationBinding'', json_object
         [(''flow'', JString REGISTRATION_FLOW), (''draftId'', JString (dc_draft_id c)),
          (''challengeId'', JString (dc_challenge_id c)),
          (''subjectDid'', JString (dc_subject_did c)),
          (''registrarDid'', JString (dc_registrar_did c)), (''purpose'', JString (dc_purpose c)),
          (''verificationMethod'', JString (dc_verification_method c)),
          (''proofHash'', JString proof_hash),
          (''verifiedAt'', JString (time_text X verified_at))])]"

definition bearer_token_from_header :: "string option \<Rightarrow> string option" where
  "bearer_token_from_header v =
     map_option trim (Option.bind v (strip_prefix ''Bearer ''))"

text \<open>\<open>{:016x}\<close> and \<open>{:08x}\<close>: lower-case hexadecimal, padded with zeros.\<close>

definition hex_padded :: "nat \<Rightarrow> nat \<Rightarrow> string" where
  "hex_padded width n = map (\<lambda>i. hex_digit (n div 16 ^ (width - 1 - i) mod 16)) [0..<width]"

text \<open>The counter is an \<open>AtomicU64\<close>: \<open>fetch_add\<close> returns it and wraps around.\<close>

definition request_id :: "string \<Rightarrow> int \<Rightarrow> 64 word \<Rightarrow> 64 word \<times> string" where
  "request_id prefix now_nanos counter =
     (counter + 1, prefix @ ''-'' @ int_text now_nanos @ ''-'' @ hex_padded 16 (unat counter))"

definition request_nonce :: "string \<Rightarrow> int \<Rightarrow> 64 word \<Rightarrow> 32 word \<Rightarrow> 64 word \<times> string" where
  "request_nonce prefix now_nanos counter random =
     (counter + 1, prefix @ ''-'' @ int_text now_nanos @ ''-'' @ hex_padded 16 (unat counter)
        @ ''-'' @ hex_padded 8 (unat random))"

section \<open>The interface of replay protection\<close>

text \<open>
  What an envelope check relies on: a memory of (nonce, time stamp) pairs. An accepted nonce
  is remembered, a remembered pair stays remembered and is refused, as long as the pair is
  alive at the clock reading and the memory has room.
\<close>

locale replay_guard =
  fixes check :: "'m \<Rightarrow> string \<Rightarrow> int \<Rightarrow> int \<Rightarrow> string + 'm"
    and remembers :: "'m \<Rightarrow> string \<Rightarrow> int \<Rightarrow> bool"
    and alive :: "int \<Rightarrow> int \<Rightarrow> bool"
    and room :: "'m \<Rightarrow> bool"
  assumes accepted_remembered:
      "check m n t now = Inr m' \<Longrightarrow> room m \<Longrightarrow> alive t now \<Longrightarrow> remembers m' n t"
    and remembered_kept:
      "remembers m n t \<Longrightarrow> check m n' t' now = Inr m' \<Longrightarrow> room m \<Longrightarrow> alive t now \<Longrightarrow> remembers m' n t"
    and remembered_refused:
      "remembers m n t \<Longrightarrow> alive t now \<Longrightarrow> check m n t' now \<noteq> Inr m'"
    and alive_before: "alive t now' \<Longrightarrow> now \<le> now' \<Longrightarrow> alive t now"
begin

text \<open>One call with its outcome; a refused call leaves the memory as it was.\<close>

inductive run :: "'m \<Rightarrow> (string \<times> int \<times> int \<times> bool) list \<Rightarrow> 'm \<Rightarrow> bool" where
  run_Nil: "run m [] m"
| run_accept: "check m n t now = Inr m' \<Longrightarrow> room m \<Longrightarrow> run m' cs m'' \<Longrightarrow> run m ((n, t, now, True) # cs) m''"
| run_refuse: "check m n t now = Inl e \<Longrightarrow> run m cs m'' \<Longrightarrow> run m ((n, t, now, False) # cs) m''"

inductive_cases run_ConsE: "run m (c # cs) m''"

lemma run_keeps:
  "run m cs m' \<Longrightarrow> remembers m n t \<Longrightarrow> \<forall>c \<in> set cs. fst (snd (snd c)) \<le> final \<Longrightarrow> alive t final \<Longrightarrow>
     remembers m' n t"
proof (induction rule: run.induct)
  case (run_accept m n' t' now m' cs m'')
  then have "alive t now" using alive_before by auto
  with run_accept remembered_kept have "remembers m' n t" by blast
  with run_accept show ?case by auto
qed auto

lemma run_append: "run m (cs @ ds) m'' \<Longrightarrow> \<exists>m'. run m cs m' \<and> run m' ds m''"
proof (induction cs arbitrary: m)
  case Nil
  then show ?case using run_Nil by auto
next
  case (Cons c cs)
  then have "run m (c # (cs @ ds)) m''" by simp
  then show ?case by (rule run_ConsE) (use Cons.IH run_accept run_refuse in blast)+
qed

text \<open>No pair is accepted twice while it is alive.\<close>

lemma no_second_acceptance:
  assumes "run m (bs @ (n, t, now1, True) # cs @ (n, t, now2, ok) # ds) m''"
    and "sorted (map (\<lambda>c. fst (snd (snd c))) (bs @ (n, t, now1, True) # cs @ (n, t, now2, ok) # ds))"
    and "alive t now2"
  shows "\<not> ok"
proof
  assume ok
  from run_append [OF assms(1)] obtain m1 m2 where m1: "check m1 n t now1 = Inr m2" "room m1"
    "run m2 (cs @ (n, t, now2, ok) # ds) m''"
    by (auto elim: run_ConsE)
  from run_append [OF m1(3)] obtain m3 m4 where m3: "run m2 cs m3" "check m3 n t now2 = Inr m4"
    using \<open>ok\<close> by (auto elim: run_ConsE)
  have "alive t now1" using assms(2,3) alive_before by (auto simp: sorted_append)
  then have "remembers m2 n t" using m1 accepted_remembered by blast
  then have "remembers m3 n t"
    by (rule run_keeps [OF m3(1)]) (use assms(2,3) in \<open>auto simp: sorted_append\<close>)
  with remembered_refused assms(3) m3(2) show False by blast
qed

end

text \<open>The code's store provides it, for every time to live.\<close>

definition store_room :: "nonce_store \<Rightarrow> bool" where
  "store_room m \<longleftrightarrow> length m < DEFAULT_MAX_NONCE_ENTRIES"

definition store_remembers :: "nonce_store \<Rightarrow> string \<Rightarrow> datetime \<Rightarrow> bool" where
  "store_remembers m n t \<longleftrightarrow> (n, t) \<in> set m"

definition nonce_alive :: "int \<Rightarrow> datetime \<Rightarrow> datetime \<Rightarrow> bool" where
  "nonce_alive ttl t now \<longleftrightarrow> now - seconds ttl \<le> t"

lemma set_btree_insert_new: "k \<notin> fst ` set m \<Longrightarrow> set (btree_insert k v m) = insert (k, v) (set m)"
  by (induction k v m rule: btree_insert.induct) auto

lemma length_btree_insert_new: "k \<notin> fst ` set m \<Longrightarrow> length (btree_insert k v m) = Suc (length m)"
  by (induction k v m rule: btree_insert.induct) auto

lemma prune_with_room:
  "length m \<le> k \<Longrightarrow> prune_nonce_store m now ttl k = retain_since (now - seconds ttl) m"
proof -
  assume "length m \<le> k"
  then have "length (retain_since (now - seconds ttl) m) \<le> k"
    unfolding retain_since_def by (rule order_trans [OF length_filter_le])
  then show ?thesis by (simp add: prune_nonce_store_def)
qed

lemma store_nonce_with_room:
  assumes "store_nonce m n t now ttl = Inr m'" and "store_room m"
  shows "n \<notin> fst ` {kv \<in> set m. now - seconds ttl \<le> snd kv}
     \<and> set m' = {kv \<in> insert (n, t) (set m). now - seconds ttl \<le> snd kv}"
proof -
  let ?m = "retain_since (now - seconds ttl) m"
  from assms(1) have n: "n \<notin> fst ` set ?m"
    and m': "m' = prune_nonce_store (btree_insert n t ?m) now ttl DEFAULT_MAX_NONCE_ENTRIES"
    by (auto simp: store_nonce_def Let_def split: if_splits)
  have "length ?m < DEFAULT_MAX_NONCE_ENTRIES"
    using assms(2) unfolding store_room_def retain_since_def
    by (rule le_less_trans [OF length_filter_le])
  then have "m' = retain_since (now - seconds ttl) (btree_insert n t ?m)"
    unfolding m' by (intro prune_with_room) (simp add: length_btree_insert_new [OF n])
  then have "set m' = {kv \<in> insert (n, t) (set ?m). now - seconds ttl \<le> snd kv}"
    unfolding retain_since_def [of _ "btree_insert n t ?m"] set_btree_insert_new [OF n, symmetric]
    by simp
  moreover have "set ?m = {kv \<in> set m. now - seconds ttl \<le> snd kv}" by (auto simp: retain_since_def)
  ultimately show ?thesis using n by auto
qed

interpretation nonces: replay_guard
  "\<lambda>m n t now. store_nonce m n t now ttl" store_remembers "nonce_alive ttl" store_room for ttl
proof unfold_locales
  fix m n t now m'
  assume "store_nonce m n t now ttl = Inr m'" "store_room m" "nonce_alive ttl t now"
  then show "store_remembers m' n t"
    using store_nonce_with_room by (auto simp: store_remembers_def nonce_alive_def)
next
  fix m n t n' t' now m'
  assume "store_remembers m n t" "store_nonce m n' t' now ttl = Inr m'" "store_room m"
    "nonce_alive ttl t now"
  then show "store_remembers m' n t"
    using store_nonce_with_room by (auto simp: store_remembers_def nonce_alive_def)
next
  fix m n t t' now m'
  assume "store_remembers m n t" "nonce_alive ttl t now"
  then have "(n, t) \<in> set (retain_since (now - seconds ttl) m)"
    by (auto simp: store_remembers_def nonce_alive_def retain_since_def)
  then have "n \<in> set (keys (retain_since (now - seconds ttl) m))" by force
  then show "store_nonce m n t' now ttl \<noteq> Inr m'"
    unfolding store_nonce_def Let_def by simp
qed (auto simp: nonce_alive_def)

section \<open>Sequences of requests\<close>

record upstream_request =
  rq_envelope :: signed_request_envelope
  rq_payload :: "json option"
  rq_signer_did :: string
  rq_document :: did_document
  rq_now :: datetime
  rq_write :: write_outcome

definition handle ::
  "externs \<Rightarrow> trusted_upstream_policy \<Rightarrow> nonce_file \<Rightarrow> upstream_request
     \<Rightarrow> nonce_file \<times> (string + trusted_upstream_context)" where
  "handle X policy f q = verify_signed_request_envelope X (rq_write q) f (rq_envelope q) (rq_payload q)
     (rq_signer_did q) (rq_document q) policy (rq_now q)"

fun handle_all ::
  "externs \<Rightarrow> trusted_upstream_policy \<Rightarrow> nonce_file \<Rightarrow> upstream_request list \<Rightarrow> nonce_file" where
  "handle_all X policy f [] = f"
| "handle_all X policy f (q # qs) = handle_all X policy (fst (handle X policy f q)) qs"

definition file_nonces :: "nonce_file \<Rightarrow> nonce_store" where
  "file_nonces f = (case f of Nonces m \<Rightarrow> m | _ \<Rightarrow> [])"

fun rooms :: "externs \<Rightarrow> trusted_upstream_policy \<Rightarrow> nonce_file \<Rightarrow> upstream_request list \<Rightarrow> bool" where
  "rooms X policy f [] = True"
| "rooms X policy f (q # qs) =
     (store_room (file_nonces f) \<and> rooms X policy (fst (handle X policy f q)) qs)"

text \<open>
  A request either leaves the store alone and fails, or has its nonce accepted by it. In the second
  case its write may fail, and then leave a file that is not readable.
\<close>

lemma handle_cases:
  assumes "handle X policy f q = (f', r)"
  obtains (refused) e where "f' = f" "r = Inl e"
  | (stored) m' where "f' = Nonces m' \<or> f' = Unreadable \<and> (\<exists>e. r = Inl e)" "f \<noteq> Unreadable"
      "store_nonce (file_nonces f) (sr_request_nonce (rq_envelope q))
        (sr_request_timestamp (rq_envelope q)) (rq_now q) (tp_nonce_ttl_seconds policy) = Inr m'"
      "verify_freshness (sr_request_timestamp (rq_envelope q)) (rq_now q)
         (tp_max_clock_skew_seconds policy) ''trusted_upstream_timestamp_stale'' = Inr ()"
  using assms
  by (cases f; cases "rq_write q") (auto simp: handle_def verify_signed_request_envelope_def
      verify_and_store_nonce_def file_nonces_def split: if_splits sum.splits)

text \<open>An unreadable file refuses every request, so it cannot forget a nonce.\<close>

definition file_remembers :: "nonce_file \<Rightarrow> string \<Rightarrow> datetime \<Rightarrow> bool" where
  "file_remembers f n t \<longleftrightarrow> f = Unreadable \<or> store_remembers (file_nonces f) n t"

lemma handle_keeps:
  assumes "file_remembers f n t" "store_room (file_nonces f)"
    and "nonce_alive (tp_nonce_ttl_seconds policy) t (rq_now q)"
  shows "file_remembers (fst (handle X policy f q)) n t"
proof (cases "handle X policy f q")
  case (Pair f' r)
  then show ?thesis
  proof (cases rule: handle_cases)
    case (stored m')
    with nonces.remembered_kept assms Pair show ?thesis
      by (auto simp: file_nonces_def file_remembers_def)
  qed (use assms Pair in simp)
qed

lemma handle_all_keeps:
  "file_remembers f n t \<Longrightarrow> rooms X policy f qs \<Longrightarrow>
     \<forall>q \<in> set qs. rq_now q \<le> final \<Longrightarrow> nonce_alive (tp_nonce_ttl_seconds policy) t final \<Longrightarrow>
     file_remembers (handle_all X policy f qs) n t"
proof (induction qs arbitrary: f)
  case (Cons q qs)
  then have "nonce_alive (tp_nonce_ttl_seconds policy) t (rq_now q)"
    using nonces.alive_before by auto
  with Cons handle_keeps show ?case by auto
qed simp

lemma div_le_less:
  fixes d s :: int
  assumes "d div 1000000000 \<le> s"
  shows "d < (s + 1) * 1000000000"
proof -
  have "d = 1000000000 * (d div 1000000000) + d mod 1000000000" by simp
  also have "\<dots> < 1000000000 * (d div 1000000000) + 1000000000" by simp
  also have "\<dots> \<le> 1000000000 * s + 1000000000" using assms by simp
  finally show ?thesis by simp
qed

lemma fresh_alive:
  assumes "verify_freshness t now skew c = Inr ()" and "skew < ttl"
  shows "nonce_alive ttl t now"
proof -
  let ?d = "now - t"
  have s: "\<bar>num_seconds ?d\<bar> \<le> skew"
    using assms(1) by (simp add: verify_freshness_def Let_def split: if_splits)
  show ?thesis
  proof (cases "?d < 0")
    case True
    with s have "0 \<le> skew" by linarith
    with True assms(2) show ?thesis by (simp add: nonce_alive_def seconds_def)
  next
    case False
    then have "?d div 1000000000 \<le> skew" using s by (simp add: num_seconds_def)
    then have "?d < (skew + 1) * 1000000000"
      by (rule div_le_less)
    also have "\<dots> \<le> ttl * 1000000000" using assms(2) by simp
    finally show ?thesis by (simp add: nonce_alive_def seconds_def)
  qed
qed

section \<open>Bounds and gaps of the store\<close>

lemma prune_length: "length (prune_nonce_store m now ttl k) \<le> k"
proof -
  let ?m = "retain_since (now - seconds ttl) m"
  let ?stale = "take (length ?m - k) (sort_key snd ?m)"
  show ?thesis
  proof (cases "length ?m \<le> k")
    case False
    have "mset ?m = mset ?stale + mset (drop (length ?m - k) (sort_key snd ?m))"
      by (metis append_take_drop_id mset_append mset_sort)
    then have "mset (filter (\<lambda>kv. fst kv \<notin> set (map fst ?stale)) ?m)
                 = filter_mset (\<lambda>kv. fst kv \<notin> set (map fst ?stale)) (mset ?stale)
                 + filter_mset (\<lambda>kv. fst kv \<notin> set (map fst ?stale)) (mset (drop (length ?m - k) (sort_key snd ?m)))"
      by (simp add: mset_filter)
    moreover have "filter_mset (\<lambda>kv. fst kv \<notin> set (map fst ?stale)) (mset ?stale) = {#}"
    proof -
      have "filter (\<lambda>kv. fst kv \<notin> set (map fst ?stale)) ?stale = []" by (simp add: filter_empty_conv)
      then show ?thesis by (metis mset_filter mset.simps(1))
    qed
    ultimately have "length (filter (\<lambda>kv. fst kv \<notin> set (map fst ?stale)) ?m)
        \<le> length (drop (length ?m - k) (sort_key snd ?m))"
      by (metis add_0 size_filter_mset_lesseq size_mset)
    also have "\<dots> \<le> k" by simp
    finally show ?thesis using False by (simp add: prune_nonce_store_def Let_def)
  next
    case True
    then show ?thesis by (simp add: prune_nonce_store_def Let_def)
  qed
qed

text \<open>
  A full store drops the oldest entry, which may be the nonce it has just accepted: it is
  then the same as before and accepts the request again.
\<close>

lemma full_store_forgets:
  assumes "length m = DEFAULT_MAX_NONCE_ENTRIES" and "n \<notin> fst ` set m"
    and "\<forall>kv \<in> set m. t < snd kv" and "now - seconds ttl \<le> t"
  shows "store_nonce m n t now ttl = Inr m"
proof -
  let ?c = "now - seconds ttl"
  let ?i = "btree_insert n t m"
  have live: "retain_since ?c m = m"
    using assms(3,4) by (auto simp: retain_since_def filter_id_conv)
  have set_i: "set ?i = insert (n, t) (set m)" by (rule set_btree_insert_new [OF assms(2)])
  have live_i: "retain_since ?c ?i = ?i"
    using assms(3,4) by (auto simp: retain_since_def filter_id_conv set_i)
  have len: "length ?i = Suc DEFAULT_MAX_NONCE_ENTRIES"
    using length_btree_insert_new [OF assms(2)] assms(1) by simp
  obtain y ys where s: "sort_key snd ?i = y # ys"
    using len by (cases "sort_key snd ?i") (auto dest: arg_cong [of _ _ length])
  have "sorted (map snd (y # ys))" using sorted_sort_key [of snd ?i] s by metis
  moreover have mem: "set (y # ys) = insert (n, t) (set m)" using set_sort [of snd ?i] s set_i by metis
  ultimately have "snd y \<le> t" by (auto 0 3)
  with mem assms(3) have y: "y = (n, t)" by force
  have "filter (\<lambda>kv. fst kv \<noteq> n) (btree_insert n t m) = m"
    using assms(2) by (induction n t m rule: btree_insert.induct) (auto simp: filter_id_conv)
  moreover have "take (length ?i - DEFAULT_MAX_NONCE_ENTRIES) (sort_key snd ?i) = [(n, t)]"
    unfolding len s y by simp
  ultimately have "prune_nonce_store ?i now ttl DEFAULT_MAX_NONCE_ENTRIES = m"
    using len by (simp add: prune_nonce_store_def Let_def live_i)
  with live assms(2) show ?thesis by (simp add: store_nonce_def Let_def)
qed

section \<open>Lemmas on proofs and claims\<close>

lemma verifying_key_from_method_suite:
  "verifying_key_from_method X m = Inr vk \<Longrightarrow> vm_suite m = Some (verifying_key_suite vk)"
  by (cases "the (vm_suite m)")
    (auto simp: verifying_key_from_method_def crypto_suite_from_verification_method_def
      verifying_key_from_public_key_multibase_def verifying_key_from_public_key_jwk_def
      verifying_key_from_bytes_def Let_def split: option.splits if_splits)

lemma find_relationship_method_InrD:
  assumes "find_relationship_method d r (Some i) = Inr m"
  shows "m \<in> set (dd_verification_method d) \<and> vm_id m = i \<and>
    i \<in> set (case r of AssertionMethod \<Rightarrow> dd_assertion_method d
      | Authentication \<Rightarrow> dd_authentication d | CapabilityInvocation \<Rightarrow> dd_capability_invocation d)"
  using assms
  by (auto simp: find_relationship_method_def Let_def list_ex_eq_mem dest!: find_Some_mem
      split: verification_relationship.splits)

lemma verify_payload_with_proof_InrD:
  "verify_payload_with_proof X (Some v) p vk = Inr u \<Longrightarrow>
     \<exists>input. signature_input X (verifying_key_suite vk) (Some v) = Inr input
       \<and> verify_bytes_multibase X vk input (pf_value p) = Inr ()"
  by (auto simp: verify_payload_with_proof_def crypto_suite_from_proof_def split: if_splits)

text \<open>A member named \<open>k\<close> occurs somewhere inside a value.\<close>

inductive has_member :: "string \<Rightarrow> json \<Rightarrow> bool" where
  here: "(k, v) \<in> set kvs \<Longrightarrow> has_member k (JObject kvs)"
| in_object: "(k', v) \<in> set kvs \<Longrightarrow> has_member k v \<Longrightarrow> has_member k (JObject kvs)"
| in_array: "v \<in> set vs \<Longrightarrow> has_member k v \<Longrightarrow> has_member k (JArray vs)"

inductive_simps has_member_simps [simp]:
  "has_member k (JObject kvs)" "has_member k (JArray vs)" "has_member k JNull"
  "has_member k (JBool b)" "has_member k (JNumber n)" "has_member k (JString s)"

lemma contains_private_key_iff:
  "contains_private_key_material v \<longleftrightarrow> (\<exists>k \<in> set PRIVATE_KEY_MEMBERS. has_member k v)"
proof (induction v rule: contains_private_key_material.induct)
  case (1 kvs)
  have "contains_private_key_material (JObject kvs) \<longleftrightarrow> (\<exists>kv \<in> set kvs. fst kv \<in> set PRIVATE_KEY_MEMBERS
          \<or> (\<exists>k \<in> set PRIVATE_KEY_MEMBERS. has_member k (snd kv)))"
    using 1 unfolding contains_private_key_material.simps list_ex_iff by blast
  also have "\<dots> \<longleftrightarrow> (\<exists>k \<in> set PRIVATE_KEY_MEMBERS. has_member k (JObject kvs))"
    unfolding has_member_simps Bex_def split_paired_Ex fst_conv snd_conv by blast
  finally show ?case .
next
  case (2 vs)
  then show ?case unfolding contains_private_key_material.simps list_ex_iff has_member_simps by blast
qed simp_all

lemma binding_claims_iff:
  assumes "json_get_str ''didDocumentHash'' claims = Some h" "json_get ''registrationBinding'' claims = Some b"
  shows "verify_registration_binding_claims claims subject hash registrar purpose bundle = Inr () \<longleftrightarrow>
    h = hash \<and> json_get_str ''subjectDid'' b = Some subject
    \<and> json_get_str ''challengeId'' b = Some (dc_challenge_id (sb_challenge bundle))
    \<and> json_get_str ''draftId'' b = Some (dc_draft_id (sb_challenge bundle))
    \<and> json_get_str ''verificationMethod'' b = Some (dc_verification_method (sb_challenge bundle))
    \<and> json_get_str ''registrarDid'' b = Some registrar \<and> json_get_str ''purpose'' b = Some purpose
    \<and> json_get ''verifiedAt'' b \<noteq> None
    \<and> (sb_proof_hash bundle = None \<or> json_get_str ''proofHash'' b = sb_proof_hash bundle)"
  unfolding verify_registration_binding_claims_def assms ok_or_simps rbind.simps Let_def
  by (simp split: option.split)

section \<open>Properties\<close>

text \<open>
  C1. No replay: once a request has been accepted, a later request with the same nonce and
  time stamp is refused and leaves the file as it is, for any requests in between, whether their
  writes succeed or fail, while all are checked under one policy, the clock does not go back, the
  store has room at every call, and the allowed clock skew is below the nonce time to live.
\<close>

theorem replayed_request_refused:
  assumes "handle X policy f q1 = (f1, Inr c)"
    and "\<forall>q \<in> set qs. rq_now q1 \<le> rq_now q \<and> rq_now q \<le> rq_now q2" and "rq_now q1 \<le> rq_now q2"
    and "sr_request_nonce (rq_envelope q2) = sr_request_nonce (rq_envelope q1)"
    and "sr_request_timestamp (rq_envelope q2) = sr_request_timestamp (rq_envelope q1)"
    and "store_room (file_nonces f)" and "rooms X policy f1 qs"
    and "tp_max_clock_skew_seconds policy < tp_nonce_ttl_seconds policy"
  shows "\<exists>e. handle X policy (handle_all X policy f1 qs) q2 = (handle_all X policy f1 qs, Inl e)"
proof -
  let ?n = "sr_request_nonce (rq_envelope q1)" and ?t = "sr_request_timestamp (rq_envelope q1)"
  let ?ttl = "tp_nonce_ttl_seconds policy" and ?f = "handle_all X policy f1 qs"
  from assms(1) obtain m' where m': "f1 = Nonces m'"
    "store_nonce (file_nonces f) ?n ?t (rq_now q1) ?ttl = Inr m'"
    "verify_freshness ?t (rq_now q1) (tp_max_clock_skew_seconds policy)
       ''trusted_upstream_timestamp_stale'' = Inr ()"
    by (cases rule: handle_cases) auto
  have "file_remembers f1 ?n ?t"
    using nonces.accepted_remembered [OF m'(2) assms(6) fresh_alive [OF m'(3) assms(8)]] m'(1)
    by (simp add: file_nonces_def file_remembers_def)
  then have kept: "nonce_alive ?ttl ?t (rq_now q2) \<Longrightarrow> file_remembers ?f ?n ?t"
    using handle_all_keeps assms(2,7) by blast
  obtain f3 r where h: "handle X policy ?f q2 = (f3, r)" by fastforce
  then show ?thesis
  proof (cases rule: handle_cases)
    case (stored m'')
    then have alive: "nonce_alive ?ttl ?t (rq_now q2)" using fresh_alive assms(5,8) by metis
    with kept stored(2) have "store_remembers (file_nonces ?f) ?n ?t" by (simp add: file_remembers_def)
    from nonces.remembered_refused [OF this alive] stored(3) assms(4) show ?thesis by simp
  qed (use h in simp)
qed

text \<open>The envelope that is created for a payload: it is built without a proof, then signed.\<close>

definition unproved_envelope ::
  "externs \<Rightarrow> datetime \<Rightarrow> envelope_input \<Rightarrow> json \<Rightarrow> signed_request_envelope" where
  "unproved_envelope X now i v =
     \<lparr>sr_request_id = in_request_id i, sr_protocol_version = in_protocol_version i,
      sr_purpose = in_purpose i, sr_method = in_method i, sr_path = in_path i, sr_aud = in_aud i,
      sr_request_timestamp = now, sr_request_nonce = in_nonce i,
      sr_body_hash = hash_hex X (signing_key_suite (in_signing_key i)) (canonical_json_value X v),
      sr_proof = \<lparr>pf_context = None, pf_type = [], pf_creator = [], pf_created = now,
        pf_purpose = [], pf_value = [], pf_crypto_suite = None, pf_hash_algorithm = None,
        pf_verification_method = None\<rparr>\<rparr>"

definition proved_envelope ::
  "externs \<Rightarrow> datetime \<Rightarrow> envelope_input \<Rightarrow> json \<Rightarrow> signed_request_envelope" where
  "proved_envelope X now i v = (unproved_envelope X now i v)\<lparr>sr_proof :=
     built_proof X now (envelope_payload X (unproved_envelope X now i v)) (in_creator i)
       (in_verification_method i) (in_signing_key i)\<rparr>"

lemma envelope_payload_proof [simp]: "envelope_payload X (e\<lparr>sr_proof := q\<rparr>) = envelope_payload X e"
  by (simp add: envelope_payload_def)

lemma create_signed_request_envelope_eq:
  assumes "codecs_ok X" and "in_payload i = Some v"
  shows "create_signed_request_envelope X now i = Inr (proved_envelope X now i v)"
  unfolding create_signed_request_envelope_def assms(2)
  by (simp add: hash_json_with_suite_def canonical_json_def Let_def
      build_data_integrity_proof_eq [OF assms(1)] flip: unproved_envelope_def)
    (simp add: proved_envelope_def unproved_envelope_def)

lemma proved_envelope_verifies:
  assumes "codecs_ok X" and "schemes_ok X" and "signing_key_ok X (in_signing_key i)"
    and "find_relationship_method d AssertionMethod (Some (in_verification_method i)) = Inr vm"
    and "verifying_key_from_method X vm = Inr (verifying_key_of X (in_signing_key i))"
    and "hash_hex X (signing_key_suite (in_signing_key i)) (canonical_json_value X w)
      = hash_hex X (signing_key_suite (in_signing_key i)) (canonical_json_value X v)"
  shows "verify_envelope_signature X (proved_envelope X now i v) (Some w) signer d
    = Inr \<lparr>tc_signer_did = signer, tc_verification_method = vm_id vm, tc_request_id = in_request_id i\<rparr>"
proof -
  have suite: "vm_suite vm = Some (signing_key_suite (in_signing_key i))"
    using verifying_key_from_method_suite [OF assms(5)] by simp
  show ?thesis
    by (simp add: verify_envelope_signature_def proved_envelope_def assms(4,5) suite
        verify_built_proof [OF assms(1-3)] crypto_suite_from_verification_method_def
        hash_json_with_suite_def canonical_json_def assms(6))
      (simp add: unproved_envelope_def)
qed

text \<open>The parties of the witnesses: a skill registrar with one Ed25519 key.\<close>

definition demo_sk :: signing_key where
  "demo_sk = SkEd25519 Ed25519Sha256 (replicate 32 (CHR ''2''))"

definition demo_policy :: trusted_upstream_policy where
  "demo_policy = \<lparr>tp_expected_purpose = ''p'', tp_expected_method = ''POST'', tp_expected_path = ''/r'',
     tp_expected_audience = ''a'', tp_max_clock_skew_seconds = 60, tp_nonce_ttl_seconds = 300\<rparr>"

definition demo_input :: envelope_input where
  "demo_input = \<lparr>in_request_id = ''1'', in_protocol_version = OAN_RESOURCE_PROTOCOL_VERSION,
     in_purpose = ''p'', in_method = ''POST'', in_path = ''/r'', in_aud = ''a'', in_payload = Some JNull,
     in_creator = demo_did, in_verification_method = key_1 demo_did, in_signing_key = demo_sk,
     in_nonce = ''n''\<rparr>"

definition demo_envelope :: signed_request_envelope where
  "demo_envelope = (case create_signed_request_envelope demo_externs 0 demo_input of Inr e \<Rightarrow> e)"

definition demo_request :: "datetime \<Rightarrow> upstream_request" where
  "demo_request now = \<lparr>rq_envelope = demo_envelope, rq_payload = Some JNull, rq_signer_did = demo_did,
     rq_document = demo_document, rq_now = now, rq_write = Written\<rparr>"

lemma demo_sk_ok: "signing_key_ok demo_externs demo_sk"
  by (simp add: demo_sk_def)

lemma demo_signer:
  fixes m defines "m \<equiv> hd (dd_verification_method demo_document)"
  shows "find_relationship_method demo_document AssertionMethod (Some (key_1 demo_did)) = Inr m"
    and "verifying_key_from_method demo_externs m = Inr (verifying_key_of demo_externs demo_sk)"
    and "vm_id m = key_1 demo_did"
  unfolding m_def by code_simp+

text \<open>The demonstration envelope for any payload; it is accepted with any payload of the same hash.\<close>

definition demo_envelope_for :: "json \<Rightarrow> signed_request_envelope" where
  "demo_envelope_for v = proved_envelope demo_externs 0 (demo_input\<lparr>in_payload := Some v\<rparr>) v"

lemma demo_envelope_eq: "demo_envelope = demo_envelope_for JNull"
proof -
  have same: "demo_input\<lparr>in_payload := Some JNull\<rparr> = demo_input" by (simp add: demo_input_def)
  have "in_payload demo_input = Some JNull" by (simp add: demo_input_def)
  note created = create_signed_request_envelope_eq [OF demo_codecs this, of 0]
  show ?thesis unfolding demo_envelope_def demo_envelope_for_def same created by simp
qed

lemma demo_fields:
  fixes v defines "e \<equiv> demo_envelope_for v"
  shows "sr_method e = ''POST''" and "sr_path e = ''/r''" and "sr_purpose e = ''p''" and "sr_aud e = ''a''"
    and "sr_request_timestamp e = 0" and "sr_request_nonce e = ''n''" and "pf_value (sr_proof e) \<noteq> []"
  by (simp_all add: e_def demo_envelope_for_def proved_envelope_def unproved_envelope_def demo_input_def)

lemma demo_signature:
  assumes "hash_hex demo_externs Ed25519Sha256 (canonical_json_value demo_externs w)
    = hash_hex demo_externs Ed25519Sha256 (canonical_json_value demo_externs v)"
  shows "verify_envelope_signature demo_externs (demo_envelope_for v) (Some w) demo_did demo_document
    = Inr \<lparr>tc_signer_did = demo_did, tc_verification_method = key_1 demo_did, tc_request_id = ''1''\<rparr>"
proof -
  have "signing_key_suite demo_sk = Ed25519Sha256" by (simp add: demo_sk_def)
  with assms demo_signer demo_sk_ok show ?thesis
    unfolding demo_envelope_for_def
    by (subst proved_envelope_verifies [OF demo_codecs demo_schemes,
          where vm = "hd (dd_verification_method demo_document)"])
      (simp_all add: demo_input_def)
qed

lemma demo_accepted:
  assumes "hash_hex demo_externs Ed25519Sha256 (canonical_json_value demo_externs w)
    = hash_hex demo_externs Ed25519Sha256 (canonical_json_value demo_externs v)"
    and "0 \<le> now" and "now \<le> seconds 60"
  shows "verify_signed_request_envelope demo_externs Written NoFile (demo_envelope_for v) (Some w) demo_did
      demo_document demo_policy now
    = (Nonces [(''n'', 0)],
       Inr \<lparr>tc_signer_did = demo_did, tc_verification_method = key_1 demo_did, tc_request_id = ''1''\<rparr>)"
proof -
  have "\<bar>num_seconds now\<bar> \<le> 60" "now \<le> seconds 300"
    using assms(2,3) by (simp_all add: num_seconds_def seconds_def)
  then show ?thesis
    by (simp add: verify_signed_request_envelope_def demo_fields demo_policy_def verify_freshness_def
        verify_and_store_nonce_def store_nonce_def retain_since_def prune_nonce_store_def
        DEFAULT_MAX_NONCE_ENTRIES_def demo_signature [OF assms(1)])
qed

lemma demo_request_accepted:
  "0 \<le> now \<Longrightarrow> now \<le> seconds 60 \<Longrightarrow> handle demo_externs demo_policy NoFile (demo_request now) = (Nonces [(''n'', 0)],
     Inr \<lparr>tc_signer_did = demo_did, tc_verification_method = key_1 demo_did, tc_request_id = ''1''\<rparr>)"
  by (simp add: handle_def demo_request_def demo_envelope_eq demo_accepted)

theorem replayed_request_refused_witness:
  "\<exists>f1 e. fst (handle demo_externs demo_policy NoFile (demo_request 0)) = f1
     \<and> handle demo_externs demo_policy f1 (demo_request 5) = (f1, Inl e)"
proof -
  note a = demo_request_accepted [of 0, simplified seconds_def, simplified]
  have "\<exists>e. handle demo_externs demo_policy (handle_all demo_externs demo_policy (Nonces [(''n'', 0)]) [])
              (demo_request 5) = (handle_all demo_externs demo_policy (Nonces [(''n'', 0)]) [], Inl e)"
    by (rule replayed_request_refused [OF a])
      (simp_all add: demo_request_def demo_policy_def store_room_def file_nonces_def
        DEFAULT_MAX_NONCE_ENTRIES_def)
  with a show ?thesis by simp
qed

text \<open>
  C34. The store is bounded and well-formed: whatever nonces are presented, every store that
  the operation writes has at most 10000 entries with strictly ascending keys, and none that
  is older than the time to live.
\<close>

theorem nonce_store_bounded:
  assumes "verify_and_store_nonce w file nonce seen_at now ttl = (Nonces m', Inr ())"
    and "sorted_wrt (<) (keys (file_nonces file))"
  shows "length m' \<le> DEFAULT_MAX_NONCE_ENTRIES \<and> sorted_wrt (<) (keys m')
     \<and> list_all (\<lambda>kv. now - seconds ttl \<le> snd kv) m'"
proof -
  from assms(1) have s: "store_nonce (file_nonces file) nonce seen_at now ttl = Inr m'"
    by (cases "file"; cases w) (auto simp: verify_and_store_nonce_def file_nonces_def split: sum.splits)
  let ?i = "btree_insert nonce seen_at (retain_since (now - seconds ttl) (file_nonces file))"
  have m': "m' = prune_nonce_store ?i now ttl DEFAULT_MAX_NONCE_ENTRIES"
    using s by (auto simp: store_nonce_def Let_def split: if_splits)
  have filter_sorted: "sorted_wrt (<) (keys m) \<Longrightarrow> sorted_wrt (<) (keys (filter P m))"
    for P and m :: nonce_store
    unfolding sorted_wrt_map by (rule sorted_wrt_filter)
  have "sorted_wrt (<) (keys ?i)"
    using assms(2) unfolding retain_since_def by (intro sorted_btree_insert filter_sorted)
  then have "sorted_wrt (<) (keys m')"
    unfolding m' prune_nonce_store_def Let_def retain_since_def by (auto intro!: filter_sorted)
  moreover have "length m' \<le> DEFAULT_MAX_NONCE_ENTRIES" unfolding m' by (rule prune_length)
  moreover have "list_all (\<lambda>kv. now - seconds ttl \<le> snd kv) m'"
    unfolding m' prune_nonce_store_def Let_def retain_since_def by (auto simp: list_all_iff)
  ultimately show ?thesis by blast
qed

theorem nonce_store_bounded_witness:
  "length [(''a'', 5), (''n'', 7)] \<le> DEFAULT_MAX_NONCE_ENTRIES
     \<and> sorted_wrt (<) (keys [(''a'', 5), (''n'', 7::int)])
     \<and> list_all (\<lambda>kv. 7 - seconds 300 \<le> snd kv) [(''a'', 5), (''n'', 7::int)]"
proof -
  have "verify_and_store_nonce Written (Nonces [(''a'', 5)]) ''n'' 7 7 300 = (Nonces [(''a'', 5), (''n'', 7)], Inr ())"
    by code_simp
  from nonce_store_bounded [OF this] show ?thesis by (simp add: file_nonces_def)
qed

text \<open>
  A full store breaks replay protection: when 10000 newer nonces are alive, a nonce with an
  older time stamp is accepted and dropped at once, leaving the store as it was, so the same
  request is accepted again and again.
\<close>

theorem full_store_accepts_replays:
  assumes "length m = DEFAULT_MAX_NONCE_ENTRIES" and "nonce \<notin> fst ` set m"
    and "\<forall>kv \<in> set m. seen_at < snd kv" and "now - seconds ttl \<le> seen_at"
  shows "verify_and_store_nonce Written (Nonces m) nonce seen_at now ttl = (Nonces m, Inr ())"
  using full_store_forgets [OF assms] by (simp add: verify_and_store_nonce_def)

theorem full_store_accepts_replays_witness:
  "verify_and_store_nonce Written (Nonces (map (\<lambda>i. (replicate i (CHR ''a''), 5)) [0..<10000])) ''n'' 4 5 300
     = (Nonces (map (\<lambda>i. (replicate i (CHR ''a''), 5)) [0..<10000]), Inr ())"
proof (rule full_store_accepts_replays)
  have "''n'' \<noteq> replicate i (CHR ''a'')" for i by (cases i) auto
  then have "''n'' \<notin> range (\<lambda>i. replicate i (CHR ''a''))" by blast
  then show "''n'' \<notin> fst ` set (map (\<lambda>i. (replicate i (CHR ''a''), 5)) [0..<10000])"
    unfolding set_map image_image fst_conv by blast
qed (simp_all add: DEFAULT_MAX_NONCE_ENTRIES_def seconds_def)

text \<open>
  C12. Signed requests round trip: what a client creates for a payload, a server with the
  matching policy accepts for this payload within the clock skew, given a fresh nonce and a
  signer document that publishes the client's key for assertion.
\<close>

theorem created_envelope_accepted:
  assumes "codecs_ok X" and "schemes_ok X" and "signing_key_ok X (in_signing_key i)"
    and "in_payload i = Some v" and "in_method i = tp_expected_method policy"
    and "in_path i = tp_expected_path policy" and "in_purpose i = tp_expected_purpose policy"
    and "in_aud i = tp_expected_audience policy"
    and "\<bar>num_seconds (now' - now)\<bar> \<le> tp_max_clock_skew_seconds policy"
    and "in_nonce i \<notin> set (keys m)"
    and "find_relationship_method d AssertionMethod (Some (in_verification_method i)) = Inr vm"
    and "verifying_key_from_method X vm = Inr (verifying_key_of X (in_signing_key i))"
  shows "\<exists>e. create_signed_request_envelope X now i = Inr e
    \<and> snd (verify_signed_request_envelope X Written (Nonces m) e (Some v) signer d policy now')
        = Inr \<lparr>tc_signer_did = signer, tc_verification_method = vm_id vm,
               tc_request_id = in_request_id i\<rparr>"
proof -
  have "in_nonce i \<notin> set (keys (retain_since c m))" for c
    using assms(10) by (auto simp: retain_since_def)
  then have "\<exists>m'. store_nonce m (in_nonce i) now now' ttl = Inr m'" for ttl
    by (simp add: store_nonce_def Let_def)
  then obtain m' where "store_nonce m (in_nonce i) now now' (tp_nonce_ttl_seconds policy) = Inr m'"
    by blast
  then have "verify_signed_request_envelope X Written (Nonces m) (proved_envelope X now i v) (Some v) signer d policy now'
      = (Nonces m', verify_envelope_signature X (proved_envelope X now i v) (Some v) signer d)"
    using assms(5-9)
    by (simp add: verify_signed_request_envelope_def verify_and_store_nonce_def verify_freshness_def
        Let_def) (simp add: proved_envelope_def unproved_envelope_def)
  then show ?thesis
    using create_signed_request_envelope_eq [OF assms(1,4)] proved_envelope_verifies [OF assms(1-3,11,12) refl]
    by simp
qed

theorem created_envelope_accepted_witness:
  "\<exists>e. create_signed_request_envelope demo_externs 0 demo_input = Inr e
    \<and> snd (verify_signed_request_envelope demo_externs Written (Nonces []) e (Some JNull) demo_did
        demo_document demo_policy 5)
      = Inr \<lparr>tc_signer_did = demo_did, tc_verification_method = key_1 demo_did, tc_request_id = ''1''\<rparr>"
proof -
  let ?vm = "hd (dd_verification_method demo_document)"
  have "find_relationship_method demo_document AssertionMethod (Some (in_verification_method demo_input)) = Inr ?vm"
    "verifying_key_from_method demo_externs ?vm = Inr (verifying_key_of demo_externs (in_signing_key demo_input))"
    using demo_signer by (simp_all add: demo_input_def)
  from created_envelope_accepted [OF demo_codecs demo_schemes _ _ _ _ _ _ _ _ this, of JNull demo_policy 5 0 "[]" demo_did]
  show ?thesis
    by (simp add: demo_input_def demo_policy_def demo_sk_def num_seconds_def demo_document_def)
qed

text \<open>
  Registration bindings round trip: the claims built for a challenge verify for its
  subject, registrar, purpose and the same hash, and verify for no other values.
\<close>

theorem registration_binding_roundtrip:
  assumes "sb_challenge bundle = c" and "sb_proof_hash bundle \<in> {None, Some proof_hash}"
  shows "verify_registration_binding_claims
           (build_registration_binding_claims X document_hash c proof_hash verified_at)
           subject hash registrar purpose bundle = Inr () \<longleftrightarrow>
         subject = dc_subject_did c \<and> hash = document_hash \<and> registrar = dc_registrar_did c
         \<and> purpose = dc_purpose c"
proof -
  let ?claims = "build_registration_binding_claims X document_hash c proof_hash verified_at"
  obtain b where b: "json_get ''registrationBinding'' ?claims = Some b"
    and get: "\<And>k. json_get k b = map_of [(''flow'', JString REGISTRATION_FLOW), (''draftId'', JString (dc_draft_id c)),
          (''challengeId'', JString (dc_challenge_id c)), (''subjectDid'', JString (dc_subject_did c)),
          (''registrarDid'', JString (dc_registrar_did c)), (''purpose'', JString (dc_purpose c)),
          (''verificationMethod'', JString (dc_verification_method c)),
          (''proofHash'', JString proof_hash), (''verifiedAt'', JString (time_text X verified_at))] k"
    by (simp add: build_registration_binding_claims_def json_get_object)
  have "json_get_str ''didDocumentHash'' ?claims = Some document_hash"
    by (simp add: build_registration_binding_claims_def json_get_str_def json_get_object json_as_str_def)
  note bound = binding_claims_iff [OF this b, of "subject" "hash" "registrar" "purpose" "bundle"]
  show ?thesis
    unfolding bound assms(1) json_get_str_def get using assms(2) by (auto simp: json_as_str_def)
qed

theorem registration_binding_roundtrip_witness:
  "let c = create_did_control_challenge 0 ''d'' demo_did ''h'' demo_did (key_1 demo_did)
         \<lparr>dp_challenge_ttl_seconds = 60, dp_challenge_purpose = ''p''\<rparr> ''n'' in
   verify_registration_binding_claims (build_registration_binding_claims demo_externs ''h'' c ''ph'' 5)
     demo_did ''h'' demo_did ''p'' \<lparr>sb_challenge = c, sb_proof = demo_proof, sb_verified_at = None,
       sb_verified_verification_method = None, sb_proof_hash = Some ''ph''\<rparr> = Inr ()"
  unfolding Let_def
  by (rule iffD2 [OF registration_binding_roundtrip]) (simp_all add: create_did_control_challenge_def)

text \<open>
  C40. A controller's DID Document with private key material anywhere in its serialisation, at
  any depth, is rejected; every other serialisable document passes this check.
\<close>

theorem private_key_material_rejected:
  "reject_private_key_material X d = Inr () \<longleftrightarrow>
     (\<exists>v. did_document_json X d = Some v \<and> \<not> (\<exists>k. k \<in> set PRIVATE_KEY_MEMBERS \<and> has_member k v))"
  by (auto simp: reject_private_key_material_def contains_private_key_iff)

text \<open>
  C32. A controller authorisation is accepted only for the expected resource, controller,
  publisher, hashes, registrar and purpose, within its time window, and with a 64-byte
  signature over the canonical challenge that checks under the key of a method which the
  controller's own document publishes for capability invocation or assertion.
\<close>

theorem controller_authorization_sound:
  assumes "verify_controller_authorization_proof X b x = Inr method_id"
  shows "\<exists>m vk input e sig. let c = cb_challenge b; d = cb_controller_did_document b in
     cc_resource_did c = cx_expected_resource_did x \<and> cc_controller_did c = cx_expected_controller_did x
     \<and> cc_publisher_did c = cx_expected_publisher_did x
     \<and> cc_did_document_hash c = cx_expected_did_document_hash x
     \<and> cc_metadata_hash c = cx_expected_metadata_hash x \<and> cc_registrar_did c = cx_expected_registrar_did x
     \<and> cc_purpose c = cx_expected_purpose x \<and> cx_now x \<le> cc_expires_at c
     \<and> cc_issued_at c \<le> cx_now x + seconds (cx_max_clock_skew_seconds x)
     \<and> dd_id d = cc_controller_did c \<and> m \<in> set (dd_verification_method d)
     \<and> vm_id m = method_id \<and> method_id = cc_verification_method c \<and> vm_controller m = dd_id d
     \<and> method_id \<in> set (dd_capability_invocation d) \<union> set (dd_assertion_method d)
     \<and> verifying_key_from_method X m = Inr vk
     \<and> signature_input X (verifying_key_suite vk) (Some (controller_challenge_json X c)) = Inr input
     \<and> pf_value (cb_proof b) = CHR ''z'' # e \<and> b58_decode X e = Some sig \<and> length sig = 64
     \<and> check_signature X vk input sig = Inr ()"
proof -
  let ?c = "cb_challenge b" and ?d = "cb_controller_did_document b"
  from assms obtain m vk where *:
    "cc_resource_did ?c = cx_expected_resource_did x" "cc_controller_did ?c = cx_expected_controller_did x"
    "cc_publisher_did ?c = cx_expected_publisher_did x"
    "cc_did_document_hash ?c = cx_expected_did_document_hash x"
    "cc_metadata_hash ?c = cx_expected_metadata_hash x" "cc_registrar_did ?c = cx_expected_registrar_did x"
    "cc_purpose ?c = cx_expected_purpose x" "cx_now x \<le> cc_expires_at ?c"
    "cc_issued_at ?c \<le> cx_now x + seconds (cx_max_clock_skew_seconds x)"
    "dd_id ?d = cx_expected_controller_did x" "controller_method ?d (cc_verification_method ?c) = Inr m"
    "vm_controller m = cx_expected_controller_did x" "verifying_key_from_method X m = Inr vk"
    "verify_payload_with_proof X (Some (controller_challenge_json X ?c)) (cb_proof b) vk = Inr ()"
    "vm_id m = method_id"
    unfolding verify_controller_authorization_proof_def Let_def
    by (auto split: if_split_asm simp: not_less)
  from *(11) have "m \<in> set (dd_verification_method ?d) \<and> vm_id m = cc_verification_method ?c
     \<and> vm_id m \<in> set (dd_capability_invocation ?d) \<union> set (dd_assertion_method ?d)"
    by (auto simp: controller_method_def split: sum.splits dest!: find_relationship_method_InrD)
  with * verify_payload_with_proof_InrD [OF *(14)] show ?thesis
    unfolding verify_bytes_multibase_iff Let_def by auto
qed

definition demo_controller_challenge :: controller_authorization_challenge where
  "demo_controller_challenge = create_controller_authorization_challenge 0
     \<lparr>ki_resource_did = demo_did, ki_controller_did = demo_did, ki_publisher_did = None,
      ki_did_document_hash = ''h'', ki_metadata_hash = ''m'', ki_registrar_did = demo_did,
      ki_verification_method = key_1 demo_did, ki_ttl_seconds = 0, ki_nonce = ''n''\<rparr>"

definition demo_controller_bundle :: controller_authorization_proof_bundle where
  "demo_controller_bundle = \<lparr>cb_challenge = demo_controller_challenge,
     cb_controller_did_document = demo_document,
     cb_proof = (case build_data_integrity_proof demo_externs 0
        (Some (controller_challenge_json demo_externs demo_controller_challenge)) demo_did
        (key_1 demo_did) demo_sk of Inr p \<Rightarrow> p)\<rparr>"

definition demo_controller_context :: controller_authorization_verification_context where
  "demo_controller_context = \<lparr>cx_expected_resource_did = demo_did, cx_expected_controller_did = demo_did,
     cx_expected_publisher_did = None, cx_expected_did_document_hash = ''h'',
     cx_expected_metadata_hash = ''m'', cx_expected_registrar_did = demo_did,
     cx_expected_purpose = PURPOSE_CONTROLLER_AUTHORIZATION_REGISTRATION,
     cx_max_clock_skew_seconds = 60, cx_now = 0\<rparr>"

theorem controller_authorization_sound_witness:
  "\<exists>m. m \<in> set (dd_verification_method demo_document) \<and> vm_id m = key_1 demo_did"
proof -
  have "verify_controller_authorization_proof demo_externs demo_controller_bundle demo_controller_context
          = Inr (key_1 demo_did)"
    by code_simp
  from controller_authorization_sound [OF this] show ?thesis
    by (auto simp: Let_def demo_controller_bundle_def)
qed

section \<open>Two gaps of the envelope check\<close>

text \<open>
  The nonce is stored before the signature is checked: a forged copy of a request with an
  invalid signature is refused, and so is the genuine request that follows it.
\<close>

definition forged_request :: upstream_request where
  "forged_request = (demo_request 0)\<lparr>rq_envelope := demo_envelope\<lparr>sr_proof :=
     (sr_proof demo_envelope)\<lparr>pf_value := CHR ''z'' # replicate 64 (CHR ''x'')\<rparr>\<rparr>\<rparr>"

theorem forged_request_burns_nonce:
  "\<exists>f. handle demo_externs demo_policy NoFile forged_request = (f, Inl ''trusted_upstream_signature_invalid'')
     \<and> handle demo_externs demo_policy f (demo_request 5) = (f, Inl ''trusted_upstream_nonce_replayed'')
     \<and> is_ok (snd (handle demo_externs demo_policy NoFile (demo_request 5)))"
proof (intro exI conjI)
  show "handle demo_externs demo_policy NoFile forged_request
          = (Nonces [(''n'', 0)], Inl ''trusted_upstream_signature_invalid'')"
    by code_simp
  show "handle demo_externs demo_policy (Nonces [(''n'', 0)]) (demo_request 5)
          = (Nonces [(''n'', 0)], Inl ''trusted_upstream_nonce_replayed'')"
    by (simp add: handle_def demo_request_def demo_envelope_eq verify_signed_request_envelope_def demo_fields
        demo_policy_def verify_freshness_def verify_and_store_nonce_def store_nonce_def retain_since_def
        num_seconds_def seconds_def)
  show "is_ok (snd (handle demo_externs demo_policy NoFile (demo_request 5)))"
    using demo_request_accepted [of 5] by (simp add: seconds_def)
qed

text \<open>
  A write of the store that fails part-way blocks it: the file does not parse any more, and every later
  request is refused, whatever it is.
\<close>

lemma unreadable_refuses:
  "\<exists>e. handle X policy Unreadable q = (Unreadable, Inl e)"
proof (cases "handle X policy Unreadable q")
  case (Pair f r)
  then show ?thesis by (cases rule: handle_cases) (simp_all add: Pair)
qed

lemma unreadable_stays: "handle_all X policy Unreadable qs = Unreadable"
proof (induction qs)
  case (Cons q qs)
  with unreadable_refuses [of X policy q] show ?case by auto
qed simp

theorem torn_write_blocks_store:
  assumes "store_nonce m nonce seen_at now ttl = Inr m'"
  shows "fst (verify_and_store_nonce Torn (Nonces m) nonce seen_at now ttl) = Unreadable
    \<and> (\<exists>e. handle X policy (handle_all X policy Unreadable qs) q = (Unreadable, Inl e))"
  unfolding unreadable_stays using assms unreadable_refuses by (simp add: verify_and_store_nonce_def)

theorem torn_write_blocks_store_witness:
  "\<exists>e. handle demo_externs demo_policy
     (fst (verify_and_store_nonce Torn (Nonces []) ''m'' 0 0 300)) (demo_request 5) = (Unreadable, Inl e)"
proof -
  have "store_nonce [] ''m'' 0 0 300 = Inr [(''m'', 0)]" by code_simp
  from torn_write_blocks_store [OF this, of demo_externs demo_policy "[]" "demo_request 5"]
  show ?thesis by simp
qed

text \<open>
  With a time to live equal to the clock skew a request can be replayed within a second after
  its nonce expires, because the skew is truncated to whole seconds.
\<close>

theorem equal_ttl_and_skew_allow_replay:
  "let policy = demo_policy\<lparr>tp_nonce_ttl_seconds := 60\<rparr>;
       f = fst (handle demo_externs policy NoFile (demo_request 0)) in
   is_ok (snd (handle demo_externs policy NoFile (demo_request 0)))
   \<and> is_ok (snd (handle demo_externs policy f (demo_request (seconds 60 + 500000000))))"
  by (simp add: Let_def handle_def demo_request_def demo_envelope_eq verify_signed_request_envelope_def
      demo_fields demo_policy_def verify_freshness_def verify_and_store_nonce_def store_nonce_def
      retain_since_def prune_nonce_store_def DEFAULT_MAX_NONCE_ENTRIES_def num_seconds_def seconds_def
      demo_signature)

end
