(* ===== verification/Registration.thy ===== *)
theory Registration
  imports Security
begin

text \<open>
  The honest run of a registration through \<open>crates/oan-service-security\<close>: challenges that a registrar
  creates and proofs that the subject and the controller build for them. When they are accepted, and
  for how long, is stated exactly.
\<close>

section \<open>What the parties make\<close>

text \<open>The subject signs the challenge of the registrar; nothing has been verified yet.\<close>

definition subject_bundle ::
  "externs \<Rightarrow> datetime \<Rightarrow> did_control_challenge \<Rightarrow> string \<Rightarrow> signing_key \<Rightarrow> subject_control_proof_bundle" where
  "subject_bundle X signed_at c creator sk =
     \<lparr>sb_challenge = c,
      sb_proof = built_proof X signed_at (did_control_challenge_json X c) creator (dc_verification_method c) sk,
      sb_verified_at = None, sb_verified_verification_method = None, sb_proof_hash = None\<rparr>"

definition controller_bundle ::
  "externs \<Rightarrow> datetime \<Rightarrow> controller_authorization_challenge \<Rightarrow> did_document \<Rightarrow> string \<Rightarrow> signing_key
     \<Rightarrow> controller_authorization_proof_bundle" where
  "controller_bundle X signed_at c d creator sk =
     \<lparr>cb_challenge = c, cb_controller_did_document = d,
      cb_proof = built_proof X signed_at (controller_challenge_json X c) creator (cc_verification_method c) sk\<rparr>"

text \<open>The verifier expects what the challenge was created for.\<close>

definition expects_controller_challenge ::
  "controller_authorization_verification_context \<Rightarrow> controller_challenge_input \<Rightarrow> bool" where
  "expects_controller_challenge x i \<longleftrightarrow>
     cx_expected_resource_did x = ki_resource_did i \<and> cx_expected_controller_did x = ki_controller_did i
     \<and> cx_expected_publisher_did x = ki_publisher_did i
     \<and> cx_expected_did_document_hash x = ki_did_document_hash i
     \<and> cx_expected_metadata_hash x = ki_metadata_hash i \<and> cx_expected_registrar_did x = ki_registrar_did i
     \<and> cx_expected_purpose x = PURPOSE_CONTROLLER_AUTHORIZATION_REGISTRATION"

section \<open>When they are accepted\<close>

text \<open>
  C33. An honest authorisation by the controller is accepted exactly while its challenge is alive: from
  the clock skew before it was issued until its time to live has passed. A blank nonce or a negative
  time to live makes a challenge that nobody can meet.
\<close>

theorem honest_controller_window:
  assumes "codecs_ok X" and "schemes_ok X" and "signing_key_ok X sk"
    and "expects_controller_challenge x i"
    and "dd_id d = ki_controller_did i" and "reject_private_key_material X d = Inr ()"
    and "controller_method d (ki_verification_method i) = Inr m" and "vm_controller m = ki_controller_did i"
    and "verifying_key_from_method X m = Inr (verifying_key_of X sk)"
    and "creator \<in> {ki_controller_did i, ki_verification_method i}"
  shows "verify_controller_authorization_proof X
      (controller_bundle X signed_at (create_controller_authorization_challenge issued_at i) d creator sk) x
        = Inr (vm_id m)
    \<longleftrightarrow> \<not> is_blank (ki_nonce i) \<and> 0 \<le> ki_ttl_seconds i
      \<and> issued_at \<le> cx_now x + seconds (cx_max_clock_skew_seconds x)
      \<and> cx_now x \<le> issued_at + seconds (ki_ttl_seconds i)"
proof -
  note honest = verify_built_proof [OF assms(1-3)]
  have "0 \<le> seconds (ki_ttl_seconds i) \<longleftrightarrow> 0 \<le> ki_ttl_seconds i" by (simp add: seconds_def zero_le_mult_iff)
  then show ?thesis
    using assms(4-10)
    by (auto simp: verify_controller_authorization_proof_def Let_def controller_bundle_def
        expects_controller_challenge_def create_controller_authorization_challenge_def
        relationship_as_str_def honest)
qed

definition demo_challenge_input :: controller_challenge_input where
  "demo_challenge_input = \<lparr>ki_resource_did = demo_did, ki_controller_did = demo_did, ki_publisher_did = None,
      ki_did_document_hash = ''h'', ki_metadata_hash = ''m'', ki_registrar_did = demo_did,
      ki_verification_method = key_1 demo_did, ki_ttl_seconds = 300, ki_nonce = ''n''\<rparr>"

lemma demo_method:
  fixes m defines "m \<equiv> hd (dd_verification_method demo_document)"
  shows "controller_method demo_document (key_1 demo_did) = Inr m" and "vm_controller m = demo_did"
  unfolding m_def by code_simp+

theorem honest_controller_window_witness:
  "verify_controller_authorization_proof demo_externs
     (controller_bundle demo_externs 0 (create_controller_authorization_challenge 0 demo_challenge_input)
        demo_document demo_did demo_sk) demo_controller_context = Inr (key_1 demo_did)"
proof -
  have "reject_private_key_material demo_externs demo_document = Inr ()" by code_simp
  moreover have "dd_id demo_document = demo_did" by (simp add: demo_document_def)
  moreover have "\<not> is_blank ''n''" by code_simp
  ultimately show ?thesis
    using honest_controller_window [OF demo_codecs demo_schemes demo_sk_ok,
        of demo_controller_context demo_challenge_input demo_document "hd (dd_verification_method demo_document)"
        demo_did 0 0] demo_method demo_signer
    by (simp add: expects_controller_challenge_def demo_controller_context_def demo_challenge_input_def
        seconds_def)
qed

text \<open>
  An honest proof of control over the subject is accepted exactly until its challenge expires, and the
  binding claims that the registrar writes for the challenge are accepted with the proof by everybody
  who checks them for the same subject, document, registrar and purpose.
\<close>

theorem honest_subject_registered:
  assumes "codecs_ok X" and "schemes_ok X" and "signing_key_ok X sk"
    and "c = create_did_control_challenge issued_at draft_id subject_did hash registrar_did method_id policy nonce"
    and "dx_expected_subject_did x = subject_did" and "dx_expected_did_document_hash x = hash"
    and "dx_expected_registrar_did x = registrar_did" and "dx_expected_purpose x = dp_challenge_purpose policy"
    and "find_relationship_method d AssertionMethod (Some method_id) = Inr m"
    and "verifying_key_from_method X m = Inr (verifying_key_of X sk)"
  shows "(verify_subject_control_proof X (subject_bundle X signed_at c creator sk) d x = Inr (vm_id m)
      \<longleftrightarrow> dx_now x \<le> issued_at + seconds (dp_challenge_ttl_seconds policy))
    \<and> verify_registration_binding_claims (build_registration_binding_claims X hash c proof_hash verified_at)
        subject_did hash registrar_did (dp_challenge_purpose policy)
        ((subject_bundle X signed_at c creator sk)\<lparr>sb_proof_hash := Some proof_hash\<rparr>) = Inr ()"
proof
  show "verify_subject_control_proof X (subject_bundle X signed_at c creator sk) d x = Inr (vm_id m)
      \<longleftrightarrow> dx_now x \<le> issued_at + seconds (dp_challenge_ttl_seconds policy)"
    using assms(5-10) verify_built_proof [OF assms(1-3)]
    by (auto simp: verify_subject_control_proof_def Let_def subject_bundle_def assms(4)
        create_did_control_challenge_def)
  show "verify_registration_binding_claims (build_registration_binding_claims X hash c proof_hash verified_at)
        subject_did hash registrar_did (dp_challenge_purpose policy)
        ((subject_bundle X signed_at c creator sk)\<lparr>sb_proof_hash := Some proof_hash\<rparr>) = Inr ()"
    by (rule iffD2 [OF registration_binding_roundtrip])
      (simp_all add: subject_bundle_def assms(4) create_did_control_challenge_def)
qed

definition demo_control_policy :: did_control_policy where
  "demo_control_policy = \<lparr>dp_challenge_ttl_seconds = 60, dp_challenge_purpose = ''p''\<rparr>"

theorem honest_subject_registered_witness:
  "verify_subject_control_proof demo_externs
     (subject_bundle demo_externs 0 (create_did_control_challenge 0 ''d'' demo_did ''h'' demo_did
        (key_1 demo_did) demo_control_policy ''n'') demo_did demo_sk) demo_document
     \<lparr>dx_expected_subject_did = demo_did, dx_expected_did_document_hash = ''h'',
      dx_expected_registrar_did = demo_did, dx_expected_purpose = ''p'', dx_now = seconds 60\<rparr>
   = Inr (key_1 demo_did)"
  using honest_subject_registered [where X = demo_externs and sk = demo_sk and issued_at = 0 and signed_at = 0
      and draft_id = "''d''" and subject_did = demo_did and hash = "''h''" and registrar_did = demo_did
      and method_id = "key_1 demo_did" and policy = demo_control_policy and nonce = "''n''" and creator = demo_did
      and x = "\<lparr>dx_expected_subject_did = demo_did, dx_expected_did_document_hash = ''h'',
        dx_expected_registrar_did = demo_did, dx_expected_purpose = ''p'', dx_now = seconds 60\<rparr>"
      and d = demo_document and m = "hd (dd_verification_method demo_document)",
      OF demo_codecs demo_schemes demo_sk_ok refl] demo_signer
  by (simp add: demo_control_policy_def)

end
