(* ===== verification/Storage.thy ===== *)
theory Storage
  imports Prelude
begin

text \<open>
  Crate \<open>oan-storage\<close>, what its stores share: the errors, the query limits, the choice of the
  backend from the database URL, the pool settings read from the environment, and the table
  names that may be spliced into SQL text. The environment is an argument. \<open>usize\<close> is a natural
  number whose saturating addition stops at \<open>2 ^ 64 - 1\<close>.
\<close>

datatype storage_error =
    StorageIo | StorageJson | StorageSql | UnsupportedDatabaseUrl | EmptyDatabasePath
  | PageLimitExceeded "32 word" "32 word" | RecordTooLarge nat nat | PageTooLarge nat nat
  | PageScanTooLarge nat nat | InvalidQueryLimits string

section \<open>Query limits\<close>

definition DEFAULT_PAGE_SIZE :: "32 word" where "DEFAULT_PAGE_SIZE = 100"
definition MAX_PAGE_SIZE :: "32 word" where "MAX_PAGE_SIZE = 500"
definition DEFAULT_MAX_RECORD_BYTES :: nat where "DEFAULT_MAX_RECORD_BYTES = 1024 * 1024"
definition DEFAULT_MAX_PAGE_BYTES :: nat where "DEFAULT_MAX_PAGE_BYTES = 8 * 1024 * 1024"
definition DEFAULT_MAX_JSON_SCAN_ENTRIES :: nat where "DEFAULT_MAX_JSON_SCAN_ENTRIES = 10000"

record query_limits =
  default_page_size :: "32 word"
  max_page_size :: "32 word"
  max_record_bytes :: nat
  max_page_bytes :: nat
  max_json_scan_entries :: nat

definition default_query_limits :: query_limits where
  "default_query_limits = \<lparr>default_page_size = DEFAULT_PAGE_SIZE, max_page_size = MAX_PAGE_SIZE,
     max_record_bytes = DEFAULT_MAX_RECORD_BYTES, max_page_bytes = DEFAULT_MAX_PAGE_BYTES,
     max_json_scan_entries = DEFAULT_MAX_JSON_SCAN_ENTRIES\<rparr>"

definition validate_limits :: "query_limits \<Rightarrow> storage_error + unit" where
  "validate_limits l =
     (if default_page_size l = 0
      then Inl (InvalidQueryLimits ''default page size must be greater than zero'')
      else if max_page_size l = 0
      then Inl (InvalidQueryLimits ''maximum page size must be greater than zero'')
      else if default_page_size l > max_page_size l
      then Inl (InvalidQueryLimits ''default page size must not exceed maximum page size'')
      else if max_record_bytes l = 0
      then Inl (InvalidQueryLimits ''maximum record bytes must be greater than zero'')
      else if max_page_bytes l = 0
      then Inl (InvalidQueryLimits ''maximum page bytes must be greater than zero'')
      else if max_json_scan_entries l = 0
      then Inl (InvalidQueryLimits ''maximum json scan entries must be greater than zero'')
      else Inr ())"

definition normalize_limit :: "query_limits \<Rightarrow> 32 word option \<Rightarrow> storage_error + 32 word" where
  "normalize_limit l requested =
     rbind (validate_limits l) (\<lambda>_.
     let limit = (case requested of None \<Rightarrow> default_page_size l | Some n \<Rightarrow> n) in
     if limit = 0 then Inr (default_page_size l)
     else if limit > max_page_size l then Inl (PageLimitExceeded limit (max_page_size l))
     else Inr limit)"

definition saturating_add :: "nat \<Rightarrow> nat \<Rightarrow> nat" where
  "saturating_add a b = min (a + b) (2 ^ 64 - 1)"

lemma saturating_add_code [code]:
  "saturating_add a b = nat (min (int a + int b) (2 ^ 64 - 1))"
  by (auto simp: saturating_add_def min_def nat_add_distrib)

text \<open>The limits that pass the validation.\<close>

definition limits_ok :: "query_limits \<Rightarrow> bool" where
  "limits_ok l \<longleftrightarrow> 0 < default_page_size l \<and> default_page_size l \<le> max_page_size l
     \<and> 0 < max_record_bytes l \<and> 0 < max_page_bytes l \<and> 0 < max_json_scan_entries l"

lemma validate_limits_ok: "validate_limits l = Inr () \<longleftrightarrow> limits_ok l"
  unfolding validate_limits_def limits_ok_def
  by (auto simp: word_gt_0 not_less)

lemma normalize_limit_Inr_iff:
  "normalize_limit l requested = Inr n \<longleftrightarrow> limits_ok l \<and>
     (case requested of None \<Rightarrow> n = default_page_size l
      | Some k \<Rightarrow> n = (if k = 0 then default_page_size l else k) \<and> k \<le> max_page_size l)"
  by (cases requested)
    (auto simp: normalize_limit_def validate_limits_ok Let_def limits_ok_def not_less
      split: if_split_asm)

lemma normalize_limit_bounds:
  "normalize_limit l requested = Inr n \<Longrightarrow> 0 < unat n \<and> n \<le> max_page_size l"
  by (auto simp: normalize_limit_Inr_iff limits_ok_def unat_gt_0 split: option.splits if_splits)

text \<open>The page size that the limits give.\<close>

definition page_size :: "query_limits \<Rightarrow> 32 word option \<Rightarrow> nat" where
  "page_size limits requested =
     (case normalize_limit limits requested of Inl e \<Rightarrow> 0 | Inr l \<Rightarrow> unat l)"

section \<open>Backends\<close>

datatype database_backend = Sqlite | Postgres

record database_config =
  dc_backend :: database_backend
  dc_url :: string
  dc_path :: "string option"

definition parse_database_config :: "string \<Rightarrow> storage_error + database_config" where
  "parse_database_config url =
     (case (case strip_prefix ''sqlite://'' url of
              Some p \<Rightarrow> Some p | None \<Rightarrow> strip_prefix ''sqlite:'' url) of
        Some raw_path \<Rightarrow>
          if raw_path = [] then Inl EmptyDatabasePath
          else Inr \<lparr>dc_backend = Sqlite, dc_url = url, dc_path = Some raw_path\<rparr>
      | None \<Rightarrow>
          if starts_with url ''postgres://'' \<or> starts_with url ''postgresql://''
          then Inr \<lparr>dc_backend = Postgres, dc_url = url, dc_path = None\<rparr>
          else Inl UnsupportedDatabaseUrl)"

text \<open>The URL decides the backend; a blank path of SQLite and every other scheme are refused.\<close>

lemma parse_database_config_iff:
  "parse_database_config url = Inr config \<longleftrightarrow>
     (\<exists>path. path \<noteq> [] \<and> (url = ''sqlite://'' @ path \<or> url = ''sqlite:'' @ path \<and> \<not> starts_with path ''//'')
        \<and> config = \<lparr>dc_backend = Sqlite, dc_url = url, dc_path = Some path\<rparr>)
   \<or> (starts_with url ''postgres://'' \<or> starts_with url ''postgresql://'')
        \<and> config = \<lparr>dc_backend = Postgres, dc_url = url, dc_path = None\<rparr>"
proof (cases "strip_prefix ''sqlite://'' url")
  case (Some path)
  then have "url = ''sqlite://'' @ path" by (simp add: strip_prefix_Some_iff)
  then show ?thesis by (auto simp: parse_database_config_def starts_with_iff)
next
  case None
  show ?thesis
  proof (cases "strip_prefix ''sqlite:'' url")
    case (Some path)
    then have url: "url = ''sqlite:'' @ path" by (simp add: strip_prefix_Some_iff)
    with None have "\<not> starts_with path ''//''" by (simp add: starts_with_def)
    with None Some url show ?thesis by (auto simp: parse_database_config_def starts_with_def)
  next
    case other: None
    then have "\<nexists>path. url = ''sqlite:'' @ path" "\<nexists>path. url = ''sqlite://'' @ path"
      using None strip_prefix_Some_iff by (metis option.distinct(1))+
    with None other show ?thesis by (auto simp: parse_database_config_def)
  qed
qed

text \<open>\<open>str::parse::<u32>\<close> and \<open><u64>\<close>: an optional plus sign, then digits in range.\<close>

fun digits_value :: "nat \<Rightarrow> string \<Rightarrow> nat option" where
  "digits_value acc [] = Some acc"
| "digits_value acc (c # cs) =
     (if 48 \<le> byte c \<and> byte c \<le> 57 then digits_value (10 * acc + (byte c - 48)) cs else None)"

definition parse_unsigned :: "nat \<Rightarrow> string \<Rightarrow> nat option" where
  "parse_unsigned bits s =
     (let ds = (case strip_prefix ''+'' s of Some r \<Rightarrow> r | None \<Rightarrow> s) in
      if ds = [] then None
      else (case digits_value 0 ds of
              None \<Rightarrow> None | Some v \<Rightarrow> if v < 2 ^ bits then Some v else None))"

definition configured_pool_max_connections ::
  "(string \<Rightarrow> string option) \<Rightarrow> string \<Rightarrow> 32 word \<Rightarrow> 32 word" where
  "configured_pool_max_connections env env_key default_value =
     (case Option.bind (env env_key) (parse_unsigned 32) of
        Some v \<Rightarrow> if v > 0 then word_of_nat v else default_value
      | None \<Rightarrow> default_value)"

definition configured_pool_timeout_seconds ::
  "(string \<Rightarrow> string option) \<Rightarrow> string \<Rightarrow> 64 word \<Rightarrow> 64 word" where
  "configured_pool_timeout_seconds env env_key default_value =
     (case Option.bind (env env_key) (parse_unsigned 64) of
        Some v \<Rightarrow> if v > 0 then word_of_nat v else default_value
      | None \<Rightarrow> default_value)"

text \<open>
  What the connectors ask of the database library. The host creates the directory of the database
  file, and the library reads the options from the URL; either may fail.
\<close>

record pool_request =
  pr_backend :: database_backend
  pr_url :: string
  pr_max_connections :: "32 word"
  pr_acquire_timeout_seconds :: "64 word"

record sqlite_host =
  sh_create_parent :: "string \<Rightarrow> bool"
  sh_options :: "string \<Rightarrow> bool"

definition sqlite_request ::
  "sqlite_host \<Rightarrow> (string \<Rightarrow> string option) \<Rightarrow> string \<Rightarrow> storage_error + pool_request" where
  "sqlite_request H env url =
     rbind (parse_database_config url) (\<lambda>config.
     if dc_backend config \<noteq> Sqlite then Inl UnsupportedDatabaseUrl
     else rbind (ok_or (dc_path config) EmptyDatabasePath) (\<lambda>path.
       if \<not> sh_create_parent H path then Inl StorageIo
       else if \<not> sh_options H (dc_url config) then Inl StorageSql
       else Inr \<lparr>pr_backend = Sqlite, pr_url = dc_url config,
            pr_max_connections = configured_pool_max_connections env ''OAN_SQLITE_MAX_CONNECTIONS'' 32,
            pr_acquire_timeout_seconds =
              configured_pool_timeout_seconds env ''OAN_SQLITE_ACQUIRE_TIMEOUT_SECONDS'' 30\<rparr>))"

definition postgres_request ::
  "(string \<Rightarrow> string option) \<Rightarrow> string \<Rightarrow> storage_error + pool_request" where
  "postgres_request env url =
     rbind (parse_database_config url) (\<lambda>config.
     if dc_backend config \<noteq> Postgres then Inl UnsupportedDatabaseUrl
     else Inr \<lparr>pr_backend = Postgres, pr_url = dc_url config,
          pr_max_connections = configured_pool_max_connections env ''OAN_POSTGRES_MAX_CONNECTIONS'' 8,
          pr_acquire_timeout_seconds =
            configured_pool_timeout_seconds env ''OAN_POSTGRES_ACQUIRE_TIMEOUT_SECONDS'' 30\<rparr>)"

text \<open>SQL text of the caller runs on the server, which may stop in the middle of it.\<close>

definition sqlite_execute_batch ::
  "(string \<Rightarrow> 'db \<Rightarrow> 'db \<times> bool) \<Rightarrow> string \<Rightarrow> 'db \<Rightarrow> 'db \<times> (storage_error + unit)" where
  "sqlite_execute_batch run sql db =
     (case run sql db of (db', accepted) \<Rightarrow> (db', if accepted then Inr () else Inl StorageSql))"

definition postgres_execute_batch ::
  "(string \<Rightarrow> 'db \<Rightarrow> 'db \<times> bool) \<Rightarrow> string \<Rightarrow> 'db \<Rightarrow> 'db \<times> (storage_error + unit)" where
  "postgres_execute_batch run sql db =
     (case run sql db of (db', accepted) \<Rightarrow> (db', if accepted then Inr () else Inl StorageSql))"

lemma configured_pool_positive:
  "0 < d \<Longrightarrow> 0 < configured_pool_max_connections env k d"
  "0 < d' \<Longrightarrow> 0 < configured_pool_timeout_seconds env k d'"
  by (auto simp: configured_pool_max_connections_def configured_pool_timeout_seconds_def
      parse_unsigned_def Let_def word_gt_0 word_of_nat_eq_0_iff nat_dvd_not_less
      split: option.split bind_split if_split_asm)

section \<open>Identifiers in SQL text\<close>

definition validated_identifier :: "string \<Rightarrow> storage_error + string" where
  "validated_identifier v =
     (if v = [] \<or> \<not> list_all (\<lambda>ch. is_ascii_alphanumeric ch \<or> ch = CHR ''_'') v
      then Inl UnsupportedDatabaseUrl else Inr v)"

end
