(* ===== verification/JobStore.thy ===== *)
theory JobStore
  imports Storage "HOL-Library.Product_Lexorder" "HOL-Library.Multiset"
begin

text \<open>
  The leased job tables of \<open>oan-storage\<close>, for SQLite and for PostgreSQL. A store is \<open>None\<close> before
  its table exists and the list of its rows afterwards; a time is text that is compared byte by
  byte in SQLite, and what the server's type \<open>timestamptz\<close> holds in PostgreSQL, a type with a
  linear order. Each operation is one statement or one transaction, so it is one function on the
  table. Arguments stand for what the library and the server provide: the JSON codec of the
  payload type, \<open>CURRENT_TIMESTAMP\<close>, whether the commit of a transaction succeeds, and for
  PostgreSQL the cast to \<open>timestamptz\<close>, the collation (as a sort key), the rows other
  transactions have locked, the order of the returned rows and the row an ambiguous join takes.
\<close>

section \<open>Rows and statements\<close>

datatype job_status = Ready | RetryWait | Leased | Succeeded

record 't job_row =
  job_key :: string
  job_payload_json :: string
  job_status :: job_status
  job_attempt_count :: int
  job_lease_owner :: "string option"
  job_lease_expires_at :: "'t option"
  job_next_attempt_at :: 't
  job_last_error :: "string option"
  job_created_at :: 't
  job_updated_at :: 't

record 'a leased_job =
  lj_job_key :: string
  lj_payload :: 'a
  lj_attempt_count :: int

record 'a codec =
  cd_encode :: "'a \<Rightarrow> string option"
  cd_decode :: "string \<Rightarrow> 'a option"

record 't postgres =
  pg_timestamptz :: "string \<Rightarrow> 't option"
  pg_timestamp_text :: "'t \<Rightarrow> string"
  pg_collate :: "string \<Rightarrow> string"
  pg_returning :: "'t job_row list \<Rightarrow> 't job_row list"
  pg_join_pick :: "string list \<Rightarrow> string"

type_synonym 't job_store = "'t job_row list option"

text \<open>A call names a table: the name is checked, and a missing table is an SQL error.\<close>

definition on_table ::
  "string \<Rightarrow> 't job_store \<Rightarrow> ('t job_row list \<Rightarrow> 't job_row list \<times> (storage_error + 'r))
     \<Rightarrow> 't job_store \<times> (storage_error + 'r)" where
  "on_table table s f =
     (case validated_identifier table of
        Inl e \<Rightarrow> (s, Inl e)
      | Inr _ \<Rightarrow> (case s of
          None \<Rightarrow> (None, Inl StorageSql)
        | Some rows \<Rightarrow> (case f rows of (rows', r) \<Rightarrow> (Some rows', r))))"

text \<open>
  \<open>CREATE TABLE IF NOT EXISTS\<close> and its indexes. A name that passes the check may still be none in
  SQL, such as a keyword: whether the server accepts the statement is an argument.
\<close>

definition sqlite_ensure_leased_job_table ::
  "bool \<Rightarrow> string \<Rightarrow> string job_store \<Rightarrow> string job_store \<times> (storage_error + unit)" where
  "sqlite_ensure_leased_job_table accepted table s =
     (case validated_identifier table of
        Inl e \<Rightarrow> (s, Inl e)
      | Inr _ \<Rightarrow>
          if \<not> accepted then (s, Inl StorageSql)
          else (case s of None \<Rightarrow> (Some [], Inr ()) | Some rows \<Rightarrow> (Some rows, Inr ())))"

definition postgres_ensure_leased_job_table ::
  "bool \<Rightarrow> string \<Rightarrow> 't job_store \<Rightarrow> 't job_store \<times> (storage_error + unit)" where
  "postgres_ensure_leased_job_table accepted table s =
     (case validated_identifier table of
        Inl e \<Rightarrow> (s, Inl e)
      | Inr _ \<Rightarrow>
          if \<not> accepted then (s, Inl StorageSql)
          else (case s of None \<Rightarrow> (Some [], Inr ()) | Some rows \<Rightarrow> (Some rows, Inr ())))"

text \<open>The condition of the rows that may be leased at a time, and the order they are taken in.\<close>

definition may_lease :: "'t::linorder \<Rightarrow> 't job_row \<Rightarrow> bool" where
  "may_lease now r \<longleftrightarrow>
     job_status r = Ready
   \<or> (job_status r = RetryWait \<and> job_next_attempt_at r \<le> now)
   \<or> (job_status r = Leased
        \<and> (case job_lease_expires_at r of None \<Rightarrow> False | Some e \<Rightarrow> e \<le> now))"

definition schedule_key :: "(string \<Rightarrow> string) \<Rightarrow> 't job_row \<Rightarrow> 't \<times> 't \<times> string" where
  "schedule_key collate r = (job_next_attempt_at r, job_created_at r, collate (job_key r))"

definition select_ready ::
  "(string \<Rightarrow> string) \<Rightarrow> 't::linorder \<Rightarrow> 't job_row list \<Rightarrow> 't job_row list" where
  "select_ready collate now rows = sort_key (schedule_key collate) (filter (may_lease now) rows)"

definition update_where :: "('r \<Rightarrow> bool) \<Rightarrow> ('r \<Rightarrow> 'r) \<Rightarrow> 'r list \<Rightarrow> 'r list" where
  "update_where p f rows = map (\<lambda>r. if p r then f r else r) rows"

definition rows_affected :: "('r \<Rightarrow> bool) \<Rightarrow> 'r list \<Rightarrow> nat" where
  "rows_affected p rows = length (filter p rows)"

text \<open>The \<open>SET\<close> lists.\<close>

definition set_leased :: "string \<Rightarrow> 't \<Rightarrow> 't \<Rightarrow> 't job_row \<Rightarrow> 't job_row" where
  "set_leased worker_id expires clock r =
     r\<lparr>job_status := Leased, job_lease_owner := Some worker_id,
       job_lease_expires_at := Some expires, job_updated_at := clock\<rparr>"

definition set_succeeded :: "'t \<Rightarrow> 't job_row \<Rightarrow> 't job_row" where
  "set_succeeded clock r =
     r\<lparr>job_status := Succeeded, job_lease_owner := None, job_lease_expires_at := None,
       job_last_error := None, job_updated_at := clock\<rparr>"

definition set_retry :: "'t \<Rightarrow> string option \<Rightarrow> 't \<Rightarrow> 't job_row \<Rightarrow> 't job_row" where
  "set_retry next_attempt_at last_error clock r =
     r\<lparr>job_status := RetryWait, job_attempt_count := job_attempt_count r + 1,
       job_lease_owner := None, job_lease_expires_at := None,
       job_next_attempt_at := next_attempt_at, job_last_error := last_error,
       job_updated_at := clock\<rparr>"

definition set_enqueued :: "string \<Rightarrow> 't \<Rightarrow> 't \<Rightarrow> 't job_row \<Rightarrow> 't job_row" where
  "set_enqueued payload next_attempt_at clock r =
     r\<lparr>job_payload_json := payload, job_status := Ready, job_lease_owner := None,
       job_lease_expires_at := None, job_next_attempt_at := next_attempt_at,
       job_last_error := None, job_updated_at := clock\<rparr>"

definition new_job :: "string \<Rightarrow> string \<Rightarrow> 't \<Rightarrow> 't \<Rightarrow> 't job_row" where
  "new_job key payload next_attempt_at clock =
     \<lparr>job_key = key, job_payload_json = payload, job_status = Ready, job_attempt_count = 0,
      job_lease_owner = None, job_lease_expires_at = None, job_next_attempt_at = next_attempt_at,
      job_last_error = None, job_created_at = clock, job_updated_at = clock\<rparr>"

text \<open>\<open>INSERT ... ON CONFLICT(job_key) DO UPDATE\<close>\<close>

definition upsert_job ::
  "string \<Rightarrow> string \<Rightarrow> 't \<Rightarrow> 't \<Rightarrow> 't job_row list \<Rightarrow> 't job_row list" where
  "upsert_job key payload next_attempt_at clock rows =
     (if key \<in> set (map job_key rows)
      then update_where (\<lambda>r. job_key r = key) (set_enqueued payload next_attempt_at clock) rows
      else rows @ [new_job key payload next_attempt_at clock])"

definition decode_json :: "'a codec \<Rightarrow> string \<Rightarrow> storage_error + 'a" where
  "decode_json C text = ok_or (cd_decode C text) StorageJson"

definition decode_job :: "'a codec \<Rightarrow> 't job_row \<Rightarrow> storage_error + 'a leased_job" where
  "decode_job C r = rbind (decode_json C (job_payload_json r)) (\<lambda>v.
     Inr \<lparr>lj_job_key = job_key r, lj_payload = v, lj_attempt_count = job_attempt_count r\<rparr>)"

text \<open>\<open>slice::chunks\<close>\<close>

function chunks :: "nat \<Rightarrow> 'a list \<Rightarrow> 'a list list" where
  "chunks n xs = (if xs = [] \<or> n = 0 then [] else take n xs # chunks n (drop n xs))"
  by pat_completeness auto
termination by (relation "measure (length \<circ> snd)") auto

declare chunks.simps [simp del]

section \<open>SQLite\<close>

definition sqlite_enqueue_leased_job ::
  "'a codec \<Rightarrow> string \<Rightarrow> string \<Rightarrow> string \<Rightarrow> 'a \<Rightarrow> string \<Rightarrow> string job_store
     \<Rightarrow> string job_store \<times> (storage_error + unit)" where
  "sqlite_enqueue_leased_job C clock table key v next_attempt_at s =
     on_table table s (\<lambda>rows.
       case cd_encode C v of
         None \<Rightarrow> (rows, Inl StorageJson)
       | Some text \<Rightarrow> (upsert_job key text next_attempt_at clock rows, Inr ()))"

text \<open>A negative \<open>LIMIT\<close> is no limit.\<close>

definition sqlite_limit :: "int \<Rightarrow> 'r list \<Rightarrow> 'r list" where
  "sqlite_limit n rows = (if n < 0 then rows else take (nat n) rows)"

fun sqlite_lease_loop ::
  "'a codec \<Rightarrow> string \<Rightarrow> string \<Rightarrow> string \<Rightarrow> string \<Rightarrow> string job_row list \<Rightarrow> string job_row list
     \<Rightarrow> storage_error + string job_row list \<times> 'a leased_job list" where
  "sqlite_lease_loop C clock worker_id now expires [] rows = Inr (rows, [])"
| "sqlite_lease_loop C clock worker_id now expires (r # selected) rows =
     (let hit = (\<lambda>q. job_key q = job_key r \<and> may_lease now q);
          rows' = update_where hit (set_leased worker_id expires clock) rows
      in if rows_affected hit rows = 0
         then sqlite_lease_loop C clock worker_id now expires selected rows'
         else rbind (decode_job C r) (\<lambda>job.
           rbind (sqlite_lease_loop C clock worker_id now expires selected rows')
             (\<lambda>(rows'', jobs). Inr (rows'', job # jobs))))"

definition sqlite_lease_ready_jobs ::
  "'a codec \<Rightarrow> bool \<Rightarrow> string \<Rightarrow> string \<Rightarrow> string \<Rightarrow> int \<Rightarrow> string \<Rightarrow> string \<Rightarrow> string job_store
     \<Rightarrow> string job_store \<times> (storage_error + 'a leased_job list)" where
  "sqlite_lease_ready_jobs C commit clock table worker_id limit now expires s =
     on_table table s (\<lambda>rows.
       case sqlite_lease_loop C clock worker_id now expires
              (sqlite_limit limit (select_ready id now rows)) rows of
         Inl e \<Rightarrow> (rows, Inl e)
       | Inr (rows', jobs) \<Rightarrow> if commit then (rows', Inr jobs) else (rows, Inl StorageSql))"

definition sqlite_mark_leased_job_succeeded ::
  "string \<Rightarrow> string \<Rightarrow> string \<Rightarrow> string job_store \<Rightarrow> string job_store \<times> (storage_error + unit)" where
  "sqlite_mark_leased_job_succeeded clock table key s =
     on_table table s (\<lambda>rows.
       (update_where (\<lambda>r. job_key r = key) (set_succeeded clock) rows, Inr ()))"

fun sqlite_succeed_chunks ::
  "string \<Rightarrow> string list list \<Rightarrow> string job_row list \<Rightarrow> string job_row list \<times> nat" where
  "sqlite_succeed_chunks clock [] rows = (rows, 0)"
| "sqlite_succeed_chunks clock (c # cs) rows =
     (let hit = (\<lambda>r. job_key r \<in> set c);
          (rows', n) = sqlite_succeed_chunks clock cs (update_where hit (set_succeeded clock) rows)
      in (rows', rows_affected hit rows + n))"

definition sqlite_mark_leased_jobs_succeeded ::
  "bool \<Rightarrow> string \<Rightarrow> string \<Rightarrow> string list \<Rightarrow> string job_store
     \<Rightarrow> string job_store \<times> (storage_error + nat)" where
  "sqlite_mark_leased_jobs_succeeded commit clock table job_keys s =
     (if job_keys = [] then (s, Inr 0)
      else on_table table s (\<lambda>rows.
        let (rows', affected) = sqlite_succeed_chunks clock (chunks 500 job_keys) rows
        in if commit then (rows', Inr affected) else (rows, Inl StorageSql)))"

definition sqlite_mark_leased_job_retry ::
  "string \<Rightarrow> string \<Rightarrow> string \<Rightarrow> string \<Rightarrow> string option \<Rightarrow> string job_store
     \<Rightarrow> string job_store \<times> (storage_error + unit)" where
  "sqlite_mark_leased_job_retry clock table key next_attempt_at last_error s =
     on_table table s (\<lambda>rows.
       (update_where (\<lambda>r. job_key r = key) (set_retry next_attempt_at last_error clock) rows, Inr ()))"

fun sqlite_retry_each ::
  "string \<Rightarrow> string \<Rightarrow> (string \<times> string) list \<Rightarrow> string job_row list \<Rightarrow> string job_row list \<times> nat"
where
  "sqlite_retry_each clock next_attempt_at [] rows = (rows, 0)"
| "sqlite_retry_each clock next_attempt_at ((key, err) # jobs) rows =
     (let hit = (\<lambda>r. job_key r = key);
          (rows', n) = sqlite_retry_each clock next_attempt_at jobs
            (update_where hit (set_retry next_attempt_at (Some err) clock) rows)
      in (rows', rows_affected hit rows + n))"

definition sqlite_mark_leased_jobs_retry ::
  "bool \<Rightarrow> string \<Rightarrow> string \<Rightarrow> (string \<times> string) list \<Rightarrow> string \<Rightarrow> string job_store
     \<Rightarrow> string job_store \<times> (storage_error + nat)" where
  "sqlite_mark_leased_jobs_retry commit clock table jobs next_attempt_at s =
     (if jobs = [] then (s, Inr 0)
      else on_table table s (\<lambda>rows.
        let (rows', affected) = sqlite_retry_each clock next_attempt_at jobs rows
        in if commit then (rows', Inr affected) else (rows, Inl StorageSql)))"

text \<open>Reading: the open jobs by the time of their last change, the leasable ones by schedule.\<close>

definition read_active_rows :: "(string \<Rightarrow> string) \<Rightarrow> 't::linorder job_row list \<Rightarrow> 't job_row list"
where
  "read_active_rows collate rows =
     sort_key (\<lambda>r. (job_updated_at r, collate (job_key r)))
       (filter (\<lambda>r. job_status r \<in> {Ready, Leased, RetryWait}) rows)"

definition decode_rows :: "'a codec \<Rightarrow> 't job_row list \<Rightarrow> storage_error + 'a list" where
  "decode_rows C = collect_results (\<lambda>r. decode_json C (job_payload_json r))"

definition sqlite_read_active_leased_jobs ::
  "'a codec \<Rightarrow> string \<Rightarrow> string job_store \<Rightarrow> storage_error + 'a list" where
  "sqlite_read_active_leased_jobs C table s =
     snd (on_table table s (\<lambda>rows. (rows, decode_rows C (read_active_rows id rows))))"

definition sqlite_read_ready_leased_jobs ::
  "'a codec \<Rightarrow> string \<Rightarrow> string \<Rightarrow> string job_store \<Rightarrow> storage_error + 'a list" where
  "sqlite_read_ready_leased_jobs C table now s =
     snd (on_table table s (\<lambda>rows. (rows, decode_rows C (select_ready id now rows))))"

section \<open>PostgreSQL\<close>

definition postgres_enqueue_leased_job ::
  "'t postgres \<Rightarrow> 'a codec \<Rightarrow> 't \<Rightarrow> string \<Rightarrow> string \<Rightarrow> 'a \<Rightarrow> string \<Rightarrow> 't job_store
     \<Rightarrow> 't job_store \<times> (storage_error + unit)" where
  "postgres_enqueue_leased_job P C clock table key v next_attempt_at s =
     on_table table s (\<lambda>rows.
       case cd_encode C v of
         None \<Rightarrow> (rows, Inl StorageJson)
       | Some text \<Rightarrow> (case pg_timestamptz P next_attempt_at of
           None \<Rightarrow> (rows, Inl StorageSql)
         | Some t \<Rightarrow> (upsert_job key text t clock rows, Inr ())))"

text \<open>
  One statement picks, locks and updates the rows and returns them; it is committed before the
  payloads are decoded. A negative \<open>LIMIT\<close> is an error.
\<close>

definition postgres_candidates ::
  "'t::linorder postgres \<Rightarrow> string list \<Rightarrow> int \<Rightarrow> 't \<Rightarrow> 't job_row list \<Rightarrow> string list" where
  "postgres_candidates P locked limit now rows =
     map job_key (take (nat limit)
       (filter (\<lambda>r. job_key r \<notin> set locked) (select_ready (pg_collate P) now rows)))"

definition postgres_lease_ready_jobs ::
  "'t::linorder postgres \<Rightarrow> 'a codec \<Rightarrow> string list \<Rightarrow> 't \<Rightarrow> string \<Rightarrow> string \<Rightarrow> int \<Rightarrow> string \<Rightarrow> string
     \<Rightarrow> 't job_store \<Rightarrow> 't job_store \<times> (storage_error + 'a leased_job list)" where
  "postgres_lease_ready_jobs P C locked clock table worker_id limit now expires s =
     on_table table s (\<lambda>rows.
       case (pg_timestamptz P now, pg_timestamptz P expires) of
         (Some n, Some e) \<Rightarrow>
           if limit < 0 then (rows, Inl StorageSql)
           else let candidates = postgres_candidates P locked limit n rows;
                    hit = (\<lambda>r. job_key r \<in> set candidates);
                    rows' = update_where hit (set_leased worker_id e clock) rows;
                    leased_rows = pg_returning P (filter hit rows)
                in (rows', collect_results (decode_job C) leased_rows)
       | _ \<Rightarrow> (rows, Inl StorageSql))"

definition postgres_mark_leased_job_succeeded ::
  "'t \<Rightarrow> string \<Rightarrow> string \<Rightarrow> 't job_store \<Rightarrow> 't job_store \<times> (storage_error + unit)" where
  "postgres_mark_leased_job_succeeded clock table key s =
     on_table table s (\<lambda>rows.
       (update_where (\<lambda>r. job_key r = key) (set_succeeded clock) rows, Inr ()))"

definition postgres_mark_leased_jobs_succeeded ::
  "'t \<Rightarrow> string \<Rightarrow> string list \<Rightarrow> 't job_store \<Rightarrow> 't job_store \<times> (storage_error + nat)" where
  "postgres_mark_leased_jobs_succeeded clock table job_keys s =
     (if job_keys = [] then (s, Inr 0)
      else on_table table s (\<lambda>rows.
        let hit = (\<lambda>r. job_key r \<in> set job_keys)
        in (update_where hit (set_succeeded clock) rows, Inr (rows_affected hit rows))))"

definition postgres_mark_leased_job_retry ::
  "'t postgres \<Rightarrow> 't \<Rightarrow> string \<Rightarrow> string \<Rightarrow> string \<Rightarrow> string option \<Rightarrow> 't job_store
     \<Rightarrow> 't job_store \<times> (storage_error + unit)" where
  "postgres_mark_leased_job_retry P clock table key next_attempt_at last_error s =
     on_table table s (\<lambda>rows.
       case pg_timestamptz P next_attempt_at of
         None \<Rightarrow> (rows, Inl StorageSql)
       | Some t \<Rightarrow> (update_where (\<lambda>r. job_key r = key) (set_retry t last_error clock) rows, Inr ()))"

text \<open>
  The batch is joined with the table by chunks: a row that several entries of a chunk name is
  updated once, with the message of one of them. Each chunk is a statement of its own, outside a
  transaction: \<open>clocks\<close> are the times at which the server executes the statements, as far as it
  does. When it fails at one, what the earlier ones did stays.
\<close>

fun postgres_retry_chunks ::
  "'t postgres \<Rightarrow> 't list \<Rightarrow> 't \<Rightarrow> (string \<times> string) list list \<Rightarrow> 't job_row list
     \<Rightarrow> 't job_row list \<times> (storage_error + nat)"
where
  "postgres_retry_chunks P clocks t [] rows = (rows, Inr 0)"
| "postgres_retry_chunks P [] t (c # cs) rows = (rows, Inl StorageSql)"
| "postgres_retry_chunks P (clock # clocks) t (c # cs) rows =
     (let hit = (\<lambda>r. job_key r \<in> set (map fst c));
          err = (\<lambda>r. pg_join_pick P (map snd (filter (\<lambda>j. fst j = job_key r) c)));
          (rows', result) = postgres_retry_chunks P clocks t cs
            (update_where hit (\<lambda>r. set_retry t (Some (err r)) clock r) rows)
      in (rows', rbind result (\<lambda>n. Inr (rows_affected hit rows + n))))"

definition postgres_mark_leased_jobs_retry ::
  "'t postgres \<Rightarrow> 't list \<Rightarrow> string \<Rightarrow> (string \<times> string) list \<Rightarrow> string \<Rightarrow> 't job_store
     \<Rightarrow> 't job_store \<times> (storage_error + nat)" where
  "postgres_mark_leased_jobs_retry P clocks table jobs next_attempt_at s =
     (if jobs = [] then (s, Inr 0)
      else on_table table s (\<lambda>rows.
        case pg_timestamptz P next_attempt_at of
          None \<Rightarrow> (rows, Inl StorageSql)
        | Some t \<Rightarrow> postgres_retry_chunks P clocks t (chunks 500 jobs) rows))"

definition postgres_read_active_leased_jobs ::
  "'t::linorder postgres \<Rightarrow> 'a codec \<Rightarrow> string \<Rightarrow> 't job_store \<Rightarrow> storage_error + 'a list" where
  "postgres_read_active_leased_jobs P C table s =
     snd (on_table table s (\<lambda>rows. (rows, decode_rows C (read_active_rows (pg_collate P) rows))))"

definition postgres_read_ready_leased_jobs ::
  "'t::linorder postgres \<Rightarrow> 'a codec \<Rightarrow> string \<Rightarrow> string \<Rightarrow> 't job_store \<Rightarrow> storage_error + 'a list"
where
  "postgres_read_ready_leased_jobs P C table now s =
     snd (on_table table s (\<lambda>rows. (rows, case pg_timestamptz P now of
        None \<Rightarrow> Inl StorageSql
      | Some n \<Rightarrow> decode_rows C (select_ready (pg_collate P) n rows))))"

section \<open>Calls\<close>

text \<open>
  The calls a client makes on a job table, with what the environment contributes to each, and
  their effect on the table of either backend.
\<close>

datatype 'a job_call =
    EnsureTable bool
  | Enqueue string 'a string
  | LeaseReady string int string string
  | MarkSucceeded string
  | MarkAllSucceeded "string list"
  | MarkRetry string string "string option"
  | MarkAllRetry "(string \<times> string) list" string

text \<open>The jobs a call names, and the time it leases at.\<close>

fun call_names :: "'a job_call \<Rightarrow> string set" where
  "call_names (Enqueue key v t) = {key}"
| "call_names (MarkSucceeded key) = {key}"
| "call_names (MarkAllSucceeded ks) = set ks"
| "call_names (MarkRetry key t err) = {key}"
| "call_names (MarkAllRetry jobs t) = fst ` set jobs"
| "call_names _ = {}"

fun call_leases_at :: "'a job_call \<Rightarrow> string option" where
  "call_leases_at (LeaseReady worker limit now expires) = Some now"
| "call_leases_at _ = None"

fun sqlite_call ::
  "'a codec \<Rightarrow> string \<Rightarrow> (bool \<times> string) \<times> 'a job_call \<Rightarrow> string job_store \<Rightarrow> string job_store"
where
  "sqlite_call C table ((commit, clock), EnsureTable accepted) s =
     fst (sqlite_ensure_leased_job_table accepted table s)"
| "sqlite_call C table ((commit, clock), Enqueue key v t) s =
     fst (sqlite_enqueue_leased_job C clock table key v t s)"
| "sqlite_call C table ((commit, clock), LeaseReady worker limit now expires) s =
     fst (sqlite_lease_ready_jobs C commit clock table worker limit now expires s)"
| "sqlite_call C table ((commit, clock), MarkSucceeded key) s =
     fst (sqlite_mark_leased_job_succeeded clock table key s)"
| "sqlite_call C table ((commit, clock), MarkAllSucceeded ks) s =
     fst (sqlite_mark_leased_jobs_succeeded commit clock table ks s)"
| "sqlite_call C table ((commit, clock), MarkRetry key t err) s =
     fst (sqlite_mark_leased_job_retry clock table key t err s)"
| "sqlite_call C table ((commit, clock), MarkAllRetry jobs t) s =
     fst (sqlite_mark_leased_jobs_retry commit clock table jobs t s)"

text \<open>
  A call on PostgreSQL comes with the rows that others have locked and the times of the statements that
  the server executes; when it executes none, the call changes nothing.
\<close>

fun postgres_call ::
  "'t::linorder postgres \<Rightarrow> 'a codec \<Rightarrow> string \<Rightarrow> (string list \<times> 't list) \<times> 'a job_call \<Rightarrow> 't job_store
     \<Rightarrow> 't job_store"
where
  "postgres_call P C table ((locked, []), call) s = s"
| "postgres_call P C table ((locked, clock # clocks), EnsureTable accepted) s =
     fst (postgres_ensure_leased_job_table accepted table s)"
| "postgres_call P C table ((locked, clock # clocks), Enqueue key v t) s =
     fst (postgres_enqueue_leased_job P C clock table key v t s)"
| "postgres_call P C table ((locked, clock # clocks), LeaseReady worker limit now expires) s =
     fst (postgres_lease_ready_jobs P C locked clock table worker limit now expires s)"
| "postgres_call P C table ((locked, clock # clocks), MarkSucceeded key) s =
     fst (postgres_mark_leased_job_succeeded clock table key s)"
| "postgres_call P C table ((locked, clock # clocks), MarkAllSucceeded ks) s =
     fst (postgres_mark_leased_jobs_succeeded clock table ks s)"
| "postgres_call P C table ((locked, clock # clocks), MarkRetry key t err) s =
     fst (postgres_mark_leased_job_retry P clock table key t err s)"
| "postgres_call P C table ((locked, clock # clocks), MarkAllRetry jobs t) s =
     fst (postgres_mark_leased_jobs_retry P (clock # clocks) table jobs t s)"

end
