(* ===== verification/JobQueue.thy ===== *)
theory JobQueue
  imports JobStore
begin

text \<open>
  The job tables of both backends as queues: the contract of a single call, the locale of the
  calls that keep it with what follows for any sequence of calls, its interpretations on SQLite
  and on PostgreSQL, and the properties of leasing.
\<close>

section \<open>What a call may do to a table\<close>

text \<open>
  The contract both backends share. A row is well-formed when exactly the leased rows have an
  owner and an expiry time. In one step a row keeps its key, its time of creation and its
  attempts so far, and it changes only when the call names it, or when it may be leased at the
  time of the call and is leased. New rows are named by the call and have new keys.
\<close>

definition row_ok :: "'t job_row \<Rightarrow> bool" where
  "row_ok r \<longleftrightarrow> (job_status r = Leased \<longleftrightarrow> job_lease_owner r \<noteq> None)
     \<and> (job_status r = Leased \<longleftrightarrow> job_lease_expires_at r \<noteq> None) \<and> 0 \<le> job_attempt_count r"

definition row_step ::
  "string set \<Rightarrow> 't::linorder option \<Rightarrow> 't job_row \<Rightarrow> 't job_row \<Rightarrow> bool" where
  "row_step names leases_at r r' \<longleftrightarrow>
     job_key r' = job_key r \<and> job_created_at r' = job_created_at r
   \<and> job_attempt_count r \<le> job_attempt_count r' \<and> (row_ok r \<longrightarrow> row_ok r')
   \<and> (r' = r \<or> job_key r \<in> names
      \<or> (\<exists>n w e c. leases_at = Some n \<and> may_lease n r \<and> r' = set_leased w e c r))"

definition table_step ::
  "string set \<Rightarrow> 't::linorder option \<Rightarrow> 't job_row list \<Rightarrow> 't job_row list \<Rightarrow> bool" where
  "table_step names leases_at rows rows' \<longleftrightarrow>
     (\<exists>kept added. rows' = kept @ added \<and> list_all2 (row_step names leases_at) rows kept
        \<and> distinct (map job_key added) \<and> list_all row_ok added
        \<and> set (map job_key added) \<subseteq> names - set (map job_key rows))"

definition store_step ::
  "string set \<Rightarrow> 't::linorder option \<Rightarrow> 't job_store \<Rightarrow> 't job_store \<Rightarrow> bool" where
  "store_step names leases_at s s' \<longleftrightarrow>
     (case s of None \<Rightarrow> s' = None \<or> s' = Some []
      | Some rows \<Rightarrow> (\<exists>rows'. s' = Some rows' \<and> table_step names leases_at rows rows'))"

definition table_ok :: "'t job_row list \<Rightarrow> bool" where
  "table_ok rows \<longleftrightarrow> distinct (map job_key rows) \<and> list_all row_ok rows"

definition store_ok :: "'t job_store \<Rightarrow> bool" where
  "store_ok s \<longleftrightarrow> (case s of None \<Rightarrow> True | Some rows \<Rightarrow> table_ok rows)"

definition job_rows :: "'t job_store \<Rightarrow> string \<Rightarrow> 't job_row list" where
  "job_rows s k = (case s of None \<Rightarrow> [] | Some rows \<Rightarrow> filter (\<lambda>r. job_key r = k) rows)"

named_theorems row_sets \<open>the effect of the SET lists on a row\<close>

lemma row_step_refl [simp, intro]: "row_step names leases_at r r"
  by (simp add: row_step_def)

lemma row_step_leased [row_sets]:
  "may_lease n r \<Longrightarrow> row_step names (Some n) r (set_leased w e c r)"
  by (auto simp: row_step_def set_leased_def row_ok_def)

lemma row_step_succeeded [row_sets]:
  "job_key r \<in> names \<Longrightarrow> row_step names leases_at r (set_succeeded c r)"
  by (auto simp: row_step_def set_succeeded_def row_ok_def)

lemma row_step_retry [row_sets]:
  "job_key r \<in> names \<Longrightarrow> row_step names leases_at r (set_retry t err c r)"
  by (auto simp: row_step_def set_retry_def row_ok_def)

lemma row_step_enqueued [row_sets]:
  "job_key r \<in> names \<Longrightarrow> row_step names leases_at r (set_enqueued text t c r)"
  by (auto simp: row_step_def set_enqueued_def row_ok_def)

lemma row_step_trans:
  "row_step names None r q \<Longrightarrow> row_step names None q p \<Longrightarrow> row_step names None r p"
  by (auto simp: row_step_def)

lemma row_step_key: "row_step names leases_at r r' \<Longrightarrow> job_key r' = job_key r"
  by (simp add: row_step_def)

lemma row_steps_keys:
  "list_all2 (row_step names leases_at) rows kept \<Longrightarrow> map job_key kept = map job_key rows"
  by (induction rows kept rule: list_all2_induct) (auto simp: row_step_def)

lemma table_step_rows: "list_all2 (row_step names leases_at) rows rows' \<Longrightarrow> table_step names leases_at rows rows'"
  unfolding table_step_def by (intro exI [of _ rows'] exI [of _ "[]"]) simp

lemma update_where_step:
  assumes "\<And>r. r \<in> set rows \<Longrightarrow> p r \<Longrightarrow> row_step names leases_at r (f r)"
  shows "list_all2 (row_step names leases_at) rows (update_where p f rows)"
  using assms by (induction rows) (auto simp: update_where_def)

text \<open>The contract keeps a well-formed table well-formed, and leaves an idle job alone.\<close>

lemma store_step_ok:
  assumes "store_step names leases_at s s'" and "store_ok s"
  shows "store_ok s'"
proof (cases s)
  case None
  then show ?thesis using assms(1) by (auto simp: store_step_def store_ok_def table_ok_def)
next
  case (Some rows)
  then obtain kept added where s': "s' = Some (kept @ added)"
    and steps: "list_all2 (row_step names leases_at) rows kept"
    and added: "distinct (map job_key added)" "list_all row_ok added"
      "set (map job_key added) \<subseteq> names - set (map job_key rows)"
    using assms(1) by (auto simp: store_step_def table_step_def)
  have "list_all row_ok kept"
    using steps assms(2) Some
    by (induction rows kept arbitrary: s rule: list_all2_induct)
      (auto simp: store_ok_def table_ok_def row_step_def)
  then show ?thesis
    using s' added assms(2) Some row_steps_keys [OF steps]
    by (auto simp: store_ok_def table_ok_def)
qed

lemma row_steps_filter:
  assumes "list_all2 (row_step names leases_at) rows kept" and "k \<notin> names"
    and "\<And>n r. leases_at = Some n \<Longrightarrow> r \<in> set (filter (\<lambda>r. job_key r = k) rows) \<Longrightarrow> \<not> may_lease n r"
  shows "filter (\<lambda>r. job_key r = k) kept = filter (\<lambda>r. job_key r = k) rows"
  using assms by (induction rows kept rule: list_all2_induct) (auto simp: row_step_def)

lemma store_step_idle:
  assumes "store_step names leases_at s s'" and "k \<notin> names"
    and "\<And>n r. leases_at = Some n \<Longrightarrow> r \<in> set (job_rows s k) \<Longrightarrow> \<not> may_lease n r"
  shows "job_rows s' k = job_rows s k"
proof (cases s)
  case None
  then show ?thesis using assms(1) by (auto simp: store_step_def job_rows_def)
next
  case (Some rows)
  then obtain kept added where s': "s' = Some (kept @ added)"
    and steps: "list_all2 (row_step names leases_at) rows kept"
    and added: "set (map job_key added) \<subseteq> names - set (map job_key rows)"
    using assms(1) by (auto simp: store_step_def table_step_def)
  have "filter (\<lambda>r. job_key r = k) added = []"
    using added assms(2) by (auto simp: filter_empty_conv)
  moreover have "filter (\<lambda>r. job_key r = k) kept = filter (\<lambda>r. job_key r = k) rows"
    using assms(3) Some by (intro row_steps_filter [OF steps assms(2)]) (simp add: job_rows_def)
  ultimately show ?thesis using s' Some by (simp add: job_rows_def)
qed

lemma store_step_refl [simp]: "store_step names leases_at s s"
  by (cases s) (auto simp: store_step_def intro: table_step_rows simp: list.rel_refl)

text \<open>Contracts of the statements, and of a call from the contract of its body.\<close>

lemma on_table_step:
  assumes "\<And>rows. table_step names leases_at rows (fst (f rows))"
  shows "store_step names leases_at s (fst (on_table table s f))"
proof (cases s)
  case None
  then show ?thesis by (simp add: on_table_def store_step_def split: sum.split)
next
  case (Some rows)
  then show ?thesis
    using assms [of rows] table_step_rows [of names leases_at rows rows]
    by (auto simp: on_table_def store_step_def list.rel_refl split: sum.split prod.split)
qed

lemma table_step_refl [simp, intro]: "table_step names leases_at rows rows"
  by (simp add: table_step_rows list.rel_refl)

lemma sqlite_ensure_table_step:
  "store_step names leases_at s (fst (sqlite_ensure_leased_job_table accepted table s))"
  by (auto simp: sqlite_ensure_leased_job_table_def store_step_def split: sum.split option.split)

lemma postgres_ensure_table_step:
  "store_step names leases_at s (fst (postgres_ensure_leased_job_table accepted table s))"
  by (auto simp: postgres_ensure_leased_job_table_def store_step_def split: sum.split option.split)

lemma upsert_job_step: "table_step {key} leases_at rows (upsert_job key text t clock rows)"
proof (cases "key \<in> set (map job_key rows)")
  case True
  then show ?thesis
    by (auto simp: upsert_job_def intro!: table_step_rows update_where_step row_sets)
next
  case False
  then show ?thesis
    unfolding upsert_job_def table_step_def
    by (intro exI [of _ rows] exI [of _ "[new_job key text t clock]"])
      (auto simp: new_job_def row_ok_def list.rel_refl)
qed

lemma table_step_update:
  assumes "\<And>r. r \<in> set rows \<Longrightarrow> p r \<Longrightarrow> row_step names leases_at r (f r)"
  shows "table_step names leases_at rows (update_where p f rows)"
  by (rule table_step_rows [OF update_where_step [OF assms]])

lemma row_steps_trans:
  "list_all2 (row_step names None) rows qs \<Longrightarrow> list_all2 (row_step names None) qs ps
     \<Longrightarrow> list_all2 (row_step names None) rows ps"
  using list_all2_trans [of "row_step names None" "row_step names None" "row_step names None"]
    row_step_trans by blast

lemma row_step_weaken:
  "row_step names leases_at r r' \<Longrightarrow> names \<subseteq> names' \<Longrightarrow> row_step names' leases_at r r'"
  by (auto simp: row_step_def)

section \<open>The calls on SQLite keep the contract\<close>

lemma succeed_chunks_step:
  "\<Union> (set ` set cs) \<subseteq> names \<Longrightarrow>
     list_all2 (row_step names None) rows (fst (sqlite_succeed_chunks clock cs rows))"
proof (induction cs arbitrary: rows)
  case Nil
  show ?case by (simp add: list.rel_refl)
next
  case (Cons c cs)
  have "list_all2 (row_step names None) rows
      (update_where (\<lambda>r. job_key r \<in> set c) (set_succeeded clock) rows)"
    using Cons.prems by (intro update_where_step row_sets) auto
  from row_steps_trans [OF this Cons.IH] Cons.prems show ?case
    by (simp add: Let_def split_beta)
qed

lemma retry_each_step:
  "fst ` set jobs \<subseteq> names \<Longrightarrow>
     list_all2 (row_step names None) rows (fst (sqlite_retry_each clock t jobs rows))"
proof (induction jobs arbitrary: rows)
  case Nil
  show ?case by (simp add: list.rel_refl)
next
  case (Cons j jobs)
  have "list_all2 (row_step names None) rows
      (update_where (\<lambda>r. job_key r = fst j) (set_retry t (Some (snd j)) clock) rows)"
    using Cons.prems by (intro update_where_step row_sets) auto
  from row_steps_trans [OF this Cons.IH] Cons.prems show ?case
    by (cases j) (simp add: Let_def split_beta)
qed

lemma chunks_Cons: "xs \<noteq> [] \<Longrightarrow> 0 < n \<Longrightarrow> chunks n xs = take n xs # chunks n (drop n xs)"
  by (subst chunks.simps) simp

lemma chunks_Nil [simp]: "chunks n [] = []"
  by (subst chunks.simps) simp

lemma concat_chunks: "0 < n \<Longrightarrow> concat (chunks n xs) = xs"
proof (induction n xs rule: chunks.induct)
  case (1 n xs)
  then show ?case by (cases "xs = []") (auto simp: chunks_Cons)
qed

lemma set_chunks: "0 < n \<Longrightarrow> \<Union> (set ` set (chunks n xs)) = set xs"
  using arg_cong [OF concat_chunks [of n xs], of set] by simp

lemma in_chunks: "c \<in> set (chunks 500 xs) \<Longrightarrow> x \<in> set c \<Longrightarrow> x \<in> set xs"
  using set_chunks [of 500 xs] by auto

text \<open>The loop of the lease leases what it selects, all of it or nothing.\<close>

definition leased_by :: "string set \<Rightarrow> 't::linorder \<Rightarrow> 't job_row \<Rightarrow> bool" where
  "leased_by ks now r \<longleftrightarrow> job_key r \<in> ks \<and> may_lease now r"

lemma set_leased_idem [simp]: "set_leased w e c (set_leased w e c r) = set_leased w e c r"
  by (simp add: set_leased_def)

lemma set_leased_key [simp]: "job_key (set_leased w e c r) = job_key r"
  by (simp add: set_leased_def)

lemma sqlite_lease_loop_table:
  "sqlite_lease_loop C clock w now e selected rows = Inr (rows', jobs) \<Longrightarrow>
     rows' = update_where (leased_by (job_key ` set selected) now) (set_leased w e clock) rows"
proof (induction selected arbitrary: rows rows' jobs)
  case Nil
  then show ?case by (simp add: update_where_def leased_by_def)
next
  case (Cons r selected)
  let ?hit = "\<lambda>q. job_key q = job_key r \<and> may_lease now q"
  let ?rows = "update_where ?hit (set_leased w e clock) rows"
  obtain jobs' where "sqlite_lease_loop C clock w now e selected ?rows = Inr (rows', jobs')"
    using Cons.prems by (auto simp: Let_def split: if_split_asm)
  from Cons.IH [OF this] show ?case
    by (auto simp: update_where_def leased_by_def)
qed

lemma sqlite_lease_loop_jobs:
  "sqlite_lease_loop C clock w now e selected rows = Inr (rows', jobs) \<Longrightarrow>
     lj_job_key ` set jobs \<subseteq> job_key ` set selected"
proof (induction selected arbitrary: rows rows' jobs)
  case (Cons r selected)
  let ?rows = "update_where (\<lambda>q. job_key q = job_key r \<and> may_lease now q) (set_leased w e clock) rows"
  consider "sqlite_lease_loop C clock w now e selected ?rows = Inr (rows', jobs)"
    | job jobs' where "jobs = job # jobs'" "decode_job C r = Inr job"
        "sqlite_lease_loop C clock w now e selected ?rows = Inr (rows', jobs')"
    using Cons.prems by (auto simp: Let_def split: if_split_asm)
  then show ?case
    by cases (use Cons.IH in \<open>force simp: decode_job_def\<close>)+
qed simp

lemma set_select_ready [simp]:
  "set (select_ready collate now rows) = {r \<in> set rows. may_lease now r}"
  by (simp add: select_ready_def)

lemma set_sqlite_limit: "set (sqlite_limit n rows) \<subseteq> set rows"
  by (auto simp: sqlite_limit_def dest: in_set_takeD)

text \<open>A lease reports only jobs that could be leased, and leaves each of them leased.\<close>

lemma sqlite_lease_cases:
  assumes "sqlite_lease_ready_jobs C commit clock table w limit now e s = (s', Inr jobs)"
  obtains rows ks where "s = Some rows" and "lj_job_key ` set jobs \<subseteq> ks"
    and "ks \<subseteq> job_key ` {r \<in> set rows. may_lease now r}"
    and "s' = Some (update_where (leased_by ks now) (set_leased w e clock) rows)"
proof -
  obtain rows rows' where s: "s = Some rows" and s': "s' = Some rows'"
    and run: "sqlite_lease_loop C clock w now e (sqlite_limit limit (select_ready id now rows)) rows
      = Inr (rows', jobs)"
    using assms unfolding sqlite_lease_ready_jobs_def on_table_def
    by (auto split: sum.split_asm option.split_asm prod.split_asm if_split_asm)
  show ?thesis
    using that [OF s sqlite_lease_loop_jobs [OF run]] sqlite_lease_loop_table [OF run] s'
      set_sqlite_limit [of limit "select_ready id now rows"] by auto
qed

lemma sqlite_lease_step:
  "store_step {} (Some now) s
     (fst (sqlite_lease_ready_jobs C commit clock table w limit now e s))"
  unfolding sqlite_lease_ready_jobs_def
  by (rule on_table_step)
    (auto split: sum.split dest!: sqlite_lease_loop_table
      intro!: table_step_update row_sets simp: leased_by_def)

lemma sqlite_batch_steps:
  "store_step (set ks) None s (fst (sqlite_mark_leased_jobs_succeeded commit clock table ks s))"
  "store_step (fst ` set jobs) None s
     (fst (sqlite_mark_leased_jobs_retry commit clock table jobs t s))"
proof -
  show "store_step (set ks) None s
      (fst (sqlite_mark_leased_jobs_succeeded commit clock table ks s))"
    unfolding sqlite_mark_leased_jobs_succeeded_def
    by (auto simp: Let_def split_beta intro!: on_table_step table_step_rows succeed_chunks_step
        list.rel_refl dest: in_chunks)
  show "store_step (fst ` set jobs) None s
      (fst (sqlite_mark_leased_jobs_retry commit clock table jobs t s))"
    unfolding sqlite_mark_leased_jobs_retry_def
    by (auto simp: Let_def split_beta intro!: on_table_step table_step_rows retry_each_step
        list.rel_refl)
qed

lemma sqlite_single_steps:
  "store_step {key} leases_at s (fst (sqlite_enqueue_leased_job C clock table key v t s))"
  "store_step {key} leases_at s (fst (sqlite_mark_leased_job_succeeded clock table key s))"
  "store_step {key} leases_at s (fst (sqlite_mark_leased_job_retry clock table key t err s))"
  unfolding sqlite_enqueue_leased_job_def sqlite_mark_leased_job_succeeded_def
    sqlite_mark_leased_job_retry_def
  by (auto intro!: on_table_step table_step_update row_sets upsert_job_step split: option.split)

lemma sqlite_call_step:
  "store_step (call_names (snd c)) (call_leases_at (snd c)) s (sqlite_call C table c s)"
proof (cases c)
  case (Pair env call)
  then show ?thesis
    by (cases env; cases call)
      (simp_all add: sqlite_single_steps sqlite_batch_steps sqlite_lease_step sqlite_ensure_table_step)
qed

section \<open>The calls on PostgreSQL keep the contract\<close>

lemma postgres_retry_chunks_step:
  "\<Union> ((\<lambda>c. fst ` set c) ` set cs) \<subseteq> names \<Longrightarrow>
     list_all2 (row_step names None) rows (fst (postgres_retry_chunks P clocks t cs rows))"
proof (induction P clocks t cs rows rule: postgres_retry_chunks.induct)
  case (3 P clock clocks t c cs rows)
  let ?err = "\<lambda>r. pg_join_pick P (map snd (filter (\<lambda>j. fst j = job_key r) c))"
  have "list_all2 (row_step names None) rows
      (update_where (\<lambda>r. job_key r \<in> set (map fst c)) (\<lambda>r. set_retry t (Some (?err r)) clock r) rows)"
    using "3.prems" by (intro update_where_step row_sets) auto
  from row_steps_trans [OF this "3.IH" [OF refl refl]] "3.prems" show ?case
    by (simp add: Let_def split_beta)
qed (simp_all add: list.rel_refl)

lemma postgres_candidates_ready:
  "set (postgres_candidates P locked limit n rows)
     \<subseteq> job_key ` {r \<in> set rows. may_lease n r \<and> job_key r \<notin> set locked}"
  unfolding postgres_candidates_def by (auto dest!: in_set_takeD)

text \<open>A statement that relies on the primary key keeps the contract on well-formed tables.\<close>

lemma on_table_step_ok:
  assumes "store_ok s"
    and "\<And>rows. table_ok rows \<Longrightarrow> table_step names leases_at rows (fst (f rows))"
  shows "store_step names leases_at s (fst (on_table table s f))"
proof (cases s)
  case (Some rows)
  then show ?thesis
    using assms(1) assms(2) [of rows] table_step_rows [of names leases_at rows rows]
    by (auto simp: on_table_def store_step_def store_ok_def list.rel_refl
        split: sum.split prod.split)
qed (simp add: on_table_def store_step_def split: sum.split)

lemma table_ok_key_inj:
  "table_ok rows \<Longrightarrow> r \<in> set rows \<Longrightarrow> q \<in> set rows \<Longrightarrow> job_key r = job_key q \<Longrightarrow> r = q"
  by (auto simp: table_ok_def distinct_map dest: inj_onD)

lemma postgres_candidates_hit:
  assumes "table_ok rows" and "r \<in> set rows"
    and "job_key r \<in> set (postgres_candidates P locked limit n rows)"
  shows "may_lease n r \<and> job_key r \<notin> set locked"
proof -
  obtain q where "q \<in> set rows" "may_lease n q" "job_key q \<notin> set locked" "job_key q = job_key r"
    using assms(3) postgres_candidates_ready [of P locked limit n rows] by force
  with table_ok_key_inj [OF assms(1,2)] show ?thesis by metis
qed

lemma postgres_lease_step:
  assumes "store_ok s"
  shows "store_step {} (pg_timestamptz P now) s
     (fst (postgres_lease_ready_jobs P C locked clock table w limit now e s))"
  unfolding postgres_lease_ready_jobs_def
  by (rule on_table_step_ok [OF assms])
    (auto simp: Let_def split: option.split
      intro!: table_step_update row_sets dest: postgres_candidates_hit)

lemma postgres_batch_steps:
  "store_step (set ks) None s (fst (postgres_mark_leased_jobs_succeeded clock table ks s))"
  "store_step (fst ` set jobs) None s
     (fst (postgres_mark_leased_jobs_retry P clocks table jobs t s))"
proof -
  show "store_step (set ks) None s (fst (postgres_mark_leased_jobs_succeeded clock table ks s))"
    unfolding postgres_mark_leased_jobs_succeeded_def
    by (auto simp: Let_def intro!: on_table_step table_step_update row_sets)
  show "store_step (fst ` set jobs) None s
      (fst (postgres_mark_leased_jobs_retry P clocks table jobs t s))"
    unfolding postgres_mark_leased_jobs_retry_def
    by (auto simp: Let_def split_beta list.rel_refl split: option.split dest: in_chunks
        intro!: on_table_step table_step_rows postgres_retry_chunks_step image_eqI)
qed

lemma postgres_single_steps:
  "store_step {key} leases_at s (fst (postgres_enqueue_leased_job P C clock table key v t s))"
  "store_step {key} leases_at s (fst (postgres_mark_leased_job_succeeded clock table key s))"
  "store_step {key} leases_at s (fst (postgres_mark_leased_job_retry P clock table key t err s))"
  unfolding postgres_enqueue_leased_job_def postgres_mark_leased_job_succeeded_def
    postgres_mark_leased_job_retry_def
  by (auto intro!: on_table_step table_step_update row_sets upsert_job_step split: option.split)

lemma postgres_call_step:
  assumes "store_ok s"
  shows "store_step (call_names (snd c)) (Option.bind (call_leases_at (snd c)) (pg_timestamptz P)) s
     (postgres_call P C table c s)"
proof (cases c)
  case (Pair env call)
  obtain locked clocks where env: "env = (locked, clocks)" by (cases env)
  show ?thesis
  proof (cases clocks)
    case Nil
    with Pair env show ?thesis by (simp add: store_step_refl)
  next
    case (Cons clock later)
    with Pair env show ?thesis
      by (cases call) (simp_all add: postgres_single_steps postgres_batch_steps
          postgres_lease_step [OF assms] postgres_ensure_table_step)
  qed
qed

section \<open>Job queues\<close>

text \<open>
  The interface: calls that keep the contract on well-formed tables. A client that holds a lease
  keeps it until it expires or somebody names the job, whatever the other workers do.
\<close>

locale job_queue =
  fixes call :: "'c \<Rightarrow> 't::linorder job_store \<Rightarrow> 't job_store"
    and names :: "'c \<Rightarrow> string set"
    and leases_at :: "'c \<Rightarrow> 't option"
  assumes call_step: "store_ok s \<Longrightarrow> store_step (names c) (leases_at c) s (call c s)"
begin

lemma call_ok: "store_ok s \<Longrightarrow> store_ok (call c s)"
  by (rule store_step_ok [OF call_step])

lemma calls_ok: "store_ok s \<Longrightarrow> store_ok (fold call cs s)"
  by (induction cs arbitrary: s) (auto simp: call_ok)

lemma call_idle:
  assumes "store_ok s" and "k \<notin> names c"
    and "\<And>n r. leases_at c = Some n \<Longrightarrow> r \<in> set (job_rows s k) \<Longrightarrow> \<not> may_lease n r"
  shows "job_rows (call c s) k = job_rows s k"
  by (rule store_step_idle [OF call_step]) (use assms in auto)

lemma calls_idle:
  assumes "store_ok s"
    and "\<And>c. c \<in> set cs \<Longrightarrow> k \<notin> names c"
    and "\<And>c n r. c \<in> set cs \<Longrightarrow> leases_at c = Some n \<Longrightarrow> r \<in> set (job_rows s k) \<Longrightarrow> \<not> may_lease n r"
  shows "job_rows (fold call cs s) k = job_rows s k"
  using assms
proof (induction cs arbitrary: s)
  case (Cons c cs)
  have same: "job_rows (call c s) k = job_rows s k"
    by (rule call_idle) (use Cons.prems in auto)
  have "job_rows (fold call cs (call c s)) k = job_rows (call c s) k"
    by (rule Cons.IH) (use Cons.prems call_ok same in auto)
  with same show ?case by simp
qed simp

end

interpretation sqlite: job_queue "sqlite_call C table" "\<lambda>c. call_names (snd c)"
  "\<lambda>c. call_leases_at (snd c)" for C table
  by unfold_locales (rule sqlite_call_step)

interpretation postgres: job_queue "postgres_call P C table" "\<lambda>c. call_names (snd c)"
  "\<lambda>c. Option.bind (call_leases_at (snd c)) (pg_timestamptz P)" for P C table
  by unfold_locales (rule postgres_call_step)

section \<open>Properties\<close>

lemmas table_defs = job_rows_def store_ok_def update_where_def

lemma leased_rows_held:
  assumes "s' = Some (update_where (leased_by ks now) (set_leased w e clock) rows)"
    and "table_ok rows" and "k \<in> ks" and "ks \<subseteq> job_key ` {r \<in> set rows. may_lease now r}"
    and "r \<in> set (job_rows s' k)"
  shows "job_status r = Leased \<and> job_lease_expires_at r = Some e \<and> job_lease_owner r = Some w"
proof -
  obtain q where q: "q \<in> set rows" "job_key q = k" "may_lease now q"
    using assms(3,4) by auto
  obtain p where p: "p \<in> set rows" "r = (if leased_by ks now p then set_leased w e clock p else p)"
    "job_key r = k"
    using assms(1,5) by (auto simp: table_defs)
  then have "job_key p = k" by (auto split: if_split_asm)
  then have "p = q" using table_ok_key_inj [OF assms(2) p(1) q(1)] q(2) by simp
  then show ?thesis using p q assms(3) by (simp add: leased_by_def set_leased_def)
qed

lemma job_rows_Some [simp]: "job_rows (Some rows) k = filter (\<lambda>r. job_key r = k) rows"
  by (simp add: job_rows_def)

lemma leased_not_leasable:
  "job_status r = Leased \<Longrightarrow> job_lease_expires_at r = Some e \<Longrightarrow> n < e \<Longrightarrow> \<not> may_lease n r"
  by (simp add: may_lease_def)

text \<open>
  C4. A lease is exclusive on SQLite: while a lease has not expired, no later call hands the job out
  again, whatever calls come in between that do not name the job themselves.
\<close>

theorem sqlite_lease_exclusive:
  assumes "store_ok s"
    and "sqlite_lease_ready_jobs C commit clock table worker limit now expires s = (s1, Inr jobs)"
    and "key \<in> lj_job_key ` set jobs"
    and "\<forall>c \<in> set calls. key \<notin> call_names (snd c)
           \<and> (case call_leases_at (snd c) of None \<Rightarrow> True | Some n \<Rightarrow> n < expires)"
    and "sqlite_lease_ready_jobs C commit' clock' table worker' limit' now' expires'
           (fold (sqlite_call C table) calls s1) = (s2, Inr jobs')"
    and "now' < expires"
  shows "key \<notin> lj_job_key ` set jobs'"
proof
  assume again: "key \<in> lj_job_key ` set jobs'"
  obtain rows ks where rows: "s = Some rows" "lj_job_key ` set jobs \<subseteq> ks"
    "ks \<subseteq> job_key ` {r \<in> set rows. may_lease now r}"
    "s1 = Some (update_where (leased_by ks now) (set_leased worker expires clock) rows)"
    using sqlite_lease_cases [OF assms(2)] by blast
  have "table_ok rows" using assms(1) rows(1) by (simp add: store_ok_def)
  then have held: "\<And>r. r \<in> set (job_rows s1 key) \<Longrightarrow>
      job_status r = Leased \<and> job_lease_expires_at r = Some expires"
    using leased_rows_held [OF rows(4) _ _ rows(3)] rows(2) assms(3) by blast
  have s1: "s1 = sqlite_call C table ((commit, clock), LeaseReady worker limit now expires) s"
    using assms(2) by simp
  have "store_ok s1" unfolding s1 by (rule sqlite.call_ok [OF assms(1)])
  moreover have "\<not> may_lease n r" if "c \<in> set calls" "call_leases_at (snd c) = Some n"
    "r \<in> set (job_rows s1 key)" for c n r
    using bspec [OF assms(4) that(1)] that(2) held [OF that(3)] by (auto dest: leased_not_leasable)
  ultimately have idle: "job_rows (fold (sqlite_call C table) calls s1) key = job_rows s1 key"
    by (intro sqlite.calls_idle) (use assms(4) in auto)
  obtain rows' where rows': "fold (sqlite_call C table) calls s1 = Some rows'"
    "key \<in> job_key ` {r \<in> set rows'. may_lease now' r}"
    by (rule sqlite_lease_cases [OF assms(5)]) (use again in \<open>metis (lifting) subsetD\<close>)
  obtain r where "r \<in> set (job_rows s1 key)" "may_lease now' r"
    using rows'(2) unfolding idle [symmetric] rows'(1) by auto
  with held assms(6) show False by (auto dest: leased_not_leasable)
qed

definition demo_codec :: "string codec" where
  "demo_codec = \<lparr>cd_encode = Some, cd_decode = Some\<rparr>"

definition demo_jobs :: "string job_store" where
  "demo_jobs = fold (sqlite_call demo_codec ''jobs'')
     [((True, ''1''), EnsureTable True), ((True, ''1''), Enqueue ''a'' ''x'' ''1''),
      ((True, ''1''), Enqueue ''b'' ''y'' ''2'')] None"

lemma demo_jobs_eq:
  "demo_jobs = Some [new_job ''a'' ''x'' ''1'' ''1'', new_job ''b'' ''y'' ''2'' ''1'']"
  by code_simp

lemma demo_jobs_ok: "store_ok demo_jobs"
  by (simp add: demo_jobs_eq store_ok_def table_ok_def new_job_def row_ok_def)

theorem sqlite_lease_exclusive_witness:
  "''a'' \<notin> lj_job_key ` set (case snd (sqlite_lease_ready_jobs demo_codec True ''4'' ''jobs'' ''w2'' 9
     ''4'' ''9'' (sqlite_call demo_codec ''jobs'' ((True, ''3''), MarkSucceeded ''b'')
       (fst (sqlite_lease_ready_jobs demo_codec True ''2'' ''jobs'' ''w1'' 9 ''2'' ''5'' demo_jobs))))
     of Inl e \<Rightarrow> [] | Inr jobs \<Rightarrow> jobs)"
proof -
  have first: "\<exists>s1. sqlite_lease_ready_jobs demo_codec True ''2'' ''jobs'' ''w1'' 9 ''2'' ''5'' demo_jobs
      = (s1, Inr [\<lparr>lj_job_key = ''a'', lj_payload = ''x'', lj_attempt_count = 0\<rparr>,
                  \<lparr>lj_job_key = ''b'', lj_payload = ''y'', lj_attempt_count = 0\<rparr>])"
    unfolding demo_jobs_eq by (rule exI) code_simp
  obtain s1 where s1: "sqlite_lease_ready_jobs demo_codec True ''2'' ''jobs'' ''w1'' 9 ''2'' ''5'' demo_jobs
      = (s1, Inr [\<lparr>lj_job_key = ''a'', lj_payload = ''x'', lj_attempt_count = 0\<rparr>,
                  \<lparr>lj_job_key = ''b'', lj_payload = ''y'', lj_attempt_count = 0\<rparr>])"
    using first by blast
  show ?thesis
  proof (cases "sqlite_lease_ready_jobs demo_codec True ''4'' ''jobs'' ''w2'' 9 ''4'' ''9''
      (fold (sqlite_call demo_codec ''jobs'') [((True, ''3''), MarkSucceeded ''b'')] s1)")
    case (Pair s2 r)
    show ?thesis
    proof (cases r)
      case (Inr jobs')
      have "''a'' \<notin> lj_job_key ` set jobs'"
        by (rule sqlite_lease_exclusive [OF demo_jobs_ok s1 _ _ Pair [unfolded Inr]]) auto
      with Pair Inr s1 show ?thesis by simp
    qed (use Pair s1 in simp)
  qed
qed

lemma collect_results_set:
  "collect_results f xs = Inr ys \<Longrightarrow> y \<in> set ys \<Longrightarrow> \<exists>x \<in> set xs. f x = Inr y"
  by (induction xs arbitrary: ys) auto

lemma postgres_lease_cases:
  assumes "postgres_lease_ready_jobs P C locked clock table w limit now expires s = (s', Inr jobs)"
    and "\<And>rs. mset (pg_returning P rs) = mset rs"
  obtains rows ks n e where "s = Some rows" and "pg_timestamptz P now = Some n"
    and "pg_timestamptz P expires = Some e" and "lj_job_key ` set jobs \<subseteq> ks"
    and "ks = set (postgres_candidates P locked limit n rows)"
    and "s' = Some (update_where (\<lambda>r. job_key r \<in> ks) (set_leased w e clock) rows)"
proof -
  obtain rows n e where b: "s = Some rows" "pg_timestamptz P now = Some n"
    "pg_timestamptz P expires = Some e"
    and r: "collect_results (decode_job C) (pg_returning P
        (filter (\<lambda>r. job_key r \<in> set (postgres_candidates P locked limit n rows)) rows)) = Inr jobs"
    and s': "s' = Some (update_where (\<lambda>r. job_key r \<in> set (postgres_candidates P locked limit n rows))
        (set_leased w e clock) rows)"
    using assms(1) unfolding postgres_lease_ready_jobs_def on_table_def
    by (auto simp: Let_def split: sum.split_asm option.split_asm prod.split_asm if_split_asm)
  have "lj_job_key j \<in> set (postgres_candidates P locked limit n rows)" if "j \<in> set jobs" for j
    using collect_results_set [OF r that] mset_eq_setD [OF assms(2)] by (auto simp: decode_job_def)
  then show ?thesis using that [OF b _ refl s'] by blast
qed

text \<open>
  C9. The same on PostgreSQL, for times as the server reads them, whatever rows other transactions have
  locked and in whatever order the server returns the rows.
\<close>

theorem postgres_lease_exclusive:
  assumes "store_ok s" and "\<forall>rs. mset (pg_returning P rs) = mset rs"
    and "postgres_lease_ready_jobs P C locked clock table worker limit now expires s = (s1, Inr jobs)"
    and "pg_timestamptz P expires = Some e"
    and "key \<in> lj_job_key ` set jobs"
    and "\<forall>c \<in> set calls. key \<notin> call_names (snd c)
           \<and> (case Option.bind (call_leases_at (snd c)) (pg_timestamptz P) of
                None \<Rightarrow> True | Some n \<Rightarrow> n < e)"
    and "postgres_lease_ready_jobs P C locked' clock' table worker' limit' now' expires'
           (fold (postgres_call P C table) calls s1) = (s2, Inr jobs')"
    and "pg_timestamptz P now' = Some n'" and "n' < e"
  shows "key \<notin> lj_job_key ` set jobs'"
proof
  note perm = assms(2) [rule_format]
  assume again: "key \<in> lj_job_key ` set jobs'"
  obtain rows ks n where rows: "s = Some rows" "lj_job_key ` set jobs \<subseteq> ks"
    "ks = set (postgres_candidates P locked limit n rows)"
    "s1 = Some (update_where (\<lambda>r. job_key r \<in> ks) (set_leased worker e clock) rows)"
    using postgres_lease_cases [OF assms(3) perm] assms(4) by (metis option.inject)
  have ok: "table_ok rows" using assms(1) rows(1) by (simp add: store_ok_def)
  have "ks \<subseteq> job_key ` {r \<in> set rows. may_lease n r}"
    using postgres_candidates_ready [of P locked limit n rows] rows(3) by auto
  moreover have "s1 = Some (update_where (leased_by ks n) (set_leased worker e clock) rows)"
    using rows(3,4) postgres_candidates_hit [OF ok, of _ P locked limit n]
    by (auto simp: update_where_def leased_by_def)
  ultimately have held: "\<And>r. r \<in> set (job_rows s1 key) \<Longrightarrow>
      job_status r = Leased \<and> job_lease_expires_at r = Some e"
    using leased_rows_held [OF _ ok] rows(2) assms(5) by blast
  have s1: "s1 = postgres_call P C table ((locked, [clock]), LeaseReady worker limit now expires) s"
    using assms(3) by simp
  have "store_ok s1" unfolding s1 by (rule postgres.call_ok [OF assms(1)])
  moreover have "\<not> may_lease n r" if "c \<in> set calls"
    "Option.bind (call_leases_at (snd c)) (pg_timestamptz P) = Some n" "r \<in> set (job_rows s1 key)"
    for c n r
    using bspec [OF assms(6) that(1)] that(2) held [OF that(3)] by (auto dest: leased_not_leasable)
  ultimately have idle: "job_rows (fold (postgres_call P C table) calls s1) key = job_rows s1 key"
    by (intro postgres.calls_idle) (use assms(6) in auto)
  obtain rows' ks' where rows': "fold (postgres_call P C table) calls s1 = Some rows'"
    "ks' = set (postgres_candidates P locked' limit' n' rows')" "lj_job_key ` set jobs' \<subseteq> ks'"
    using postgres_lease_cases [OF assms(7) perm] assms(8) by (metis option.inject)
  then have "key \<in> job_key ` {r \<in> set rows'. may_lease n' r}"
    using again postgres_candidates_ready [of P locked' limit' n' rows'] by auto
  then obtain r where "r \<in> set (job_rows s1 key)" "may_lease n' r"
    unfolding idle [symmetric] rows'(1) by auto
  with held assms(9) show False by (auto dest: leased_not_leasable)
qed

definition demo_postgres :: "int postgres" where
  "demo_postgres = \<lparr>pg_timestamptz = (\<lambda>s. Some (int (length s))),
     pg_timestamp_text = (\<lambda>t. replicate (nat t) (CHR ''x'')), pg_collate = id,
     pg_returning = rev, pg_join_pick = hd\<rparr>"

definition demo_pg_jobs :: "int job_store" where
  "demo_pg_jobs = Some [new_job ''a'' ''x'' 1 1, new_job ''b'' ''y'' 2 1]"

theorem postgres_lease_exclusive_witness:
  "''a'' \<notin> lj_job_key ` set (case snd (postgres_lease_ready_jobs demo_postgres demo_codec [] 4 ''jobs''
     ''w2'' 9 ''....'' ''.........''
     (postgres_call demo_postgres demo_codec ''jobs'' (([], [3]), MarkSucceeded ''b'')
       (fst (postgres_lease_ready_jobs demo_postgres demo_codec [] 2 ''jobs'' ''w1'' 9 ''..'' ''.....''
          demo_pg_jobs)))) of Inl e \<Rightarrow> [] | Inr jobs \<Rightarrow> jobs)"
proof -
  let ?lease = "postgres_lease_ready_jobs demo_postgres demo_codec [] 2 ''jobs'' ''w1'' 9 ''..'' ''.....''
      demo_pg_jobs"
  have "snd ?lease = Inr [\<lparr>lj_job_key = ''b'', lj_payload = ''y'', lj_attempt_count = 0\<rparr>,
      \<lparr>lj_job_key = ''a'', lj_payload = ''x'', lj_attempt_count = 0\<rparr>]"
    by code_simp
  then obtain s1 where s1: "?lease = (s1, Inr [\<lparr>lj_job_key = ''b'', lj_payload = ''y'', lj_attempt_count = 0\<rparr>,
      \<lparr>lj_job_key = ''a'', lj_payload = ''x'', lj_attempt_count = 0\<rparr>])"
    by (metis prod.collapse)
  have ok: "store_ok demo_pg_jobs"
    by (simp add: demo_pg_jobs_def store_ok_def table_ok_def new_job_def row_ok_def)
  show ?thesis
  proof (cases "postgres_lease_ready_jobs demo_postgres demo_codec [] 4 ''jobs'' ''w2'' 9 ''....''
      ''.........'' (fold (postgres_call demo_postgres demo_codec ''jobs'')
        [(([], [3]), MarkSucceeded ''b'')] s1)")
    case (Pair s2 r)
    show ?thesis
    proof (cases r)
      case (Inr jobs')
      have "''a'' \<notin> lj_job_key ` set jobs'"
        by (rule postgres_lease_exclusive [OF ok _ s1 _ _ _ Pair [unfolded Inr], of 5 _ 4])
          (auto simp: demo_postgres_def)
      with Pair Inr s1 show ?thesis by simp
    qed (use Pair s1 in simp)
  qed
qed

text \<open>Any sequence of calls keeps every job, its creation time and its attempts so far.\<close>

context job_queue
begin

lemma call_history:
  assumes "store_ok s" and "r \<in> set (job_rows s k)"
  shows "\<exists>r' \<in> set (job_rows (call c s) k).
    job_created_at r' = job_created_at r \<and> job_attempt_count r \<le> job_attempt_count r'"
proof -
  obtain rows where s: "s = Some rows" and r: "r \<in> set rows" "job_key r = k"
    using assms(2) by (cases s) (auto simp: job_rows_def)
  obtain kept added where call: "call c s = Some (kept @ added)"
    and steps: "list_all2 (row_step (names c) (leases_at c)) rows kept"
    using call_step [OF assms(1), of c] s by (auto simp: store_step_def table_step_def)
  obtain r' where "r' \<in> set kept" "row_step (names c) (leases_at c) r r'"
    using steps r(1) by (metis list_all2_conv_all_nth in_set_conv_nth)
  then show ?thesis using call r(2) by (auto simp: row_step_def)
qed

lemma calls_history:
  "store_ok s \<Longrightarrow> r \<in> set (job_rows s k) \<Longrightarrow> \<exists>r' \<in> set (job_rows (fold call cs s) k).
     job_created_at r' = job_created_at r \<and> job_attempt_count r \<le> job_attempt_count r'"
proof (induction cs arbitrary: s r)
  case (Cons c cs)
  obtain q where q: "q \<in> set (job_rows (call c s) k)" "job_created_at q = job_created_at r"
    "job_attempt_count r \<le> job_attempt_count q"
    using call_history [OF Cons.prems] by blast
  obtain p where "p \<in> set (job_rows (fold call cs (call c s)) k)"
    "job_created_at p = job_created_at q" "job_attempt_count q \<le> job_attempt_count p"
    using Cons.IH [OF call_ok [OF Cons.prems(1)] q(1)] by blast
  then show ?case using q by (intro bexI [of _ p]) auto
qed auto

lemma done_stays:
  assumes "store_ok s" and "r \<in> set (job_rows s k)" and "job_status r = Succeeded"
    and "\<And>c. c \<in> set cs \<Longrightarrow> k \<notin> names c"
  shows "job_rows (fold call cs s) k = job_rows s k"
proof (rule calls_idle [OF assms(1)])
  fix c n q assume "q \<in> set (job_rows s k)"
  then have "q = r"
    using assms(1,2) table_ok_key_inj by (cases s) (auto simp: store_ok_def job_rows_def)
  then show "\<not> may_lease n q" using assms(3) by (simp add: may_lease_def)
qed (use assms(4) in auto)

end

text \<open>
  C22. On both backends every sequence of calls on a well-formed table, an empty database included,
  leaves a well-formed table: no two rows share a key, exactly the leased rows have an owner and an
  expiry time, and attempt counts are not negative. No job is lost on the way, none changes its
  creation time, and no attempt count decreases.
\<close>

theorem job_tables_stay_well_formed:
  assumes "store_ok s" and "store_ok s'"
  shows "store_ok (fold (sqlite_call C table) cs s)
    \<and> store_ok (fold (postgres_call P C table) ds s')
    \<and> (\<forall>k. \<forall>r \<in> set (job_rows s k). \<exists>r' \<in> set (job_rows (fold (sqlite_call C table) cs s) k).
         job_created_at r' = job_created_at r \<and> job_attempt_count r \<le> job_attempt_count r')
    \<and> (\<forall>k. \<forall>r \<in> set (job_rows s' k). \<exists>r' \<in> set (job_rows (fold (postgres_call P C table) ds s') k).
         job_created_at r' = job_created_at r \<and> job_attempt_count r \<le> job_attempt_count r')"
  by (intro conjI allI ballI sqlite.calls_ok postgres.calls_ok sqlite.calls_history
      postgres.calls_history assms)

theorem job_tables_stay_well_formed_witness:
  "store_ok (fold (sqlite_call demo_codec ''jobs'')
     [((True, ''1''), EnsureTable True), ((True, ''1''), Enqueue ''a'' ''x'' ''1''),
      ((True, ''2''), LeaseReady ''w'' 1 ''2'' ''5''), ((True, ''3''), MarkRetry ''a'' ''4'' None)] None)"
  by (rule job_tables_stay_well_formed [where s' = None and P = demo_postgres and ds = "[]",
      THEN conjunct1]) (simp_all add: store_ok_def)

text \<open>
  A succeeded job stays as it is, on both backends, until a call names it: leasing never touches it.
\<close>

theorem succeeded_jobs_stay:
  assumes "store_ok s" and "r \<in> set (job_rows s k)" and "job_status r = Succeeded"
    and "\<forall>c \<in> set cs. k \<notin> call_names (snd c)"
    and "store_ok s'" and "r' \<in> set (job_rows s' k)" and "job_status r' = Succeeded"
    and "\<forall>d \<in> set ds. k \<notin> call_names (snd d)"
  shows "job_rows (fold (sqlite_call C table) cs s) k = job_rows s k
    \<and> job_rows (fold (postgres_call P C table) ds s') k = job_rows s' k"
  using assms(4,8) by (intro conjI sqlite.done_stays [OF assms(1-3)] postgres.done_stays [OF assms(5-7)]) auto

theorem succeeded_jobs_stay_witness:
  "job_rows (fold (sqlite_call demo_codec ''jobs'') [((True, ''2''), LeaseReady ''w'' 9 ''2'' ''5'')]
     (Some [set_succeeded ''1'' (new_job ''a'' ''x'' ''1'' ''1'')])) ''a''
   = [set_succeeded ''1'' (new_job ''a'' ''x'' ''1'' ''1'')]"
  using succeeded_jobs_stay [of "Some [set_succeeded ''1'' (new_job ''a'' ''x'' ''1'' ''1'')]"
      "set_succeeded ''1'' (new_job ''a'' ''x'' ''1'' ''1'')" "''a''"
      "[((True, ''2''), LeaseReady ''w'' 9 ''2'' ''5'')]"
      "Some [set_succeeded 1 (new_job ''a'' ''x'' 1 1)]" "set_succeeded 1 (new_job ''a'' ''x'' 1 1)" "[]"
      demo_codec "''jobs''" demo_postgres]
  by (simp add: store_ok_def table_ok_def row_ok_def set_succeeded_def new_job_def)

section \<open>What is leased\<close>

lemma distinct_select_ready:
  "table_ok rows \<Longrightarrow> distinct (map job_key (select_ready collate now rows))"
  unfolding table_ok_def select_ready_def distinct_map
  by (auto intro: inj_on_subset)

lemma distinct_sqlite_limit: "distinct (map f rows) \<Longrightarrow> distinct (map f (sqlite_limit n rows))"
  by (simp add: sqlite_limit_def take_map [symmetric])

lemma sqlite_lease_loop_exact:
  assumes "distinct (map job_key selected)"
    and "\<And>r. r \<in> set selected \<Longrightarrow> r \<in> set rows \<and> may_lease now r"
  shows "sqlite_lease_loop C clock w now e selected rows =
    rbind (collect_results (decode_job C) selected) (\<lambda>jobs.
      Inr (update_where (leased_by (job_key ` set selected) now) (set_leased w e clock) rows, jobs))"
  using assms
proof (induction selected arbitrary: rows)
  case Nil
  show ?case by (simp add: update_where_def leased_by_def)
next
  case (Cons r selected)
  let ?hit = "\<lambda>q. job_key q = job_key r \<and> may_lease now q"
  let ?rows = "update_where ?hit (set_leased w e clock) rows"
  have hits: "rows_affected ?hit rows \<noteq> 0"
    using Cons.prems(2) [of r] by (auto simp: rows_affected_def filter_empty_conv)
  have rest: "sqlite_lease_loop C clock w now e selected ?rows =
    rbind (collect_results (decode_job C) selected) (\<lambda>jobs.
      Inr (update_where (leased_by (job_key ` set selected) now) (set_leased w e clock) ?rows, jobs))"
  proof (rule Cons.IH)
    fix q assume "q \<in> set selected"
    moreover from this Cons.prems(1) have "job_key q \<noteq> job_key r"
      by (metis distinct.simps(2) image_eqI list.set_map list.simps(9))
    ultimately show "q \<in> set ?rows \<and> may_lease now q"
      using Cons.prems(2) [of q] by (force simp: update_where_def)
  qed (use Cons.prems(1) in simp)
  have "update_where (leased_by (job_key ` set selected) now) (set_leased w e clock) ?rows
      = update_where (leased_by (job_key ` set (r # selected)) now) (set_leased w e clock) rows"
    by (auto simp: update_where_def leased_by_def)
  then show ?case
    using hits rest by (cases "decode_job C r"; cases "collect_results (decode_job C) selected")
      (simp_all add: Let_def)
qed

lemma leased_by_selected:
  assumes "table_ok rows" and "set selected \<subseteq> {r \<in> set rows. may_lease now r}"
  shows "update_where (leased_by (job_key ` set selected) now) f rows
    = map (\<lambda>r. if r \<in> set selected then f r else r) rows"
proof -
  have "leased_by (job_key ` set selected) now r \<longleftrightarrow> r \<in> set selected" if "r \<in> set rows" for r
    using assms(2) that table_ok_key_inj [OF assms(1) that] unfolding leased_by_def by blast
  then show ?thesis by (simp add: update_where_def)
qed

lemma sqlite_lease_selected:
  assumes "table_ok rows"
  shows "sqlite_lease_loop C clock w now e (sqlite_limit limit (select_ready id now rows)) rows =
    rbind (collect_results (decode_job C) (sqlite_limit limit (select_ready id now rows))) (\<lambda>jobs.
      Inr (map (\<lambda>r. if r \<in> set (sqlite_limit limit (select_ready id now rows)) then set_leased w e clock r
          else r) rows, jobs))"
proof -
  have sel: "set (sqlite_limit limit (select_ready id now rows)) \<subseteq> {r \<in> set rows. may_lease now r}"
    using set_sqlite_limit [of limit "select_ready id now rows"] by auto
  show ?thesis
    unfolding leased_by_selected [OF assms sel, symmetric]
    by (rule sqlite_lease_loop_exact)
      (use sel distinct_sqlite_limit [OF distinct_select_ready [OF assms]] in auto)
qed

text \<open>The jobs that are due, and the order in which they are served.\<close>

definition due :: "'t::linorder \<Rightarrow> 't job_row \<Rightarrow> bool" where
  "due now r \<longleftrightarrow>
     job_status r = Ready
   \<or> job_status r = RetryWait \<and> job_next_attempt_at r \<le> now
   \<or> job_status r = Leased \<and> (\<exists>e. job_lease_expires_at r = Some e \<and> e \<le> now)"

definition served_before :: "'t::linorder job_row \<Rightarrow> 't job_row \<Rightarrow> bool" where
  "served_before x y \<longleftrightarrow>
     job_next_attempt_at x < job_next_attempt_at y
   \<or> job_next_attempt_at x = job_next_attempt_at y \<and>
      (job_created_at x < job_created_at y
       \<or> job_created_at x = job_created_at y \<and> job_key x < job_key y)"

lemma due_may_lease: "due now r \<longleftrightarrow> may_lease now r"
  by (auto simp: due_def may_lease_def split: option.split)

lemma served_before_key: "served_before x y \<longleftrightarrow> schedule_key id x < schedule_key id y"
  by (auto simp: served_before_def schedule_key_def)

lemma select_ready_served:
  assumes "table_ok rows"
  shows "sorted_wrt served_before (select_ready id now rows)"
proof -
  have "distinct (map (schedule_key id) (select_ready id now rows))"
    using distinct_select_ready [OF assms, of id now] unfolding distinct_map
    by (auto simp: schedule_key_def inj_on_def)
  moreover have "sorted (map (schedule_key id) (select_ready id now rows))"
    by (simp add: select_ready_def)
  ultimately have "sorted_wrt (<) (map (schedule_key id) (select_ready id now rows))"
    by (simp add: strict_sorted_iff)
  then show ?thesis by (simp add: sorted_wrt_map served_before_key [abs_def])
qed

lemma length_select_ready:
  assumes "table_ok rows"
  shows "length (select_ready id now rows) = card {r \<in> set rows. due now r}"
proof -
  have "distinct (select_ready id now rows)"
    using distinct_select_ready [OF assms, of id now] by (simp add: distinct_map)
  from distinct_card [OF this] show ?thesis by (simp add: due_may_lease)
qed

lemma collect_decode_job:
  "collect_results (decode_job C) rows =
     (if \<forall>r \<in> set rows. cd_decode C (job_payload_json r) \<noteq> None
      then Inr (map (\<lambda>r. \<lparr>lj_job_key = job_key r, lj_payload = the (cd_decode C (job_payload_json r)),
        lj_attempt_count = job_attempt_count r\<rparr>) rows)
      else Inl StorageJson)"
proof (induction rows)
  case (Cons r rows)
  then show ?case by (cases "cd_decode C (job_payload_json r)") (simp_all add: decode_job_def decode_json_def)
qed simp

text \<open>
  C20. What a lease on SQLite does. It takes jobs that are due: ready, waiting for a retry whose time has
  come, or leased with an expired lease. It takes the first of them by time of the next attempt,
  then time of creation, then key, each ascending: those it takes are in this order, and come before
  every due job that it leaves. It takes as many as the limit says and are due, all when the limit is
  negative. When every payload it takes decodes, exactly these rows become leased to the worker until the
  given time, and these jobs are returned in this order; else it reports the error and changes nothing.
\<close>

theorem sqlite_lease_takes_schedule:
  assumes "table_ok rows" and "validated_identifier table = Inr table"
  shows "\<exists>taken. distinct taken \<and> set taken \<subseteq> {r \<in> set rows. due now r}
    \<and> length taken = (if limit < 0 then card {r \<in> set rows. due now r}
        else min (nat limit) (card {r \<in> set rows. due now r}))
    \<and> sorted_wrt served_before taken
    \<and> (\<forall>x \<in> set taken. \<forall>y \<in> {r \<in> set rows. due now r} - set taken. served_before x y)
    \<and> sqlite_lease_ready_jobs C True clock table w limit now e (Some rows) =
        (if \<forall>r \<in> set taken. cd_decode C (job_payload_json r) \<noteq> None
         then (Some (map (\<lambda>r. if r \<in> set taken
                 then r\<lparr>job_status := Leased, job_lease_owner := Some w, job_lease_expires_at := Some e,
                   job_updated_at := clock\<rparr>
                 else r) rows),
               Inr (map (\<lambda>r. \<lparr>lj_job_key = job_key r, lj_payload = the (cd_decode C (job_payload_json r)),
                 lj_attempt_count = job_attempt_count r\<rparr>) taken))
         else (Some rows, Inl StorageJson))"
proof -
  let ?all = "select_ready id now rows"
  define k where "k = (if limit < 0 then length ?all else nat limit)"
  have taken: "sqlite_limit limit ?all = take k ?all" by (simp add: sqlite_limit_def k_def)
  have set_all: "set ?all = {r \<in> set rows. due now r}" by (simp add: due_may_lease)
  have "sorted_wrt served_before (take k ?all @ drop k ?all)" using select_ready_served [OF assms(1)] by simp
  then have order: "sorted_wrt served_before (take k ?all)"
    "\<forall>x \<in> set (take k ?all). \<forall>y \<in> set (drop k ?all). served_before x y"
    unfolding sorted_wrt_append by blast+
  have left: "{r \<in> set rows. due now r} - set (take k ?all) \<subseteq> set (drop k ?all)"
    using set_append [of "take k ?all" "drop k ?all"] unfolding append_take_drop_id set_all by blast
  have "sqlite_lease_ready_jobs C True clock table w limit now e (Some rows) =
    (case collect_results (decode_job C) (take k ?all) of
       Inl err \<Rightarrow> (Some rows, Inl err)
     | Inr jobs \<Rightarrow>
         (Some (map (\<lambda>r. if r \<in> set (take k ?all) then set_leased w e clock r else r) rows), Inr jobs))"
    using sqlite_lease_selected [OF assms(1), of C clock w now e limit]
    by (cases "collect_results (decode_job C) (take k ?all)")
      (simp_all add: sqlite_lease_ready_jobs_def on_table_def assms(2) Let_def taken)
  moreover have "distinct (take k ?all)"
    using distinct_select_ready [OF assms(1), of id now] by (simp add: distinct_map)
  moreover have "length (take k ?all) = (if limit < 0 then card {r \<in> set rows. due now r}
      else min (nat limit) (card {r \<in> set rows. due now r}))"
    by (simp add: k_def length_select_ready [OF assms(1)] min.commute)
  moreover have "set (take k ?all) \<subseteq> {r \<in> set rows. due now r}"
    unfolding set_all [symmetric] by (rule set_take_subset)
  ultimately show ?thesis
    using order left by (intro exI [of _ "take k ?all"]) (auto simp: collect_decode_job set_leased_def)
qed

text \<open>The job that waits longest for its attempt comes first, though another one is older and has a smaller key.\<close>

theorem sqlite_lease_takes_schedule_witness:
  "sqlite_lease_ready_jobs demo_codec True ''2'' ''jobs'' ''w'' 1 ''3'' ''5''
      (Some [new_job ''a'' ''x'' ''2'' ''1'', new_job ''b'' ''y'' ''1'' ''2'']) =
     (Some [new_job ''a'' ''x'' ''2'' ''1'', set_leased ''w'' ''5'' ''2'' (new_job ''b'' ''y'' ''1'' ''2'')],
      Inr [\<lparr>lj_job_key = ''b'', lj_payload = ''y'', lj_attempt_count = 0\<rparr>])"
proof -
  let ?a = "new_job ''a'' ''x'' ''2'' ''1''" and ?b = "new_job ''b'' ''y'' ''1'' ''2''"
  have ok: "table_ok [?a, ?b]" by (simp add: table_ok_def row_ok_def new_job_def)
  have name: "validated_identifier ''jobs'' = Inr ''jobs''" by code_simp
  have ab: "?a \<noteq> ?b" "\<not> served_before ?a ?b" by code_simp+
  have "due ''3'' ?a" "due ''3'' ?b" by (simp_all add: due_def new_job_def)
  then have all: "{r \<in> set [?a, ?b]. due ''3'' r} = {?a, ?b}" by auto
  obtain taken where t: "set taken \<subseteq> {?a, ?b}" "length taken = 1"
    "\<forall>x \<in> set taken. \<forall>y \<in> {?a, ?b} - set taken. served_before x y"
    and call: "sqlite_lease_ready_jobs demo_codec True ''2'' ''jobs'' ''w'' 1 ''3'' ''5'' (Some [?a, ?b]) =
        (if \<forall>r \<in> set taken. cd_decode demo_codec (job_payload_json r) \<noteq> None
         then (Some (map (\<lambda>r. if r \<in> set taken
                 then r\<lparr>job_status := Leased, job_lease_owner := Some ''w'', job_lease_expires_at := Some ''5'',
                   job_updated_at := ''2''\<rparr>
                 else r) [?a, ?b]),
               Inr (map (\<lambda>r. \<lparr>lj_job_key = job_key r, lj_payload = the (cd_decode demo_codec (job_payload_json r)),
                 lj_attempt_count = job_attempt_count r\<rparr>) taken))
         else (Some [?a, ?b], Inl StorageJson))"
    using sqlite_lease_takes_schedule [OF ok name, of "''3''" 1 demo_codec "''2''" "''w''" "''5''"]
    unfolding all using ab(1) by auto
  from t(2) obtain x where x: "taken = [x]" by (auto simp: length_Suc_conv)
  with t(1,3) ab have "taken = [?b]" by auto
  with call ab(1) show ?thesis by (simp add: new_job_def set_leased_def demo_codec_def)
qed

text \<open>
  PostgreSQL leases the same rows when no other transaction holds a lock, but the rows stay
  leased when a payload cannot be decoded: the update is committed before the decoding.
\<close>

theorem postgres_lease_keeps_undecodable_jobs:
  assumes "table_ok rows" and "validated_identifier table = Inr table" and "0 \<le> limit"
    and "pg_timestamptz P now = Some n" and "pg_timestamptz P expires = Some e"
  shows "postgres_lease_ready_jobs P C [] clock table w limit now expires (Some rows) =
    (let selected = take (nat limit) (select_ready (pg_collate P) n rows) in
     (Some (map (\<lambda>r. if r \<in> set selected then set_leased w e clock r else r) rows),
      collect_results (decode_job C) (pg_returning P (filter (\<lambda>r. r \<in> set selected) rows))))"
proof -
  let ?selected = "take (nat limit) (select_ready (pg_collate P) n rows)"
  have candidates: "set (postgres_candidates P [] limit n rows) = job_key ` set ?selected"
    by (simp add: postgres_candidates_def)
  have sel: "set ?selected \<subseteq> set rows" by (auto dest!: in_set_takeD)
  have same: "job_key r \<in> job_key ` set ?selected \<longleftrightarrow> r \<in> set ?selected" if "r \<in> set rows" for r
    using sel that table_ok_key_inj [OF assms(1) that] by blast
  have "update_where (\<lambda>r. job_key r \<in> job_key ` set ?selected) (set_leased w e clock) rows
      = map (\<lambda>r. if r \<in> set ?selected then set_leased w e clock r else r) rows"
    using same by (simp add: update_where_def)
  moreover have "filter (\<lambda>r. job_key r \<in> job_key ` set ?selected) rows
      = filter (\<lambda>r. r \<in> set ?selected) rows"
    using same by (intro filter_cong) auto
  ultimately show ?thesis
    using assms(2-5) by (simp add: postgres_lease_ready_jobs_def on_table_def Let_def candidates)
qed

theorem postgres_lease_keeps_undecodable_jobs_witness:
  "fst (postgres_lease_ready_jobs demo_postgres (demo_codec\<lparr>cd_decode := (\<lambda>_. None)\<rparr>) [] 2 ''jobs''
     ''w'' 1 ''..'' ''.....'' demo_pg_jobs) \<noteq> demo_pg_jobs"
proof -
  have ok: "table_ok [new_job ''a'' ''x'' 1 1, new_job ''b'' ''y'' 2 (1::int)]"
    by (simp add: table_ok_def new_job_def row_ok_def)
  have name: "validated_identifier ''jobs'' = Inr ''jobs''" by code_simp
  have sel: "take (nat 1) (select_ready (pg_collate demo_postgres) 2
      [new_job ''a'' ''x'' 1 1, new_job ''b'' ''y'' 2 (1::int)]) = [new_job ''a'' ''x'' 1 1]"
    by code_simp
  have lease: "postgres_lease_ready_jobs demo_postgres (demo_codec\<lparr>cd_decode := (\<lambda>_. None)\<rparr>) [] 2
      ''jobs'' ''w'' 1 ''..'' ''.....'' (Some [new_job ''a'' ''x'' 1 1, new_job ''b'' ''y'' 2 1])
    = (let selected = take (nat 1) (select_ready (pg_collate demo_postgres) 2
          [new_job ''a'' ''x'' 1 1, new_job ''b'' ''y'' 2 1]) in
       (Some (map (\<lambda>r. if r \<in> set selected then set_leased ''w'' 5 2 r else r)
          [new_job ''a'' ''x'' 1 1, new_job ''b'' ''y'' 2 1]),
        collect_results (decode_job (demo_codec\<lparr>cd_decode := (\<lambda>_. None)\<rparr>))
          (pg_returning demo_postgres (filter (\<lambda>r. r \<in> set selected)
            [new_job ''a'' ''x'' 1 1, new_job ''b'' ''y'' 2 1]))))"
    by (rule postgres_lease_keeps_undecodable_jobs [OF ok name]) (simp_all add: demo_postgres_def)
  show ?thesis
    unfolding demo_pg_jobs_def lease Let_def sel by (simp add: new_job_def set_leased_def)
qed

section \<open>Batches\<close>

lemma set_succeeded_simps [simp]:
  "job_key (set_succeeded c r) = job_key r"
  "set_succeeded c (set_succeeded c r) = set_succeeded c r"
  by (simp_all add: set_succeeded_def)

lemma succeed_twice:
  "update_where (\<lambda>r. p (job_key r)) (set_succeeded c)
      (update_where (\<lambda>r. q (job_key r)) (set_succeeded c) rows)
     = update_where (\<lambda>r. q (job_key r) \<or> p (job_key r)) (set_succeeded c) rows"
  by (simp add: update_where_def)

lemma affected_after_success:
  "rows_affected (\<lambda>r. job_key r \<in> B) (update_where p (set_succeeded c) rows)
     = rows_affected (\<lambda>r. job_key r \<in> B) rows"
  by (simp add: rows_affected_def update_where_def filter_map o_def if_distrib [of job_key] cong: if_cong)

lemma sqlite_succeed_chunks_eq:
  "sqlite_succeed_chunks clock cs rows =
     (update_where (\<lambda>r. job_key r \<in> \<Union> (set ` set cs)) (set_succeeded clock) rows,
      sum_list (map (\<lambda>c. rows_affected (\<lambda>r. job_key r \<in> set c) rows) cs))"
proof (induction cs arbitrary: rows)
  case Nil
  show ?case by (simp add: update_where_def)
next
  case (Cons c cs)
  show ?case
    by (simp add: Let_def Cons.IH affected_after_success
        succeed_twice [where p = "\<lambda>x. \<exists>c\<in>set cs. x \<in> set c" and q = "\<lambda>x. x \<in> set c"])
qed

lemma affected_by_chunks:
  "distinct (concat cs) \<Longrightarrow> sum_list (map (\<lambda>c. rows_affected (\<lambda>r. job_key r \<in> set c) rows) cs)
     = rows_affected (\<lambda>r. job_key r \<in> set (concat cs)) rows"
proof (induction cs)
  case (Cons c cs)
  have "length (filter (\<lambda>r. job_key r \<in> set c) rs) + length (filter (\<lambda>r. job_key r \<in> set (concat cs)) rs)
      = length (filter (\<lambda>r. job_key r \<in> set c \<union> set (concat cs)) rs)" for rs
    using Cons.prems by (induction rs) auto
  then show ?case using Cons by (simp add: rows_affected_def)
qed (simp add: rows_affected_def)

lemma succeed_each:
  assumes "validated_identifier table = Inr table"
  shows "fold (\<lambda>k s. fst (sqlite_mark_leased_job_succeeded clock table k s)) ks (Some rows)
     = Some (update_where (\<lambda>r. job_key r \<in> set ks) (set_succeeded clock) rows)"
proof (induction ks arbitrary: rows)
  case Nil
  show ?case by (simp add: update_where_def)
next
  case (Cons k ks)
  have "fst (sqlite_mark_leased_job_succeeded clock table k (Some rows))
      = Some (update_where (\<lambda>r. job_key r = k) (set_succeeded clock) rows)"
    using assms by (simp add: sqlite_mark_leased_job_succeeded_def on_table_def)
  then show ?case
    by (simp add: Cons.IH succeed_twice [where p = "\<lambda>x. x \<in> set ks" and q = "\<lambda>x. x = k"])
qed

lemma validated_identifier_same: "validated_identifier t = Inr u \<Longrightarrow> u = t"
  by (simp add: validated_identifier_def split: if_split_asm)



text \<open>
  Retries in a batch differ between the backends: a job that a batch names twice counts two
  attempts on SQLite and one on PostgreSQL.
\<close>

theorem batch_retry_differs:
  "map job_attempt_count (the (fst (sqlite_mark_leased_jobs_retry True ''2'' ''jobs''
     [(''a'', ''e''), (''a'', ''f'')] ''3'' (Some [new_job ''a'' ''x'' ''1'' ''1''])))) = [2]
   \<and> map job_attempt_count (the (fst (postgres_mark_leased_jobs_retry demo_postgres [2] ''jobs''
     [(''a'', ''e''), (''a'', ''f'')] ''...'' (Some [new_job ''a'' ''x'' 1 1])))) = [1]"
  by code_simp

text \<open>
  A batch of retries is not atomic on PostgreSQL: when the server fails at the second statement, the call
  reports an error and the first 500 jobs have been counted a retry.
\<close>

theorem batch_retry_fails_halfway:
  assumes "pg_timestamptz P next_attempt_at = Some t" and "500 < length jobs"
    and "validated_identifier table = Inr table"
  shows "\<exists>rows' n. postgres_mark_leased_jobs_retry P [clock] table (take 500 jobs) next_attempt_at (Some rows)
        = (Some rows', Inr n)
    \<and> postgres_mark_leased_jobs_retry P [clock] table jobs next_attempt_at (Some rows)
        = (Some rows', Inl StorageSql)"
proof -
  have nonempty: "jobs \<noteq> []" using assms(2) by auto
  have "chunks 500 jobs = take 500 jobs # chunks 500 (drop 500 jobs)"
    and "chunks 500 (drop 500 jobs) \<noteq> []" and "chunks 500 (take 500 jobs) = [take 500 jobs]"
    using assms(2) nonempty by (simp_all add: chunks.simps [of 500])
  moreover from this(2) obtain c cs where "chunks 500 (drop 500 jobs) = c # cs" by (metis list.exhaust)
  ultimately show ?thesis
    using assms nonempty by (auto simp: postgres_mark_leased_jobs_retry_def on_table_def Let_def)
qed

theorem batch_retry_fails_halfway_witness:
  "\<exists>rows. postgres_mark_leased_jobs_retry demo_postgres [2] ''jobs'' (replicate 501 (''a'', ''e'')) ''...''
      (Some [new_job ''a'' ''x'' 1 1]) = (Some rows, Inl StorageSql)"
proof -
  have "validated_identifier ''jobs'' = Inr ''jobs''" by code_simp
  from batch_retry_fails_halfway [OF _ _ this, of demo_postgres "''...''" 3 "replicate 501 (''a'', ''e'')" 2
      "[new_job ''a'' ''x'' 1 1]"]
  show ?thesis by (auto simp: demo_postgres_def)
qed

end
