(* ===== verification/JobDrain.thy ===== *)
theory JobDrain
  imports JobQueue
begin

text \<open>
  A worker over the job tables of \<open>oan-storage\<close>: it leases a batch, works on it, marks it as
  succeeded, and stops when a lease hands out nothing. The rounds of the worker have limits, lease
  times and clocks of their own. Both backends are shown to be what the worker needs.
\<close>

section \<open>The worker\<close>

text \<open>The worker returns the jobs it did, or nothing when it is still busy after the last round.\<close>

fun drain ::
  "('e \<Rightarrow> 's \<Rightarrow> 's \<times> (storage_error + 'a leased_job list))
     \<Rightarrow> ('e \<Rightarrow> string list \<Rightarrow> 's \<Rightarrow> 's \<times> (storage_error + nat))
     \<Rightarrow> 'e list \<Rightarrow> 's \<Rightarrow> ('s \<times> (storage_error + 'a leased_job list)) option" where
  "drain lease finish [] s = None"
| "drain lease finish (env # rounds) s =
     (case lease env s of
        (s1, Inl err) \<Rightarrow> Some (s1, Inl err)
      | (s1, Inr jobs) \<Rightarrow>
          if jobs = [] then Some (s1, Inr [])
          else (case finish env (map lj_job_key jobs) s1 of
                  (s2, Inl err) \<Rightarrow> Some (s2, Inl err)
                | (s2, Inr _) \<Rightarrow>
                    map_option (map_prod id (map_sum id (\<lambda>rest. jobs @ rest))) (drain lease finish rounds s2)))"

text \<open>The job that a row stands for, and the fate of a row: done when it could be leased.\<close>

definition job_of :: "'a codec \<Rightarrow> 't job_row \<Rightarrow> 'a leased_job" where
  "job_of C r = \<lparr>lj_job_key = job_key r, lj_payload = the (cd_decode C (job_payload_json r)),
     lj_attempt_count = job_attempt_count r\<rparr>"

definition decodable :: "'a codec \<Rightarrow> 't job_row \<Rightarrow> bool" where
  "decodable C r \<longleftrightarrow> cd_decode C (job_payload_json r) \<noteq> None"

definition worked_off :: "'t::linorder \<Rightarrow> 't job_row \<Rightarrow> 't job_row \<Rightarrow> bool" where
  "worked_off now r r' \<longleftrightarrow> (if may_lease now r then \<exists>clock. r' = set_succeeded clock r else r' = r)"

lemma collect_decoded:
  "\<forall>r \<in> set rows. decodable C r \<Longrightarrow> collect_results (decode_job C) rows = Inr (map (job_of C) rows)"
  by (induction rows) (auto simp: decodable_def decode_job_def decode_json_def job_of_def)

section \<open>What the worker needs\<close>

text \<open>The table after the first \<open>k\<close> jobs of the schedule are changed.\<close>

definition with_first ::
  "nat \<Rightarrow> (string \<Rightarrow> string) \<Rightarrow> 't::linorder \<Rightarrow> ('t job_row \<Rightarrow> 't job_row) \<Rightarrow> 't job_row list \<Rightarrow> 't job_row list"
where
  "with_first k collate now f rows =
     map (\<lambda>r. if r \<in> set (take k (select_ready collate now rows)) then f r else r) rows"

locale worker =
  fixes lease :: "'e \<Rightarrow> 't::linorder job_store \<Rightarrow> 't job_store \<times> (storage_error + 'a leased_job list)"
    and finish :: "'e \<Rightarrow> string list \<Rightarrow> 't job_store \<Rightarrow> 't job_store \<times> (storage_error + nat)"
    and fair :: "'e \<Rightarrow> bool"
    and same :: "'a leased_job list \<Rightarrow> 'a leased_job list \<Rightarrow> bool"
    and C :: "'a codec" and collate :: "string \<Rightarrow> string" and now :: 't
  assumes lease_first: "fair env \<Longrightarrow> table_ok rows \<Longrightarrow> \<forall>r \<in> set rows. may_lease now r \<longrightarrow> decodable C r \<Longrightarrow>
      \<exists>k w e c jobs. 0 < k \<and> lease env (Some rows) = (Some (with_first k collate now (set_leased w e c) rows), Inr jobs)
        \<and> same jobs (map (job_of C) (take k (select_ready collate now rows)))"
    and finish_named: "fair env \<Longrightarrow> ks \<noteq> [] \<Longrightarrow>
      \<exists>c n. finish env ks (Some rows) = (Some (update_where (\<lambda>r. job_key r \<in> set ks) (set_succeeded c) rows), Inr n)"
    and same_append: "same jobs js \<Longrightarrow> same jobs' js' \<Longrightarrow> same (jobs @ jobs') (js @ js')"
    and same_mset: "same jobs js \<Longrightarrow> mset jobs = mset js"

lemma succeeded_after_lease [simp]: "set_succeeded c (set_leased w e d r) = set_succeeded c r"
  by (simp add: set_leased_def set_succeeded_def)

lemma succeeded_not_leasable [simp]: "\<not> may_lease now (set_succeeded c r)"
  by (simp add: may_lease_def set_succeeded_def)

lemma first_selected:
  "r \<in> set (take k (select_ready collate now rows)) \<Longrightarrow> r \<in> set rows \<and> may_lease now r"
  by (auto dest!: in_set_takeD)

text \<open>Finishing the jobs of a lease leaves the rest of the schedule, and nothing else changes.\<close>

lemma finish_first:
  assumes "table_ok rows"
    and "ks = job_key ` set (take k (select_ready collate now rows))"
  shows "update_where (\<lambda>r. job_key r \<in> ks) (set_succeeded c) (with_first k collate now (set_leased w e d) rows)
    = with_first k collate now (set_succeeded c) rows"
proof -
  have "job_key r \<in> ks \<longleftrightarrow> r \<in> set (take k (select_ready collate now rows))" if "r \<in> set rows" for r
    using table_ok_key_inj [OF assms(1) that] first_selected assms(2) by blast
  then show ?thesis by (simp add: update_where_def with_first_def)
qed

lemma with_first_ok: "table_ok rows \<Longrightarrow> table_ok (with_first k collate now (set_succeeded c) rows)"
  unfolding table_ok_def with_first_def
  by (auto simp: o_def if_distrib [of job_key] list_all_iff row_ok_def set_succeeded_def cong: if_cong)

lemma filter_changed:
  "(\<And>r. \<not> p (f r)) \<Longrightarrow>
     filter p (map (\<lambda>r. if r \<in> A then f r else r) rows) = filter (\<lambda>r. r \<notin> A) (filter p rows)"
  by (induction rows) auto

lemma with_first_schedule:
  assumes "table_ok rows"
  shows "select_ready collate now (with_first k collate now (set_succeeded c) rows)
    = drop k (select_ready collate now rows)"
proof -
  let ?sel = "select_ready collate now rows"
  have "filter (may_lease now) (with_first k collate now (set_succeeded c) rows)
      = filter (\<lambda>r. r \<notin> set (take k ?sel)) (filter (may_lease now) rows)"
    unfolding with_first_def by (rule filter_changed) simp
  then have "select_ready collate now (with_first k collate now (set_succeeded c) rows)
      = filter (\<lambda>r. r \<notin> set (take k ?sel)) ?sel"
    by (simp add: select_ready_def filter_sort)
  also have "\<dots> = filter (\<lambda>r. r \<notin> set (take k ?sel)) (take k ?sel @ drop k ?sel)"
    by simp
  also have "\<dots> = drop k ?sel"
    using distinct_select_ready [OF assms, of collate now] set_take_disj_set_drop_if_distinct [of ?sel k k]
    unfolding filter_append by (auto simp: distinct_map filter_empty_conv filter_id_conv)
  finally show ?thesis .
qed

lemma worked_off_first:
  assumes "list_all2 (worked_off now) (with_first k collate now (set_succeeded c) rows) rows'"
  shows "list_all2 (worked_off now) rows rows'"
  using assms first_selected [of _ k collate now rows]
  unfolding with_first_def list_all2_map1
  by (auto elim!: list_all2_mono simp: worked_off_def split: if_split_asm)

context worker
begin

text \<open>Every job is done once, in as many rounds as there are jobs and one more at most.\<close>

lemma drain_all:
  assumes "\<forall>env \<in> set rounds. fair env" and "table_ok rows"
    and "\<forall>r \<in> set rows. may_lease now r \<longrightarrow> decodable C r"
    and "length (select_ready collate now rows) < length rounds"
  shows "\<exists>rows' jobs. drain lease finish rounds (Some rows) = Some (Some rows', Inr jobs)
    \<and> list_all2 (worked_off now) rows rows' \<and> same jobs (map (job_of C) (select_ready collate now rows))"
  using assms
proof (induction rounds arbitrary: rows)
  case (Cons env rounds)
  let ?sel = "select_ready collate now rows"
  obtain k w e d jobs where k: "0 < k"
    and lease: "lease env (Some rows) = (Some (with_first k collate now (set_leased w e d) rows), Inr jobs)"
    and same: "same jobs (map (job_of C) (take k ?sel))"
    using lease_first [of env rows] Cons.prems by auto
  show ?case
  proof (cases "?sel = []")
    case True
    then have "\<forall>r \<in> set rows. \<not> may_lease now r" by (metis set_select_ready empty_set emptyE mem_Collect_eq)
    moreover have "jobs = []" using same_mset [OF same] True by simp
    ultimately show ?thesis
      using lease same True by (auto simp: with_first_def worked_off_def list_all2_same)
  next
    case False
    have keys: "set (map lj_job_key jobs) = job_key ` set (take k ?sel)"
      using mset_eq_setD [OF same_mset [OF same]] by (force simp: job_of_def image_iff)
    have jobs: "jobs \<noteq> []" using same_mset [OF same] False k by auto
    then obtain c n where "finish env (map lj_job_key jobs) (Some (with_first k collate now (set_leased w e d) rows))
        = (Some (update_where (\<lambda>r. job_key r \<in> set (map lj_job_key jobs)) (set_succeeded c)
            (with_first k collate now (set_leased w e d) rows)), Inr n)"
      using finish_named [of env "map lj_job_key jobs"] Cons.prems(1) by fastforce
    note finish = this [unfolded finish_first [OF Cons.prems(2) keys]]
    let ?rows = "with_first k collate now (set_succeeded c) rows"
    have "\<exists>rows' rest. drain lease finish rounds (Some ?rows) = Some (Some rows', Inr rest)
      \<and> list_all2 (worked_off now) ?rows rows'
      \<and> same rest (map (job_of C) (select_ready collate now ?rows))"
    proof (rule Cons.IH)
      show "table_ok ?rows" using Cons.prems(2) by (rule with_first_ok)
      show "\<forall>r \<in> set ?rows. may_lease now r \<longrightarrow> decodable C r"
        using Cons.prems(3) by (auto simp: with_first_def)
      show "length (select_ready collate now ?rows) < length rounds"
        using Cons.prems(2,4) k False by (cases ?sel) (simp_all add: with_first_schedule)
    qed (use Cons.prems(1) in simp)
    then obtain rows' rest where rest: "drain lease finish rounds (Some ?rows) = Some (Some rows', Inr rest)"
      "list_all2 (worked_off now) ?rows rows'" "same rest (map (job_of C) (drop k ?sel))"
      unfolding with_first_schedule [OF Cons.prems(2)] by blast
    have "same (jobs @ rest) (map (job_of C) ?sel)"
      using same_append [OF same rest(3)] by (simp flip: map_append)
    moreover note worked_off_first [OF rest(2)]
    ultimately show ?thesis using lease jobs finish rest(1) by simp
  qed
qed simp

end

section \<open>Both backends have what the worker needs\<close>

record 't job_round =
  jo_worker :: string
  jo_limit :: int
  jo_expires :: string
  jo_lease_clock :: 't
  jo_finish_clock :: 't

definition sqlite_lease ::
  "'a codec \<Rightarrow> string \<Rightarrow> string \<Rightarrow> string job_round \<Rightarrow> string job_store
     \<Rightarrow> string job_store \<times> (storage_error + 'a leased_job list)" where
  "sqlite_lease C table now env =
     sqlite_lease_ready_jobs C True (jo_lease_clock env) table (jo_worker env) (jo_limit env) now (jo_expires env)"

definition sqlite_finish ::
  "string \<Rightarrow> string job_round \<Rightarrow> string list \<Rightarrow> string job_store \<Rightarrow> string job_store \<times> (storage_error + nat)" where
  "sqlite_finish table env = sqlite_mark_leased_jobs_succeeded True (jo_finish_clock env) table"

text \<open>Any limit but zero will do: a negative one is none.\<close>

interpretation sqlite_worker:
  worker "sqlite_lease C table now" "sqlite_finish table"
    "\<lambda>env. jo_limit env \<noteq> 0 \<and> validated_identifier table = Inr table" "(=)" C id now
  for C table now
proof
  fix env :: "string job_round" and rows
  assume fair: "jo_limit env \<noteq> 0 \<and> validated_identifier table = Inr table" and ok: "table_ok rows"
    and decodes: "\<forall>r \<in> set rows. may_lease now r \<longrightarrow> decodable C r"
  let ?sel = "select_ready id now rows"
  obtain k where k: "0 < k" "sqlite_limit (jo_limit env) ?sel = take k ?sel"
    using fair that [of "Suc (length ?sel)"] that [of "nat (jo_limit env)"]
    by (cases "jo_limit env < 0") (auto simp: sqlite_limit_def)
  have "\<forall>r \<in> set (take k ?sel). decodable C r" using decodes by (auto dest!: in_set_takeD)
  from collect_decoded [OF this]
  have "sqlite_lease C table now env (Some rows)
    = (Some (with_first k id now (set_leased (jo_worker env) (jo_expires env) (jo_lease_clock env)) rows),
       Inr (map (job_of C) (take k ?sel)))"
    using fair sqlite_lease_selected [OF ok, of C "jo_lease_clock env" "jo_worker env" now "jo_expires env"
        "jo_limit env"]
    by (simp add: sqlite_lease_def sqlite_lease_ready_jobs_def on_table_def k(2) with_first_def)
  then show "\<exists>k w e c jobs. 0 < k \<and> sqlite_lease C table now env (Some rows)
      = (Some (with_first k id now (set_leased w e c) rows), Inr jobs)
    \<and> jobs = map (job_of C) (take k (select_ready id now rows))"
    using k(1) by blast
next
  fix env :: "string job_round" and ks :: "string list" and rows
  assume "jo_limit env \<noteq> 0 \<and> validated_identifier table = Inr table" and "ks \<noteq> []"
  then show "\<exists>c n. sqlite_finish table env ks (Some rows)
      = (Some (update_where (\<lambda>r. job_key r \<in> set ks) (set_succeeded c) rows), Inr n)"
    by (simp add: sqlite_finish_def sqlite_mark_leased_jobs_succeeded_def on_table_def Let_def
        sqlite_succeed_chunks_eq set_chunks) blast
qed auto

definition postgres_lease ::
  "'t::linorder postgres \<Rightarrow> 'a codec \<Rightarrow> string \<Rightarrow> string \<Rightarrow> 't job_round \<Rightarrow> 't job_store
     \<Rightarrow> 't job_store \<times> (storage_error + 'a leased_job list)" where
  "postgres_lease P C table now env =
     postgres_lease_ready_jobs P C [] (jo_lease_clock env) table (jo_worker env) (jo_limit env) now (jo_expires env)"

definition postgres_finish ::
  "string \<Rightarrow> 't job_round \<Rightarrow> string list \<Rightarrow> 't job_store \<Rightarrow> 't job_store \<times> (storage_error + nat)" where
  "postgres_finish table env = postgres_mark_leased_jobs_succeeded (jo_finish_clock env) table"

text \<open>
  PostgreSQL returns the rows of a batch in any order. No other transaction holds a lock, the limit
  is positive and the times are times.
\<close>

definition postgres_fair :: "'t postgres \<Rightarrow> string \<Rightarrow> 't \<Rightarrow> string \<Rightarrow> 't job_round \<Rightarrow> bool" where
  "postgres_fair P now_text now table env \<longleftrightarrow>
     0 < jo_limit env \<and> validated_identifier table = Inr table
     \<and> pg_timestamptz P now_text = Some now \<and> pg_timestamptz P (jo_expires env) \<noteq> None
     \<and> (\<forall>rows. mset (pg_returning P rows) = mset rows)"

lemma mset_selected:
  assumes "distinct rows" and "distinct sel" and "set sel \<subseteq> set rows"
  shows "mset (filter (\<lambda>r. r \<in> set sel) rows) = mset sel"
  using assms set_eq_iff_mset_eq_distinct [of "filter (\<lambda>r. r \<in> set sel) rows" sel] by auto

interpretation postgres_worker:
  worker "postgres_lease P C table now_text" "postgres_finish table" "postgres_fair P now_text now table"
    "\<lambda>jobs js. mset jobs = mset js" C "pg_collate P" now
  for P C table now_text now
proof
  fix env :: "'a job_round" and rows
  assume fair: "postgres_fair P now_text now table env" and ok: "table_ok rows"
    and decodes: "\<forall>r \<in> set rows. may_lease now r \<longrightarrow> decodable C r"
  let ?sel = "take (nat (jo_limit env)) (select_ready (pg_collate P) now rows)"
  let ?returned = "pg_returning P (filter (\<lambda>r. r \<in> set ?sel) rows)"
  obtain e where e: "pg_timestamptz P (jo_expires env) = Some e" using fair by (auto simp: postgres_fair_def)
  have "mset ?returned = mset (filter (\<lambda>r. r \<in> set ?sel) rows)"
    using fair by (simp add: postgres_fair_def)
  also have "\<dots> = mset ?sel"
  proof (rule mset_selected)
    show "distinct rows" using ok by (simp add: table_ok_def distinct_map)
    show "distinct ?sel"
      using distinct_select_ready [OF ok, of "pg_collate P" now] by (simp add: distinct_map)
  qed (auto dest!: in_set_takeD)
  finally have returned: "mset ?returned = mset ?sel" .
  then have "\<forall>r \<in> set ?returned. decodable C r"
    using decodes mset_eq_setD [OF returned] first_selected by blast
  note decoded = collect_decoded [OF this]
  have "postgres_lease P C table now_text env (Some rows)
    = (Some (with_first (nat (jo_limit env)) (pg_collate P) now
         (set_leased (jo_worker env) e (jo_lease_clock env)) rows), Inr (map (job_of C) ?returned))"
    using postgres_lease_keeps_undecodable_jobs [OF ok _ _ _ e, of table "jo_limit env" now_text now C
        "jo_lease_clock env" "jo_worker env"] fair
    by (simp add: postgres_lease_def postgres_fair_def Let_def with_first_def decoded)
  moreover have "mset (map (job_of C) ?returned) = mset (map (job_of C) ?sel)"
    using arg_cong [OF returned, of "image_mset (job_of C)"] by simp
  moreover have "0 < nat (jo_limit env)" using fair by (simp add: postgres_fair_def)
  ultimately show "\<exists>k w e c jobs. 0 < k \<and> postgres_lease P C table now_text env (Some rows)
      = (Some (with_first k (pg_collate P) now (set_leased w e c) rows), Inr jobs)
    \<and> mset jobs = mset (map (job_of C) (take k (select_ready (pg_collate P) now rows)))"
    by blast
next
  fix env :: "'a job_round" and ks :: "string list" and rows
  assume "postgres_fair P now_text now table env" and "ks \<noteq> []"
  then show "\<exists>c n. postgres_finish table env ks (Some rows)
      = (Some (update_where (\<lambda>r. job_key r \<in> set ks) (set_succeeded c) rows), Inr n)"
    by (auto simp: postgres_fair_def postgres_finish_def postgres_mark_leased_jobs_succeeded_def
        on_table_def Let_def)
qed auto

section \<open>The queue is worked off\<close>

lemma worked_off_due:
  "worked_off now r r' \<longleftrightarrow> (if due now r then \<exists>clock. r' = set_succeeded clock r else r' = r)"
  by (simp add: worked_off_def due_may_lease)

text \<open>
  C10. A worker of the SQLite table that repeats leasing and finishing batches comes to the end after at
  most one round more than there are due jobs. It did every due job once, in the order of the schedule
  (time of the next attempt, time of creation, key); these jobs have succeeded and no other row has
  changed. This is for a table that nobody else uses meanwhile, one time \<open>now\<close> of all leases, any limits but
  zero, commits that succeed, and whatever the clock shows, and it needs every due payload to decode.
\<close>

theorem sqlite_worker_drains_queue:
  assumes "table_ok rows" and "validated_identifier table = Inr table"
    and "\<forall>env \<in> set rounds. jo_limit env \<noteq> 0"
    and "\<forall>r \<in> set rows. due now r \<longrightarrow> decodable C r"
    and "card {r \<in> set rows. due now r} < length rounds"
  shows "\<exists>order rows'. distinct order \<and> set order = {r \<in> set rows. due now r} \<and> sorted_wrt served_before order
    \<and> drain (sqlite_lease C table now) (sqlite_finish table) rounds (Some rows)
        = Some (Some rows', Inr (map (job_of C) order))
    \<and> list_all2 (\<lambda>r r'. if due now r then \<exists>clock. r' = set_succeeded clock r else r' = r) rows rows'"
proof -
  let ?order = "select_ready id now rows"
  have "\<exists>rows'. drain (sqlite_lease C table now) (sqlite_finish table) rounds (Some rows)
      = Some (Some rows', Inr (map (job_of C) ?order)) \<and> list_all2 (worked_off now) rows rows'"
    using sqlite_worker.drain_all [of rounds table rows now C] assms
    by (auto simp: due_may_lease length_select_ready)
  moreover have "distinct ?order"
    using distinct_select_ready [OF assms(1), of id now] by (simp add: distinct_map)
  moreover have "set ?order = {r \<in> set rows. due now r}" by (simp add: due_may_lease)
  ultimately show ?thesis
    using select_ready_served [OF assms(1), of now] unfolding worked_off_due [abs_def] by blast
qed

text \<open>
  The condition on the payloads is needed: when the due job that comes first does not decode, every lease
  with any limit but zero fails and is rolled back, so the worker never gets past it.
\<close>

theorem undecodable_job_blocks_queue:
  assumes "table_ok rows" and "validated_identifier table = Inr table" and "jo_limit env \<noteq> 0"
    and "r \<in> set rows" and "due now r" and "\<not> decodable C r"
    and "\<forall>q \<in> set rows. due now q \<and> q \<noteq> r \<longrightarrow> served_before r q"
  shows "sqlite_lease C table now env (Some rows) = (Some rows, Inl StorageJson)"
proof -
  let ?all = "select_ready id now rows"
  have r: "r \<in> set ?all" using assms(4,5) by (simp add: due_may_lease)
  then obtain x xs where all: "?all = x # xs" by (cases ?all) auto
  have "x = r"
  proof (rule ccontr)
    assume "x \<noteq> r"
    then have "served_before x r" using r select_ready_served [OF assms(1), of now] by (auto simp: all)
    moreover have "x \<in> set ?all" by (simp add: all)
    then have "served_before r x" using assms(7) \<open>x \<noteq> r\<close> by (simp add: due_may_lease)
    ultimately show False unfolding served_before_key by (rule less_asym)
  qed
  then have "r \<in> set (sqlite_limit (jo_limit env) ?all)"
    using assms(3) by (cases "nat (jo_limit env)") (auto simp: all sqlite_limit_def)
  then have "collect_results (decode_job C) (sqlite_limit (jo_limit env) ?all) = Inl StorageJson"
    using assms(6) by (auto simp: collect_decode_job decodable_def)
  then show ?thesis
    using sqlite_lease_selected [OF assms(1), of C "jo_lease_clock env" "jo_worker env" now "jo_expires env"
        "jo_limit env"]
    by (simp add: sqlite_lease_def sqlite_lease_ready_jobs_def on_table_def assms(2))
qed

theorem undecodable_job_blocks_queue_witness:
  "sqlite_lease (demo_codec\<lparr>cd_decode := (\<lambda>_. None)\<rparr>) ''jobs'' ''2''
      \<lparr>jo_worker = ''w'', jo_limit = 7, jo_expires = ''5'', jo_lease_clock = ''2'', jo_finish_clock = ''3''\<rparr>
      (Some [new_job ''a'' ''x'' ''1'' ''1'']) = (Some [new_job ''a'' ''x'' ''1'' ''1''], Inl StorageJson)"
proof (rule undecodable_job_blocks_queue [where r = "new_job ''a'' ''x'' ''1'' ''1''"])
  show "validated_identifier ''jobs'' = Inr ''jobs''" by code_simp
  show "table_ok [new_job ''a'' ''x'' ''1'' ''1'']" by (simp add: table_ok_def row_ok_def new_job_def)
qed (simp_all add: due_def new_job_def decodable_def)

text \<open>
  The same on PostgreSQL, where the jobs of a batch come in any order, when no other transaction
  holds a lock.
\<close>

theorem postgres_worker_drains_queue:
  assumes "table_ok rows" and "\<forall>env \<in> set rounds. postgres_fair P now_text now table env"
    and "\<forall>r \<in> set rows. may_lease now r \<longrightarrow> decodable C r"
    and "length (select_ready (pg_collate P) now rows) < length rounds"
  shows "\<exists>rows' jobs. drain (postgres_lease P C table now_text) (postgres_finish table) rounds (Some rows)
      = Some (Some rows', Inr jobs)
    \<and> list_all2 (worked_off now) rows rows'
    \<and> mset jobs = mset (map (job_of C) (select_ready (pg_collate P) now rows))"
  using postgres_worker.drain_all [OF assms(2,1,3,4)] .

definition demo_rounds :: "string job_round list" where
  "demo_rounds = replicate 3 \<lparr>jo_worker = ''w'', jo_limit = 1, jo_expires = ''5'', jo_lease_clock = ''2'',
     jo_finish_clock = ''3''\<rparr>"

theorem sqlite_worker_drains_queue_witness:
  "\<exists>rows'. drain (sqlite_lease demo_codec ''jobs'' ''2'') (sqlite_finish ''jobs'') demo_rounds demo_jobs
      = Some (Some rows', Inr [\<lparr>lj_job_key = ''a'', lj_payload = ''x'', lj_attempt_count = 0\<rparr>,
          \<lparr>lj_job_key = ''b'', lj_payload = ''y'', lj_attempt_count = 0\<rparr>])
    \<and> list_all2 (worked_off ''2'') [new_job ''a'' ''x'' ''1'' ''1'', new_job ''b'' ''y'' ''2'' ''1''] rows'"
proof -
  let ?rows = "[new_job ''a'' ''x'' ''1'' ''1'', new_job ''b'' ''y'' ''2'' ''1'']"
  have ok: "table_ok ?rows" using demo_jobs_ok by (simp add: demo_jobs_eq store_ok_def)
  have name: "validated_identifier ''jobs'' = Inr ''jobs''" by code_simp
  have due: "{r \<in> set ?rows. due ''2'' r} = set ?rows" by (auto simp: due_def new_job_def)
  have ab: "\<not> served_before (new_job ''b'' ''y'' ''2'' ''1'') (new_job ''a'' ''x'' ''1'' ''1'')" by code_simp
  have two: "card (set ?rows) = 2" by (simp add: new_job_def)
  obtain order rows' where order: "distinct order" "set order = set ?rows" "sorted_wrt served_before order"
    and run: "drain (sqlite_lease demo_codec ''jobs'' ''2'') (sqlite_finish ''jobs'') demo_rounds demo_jobs
      = Some (Some rows', Inr (map (job_of demo_codec) order))"
    "list_all2 (\<lambda>r r'. if due ''2'' r then \<exists>clock. r' = set_succeeded clock r else r' = r) ?rows rows'"
    using sqlite_worker_drains_queue [OF ok name, of demo_rounds "''2''" demo_codec]
    unfolding due two demo_jobs_eq by (auto simp: demo_rounds_def decodable_def demo_codec_def)
  have "length order = 2" using distinct_card [OF order(1)] order(2) two by simp
  then obtain x y where xy: "order = [x, y]" by (auto simp: length_Suc_conv numeral_2_eq_2)
  with order ab have "order = ?rows" by (auto simp: doubleton_eq_iff)
  with run show ?thesis
    by (simp add: worked_off_due [abs_def] job_of_def demo_codec_def new_job_def)
qed

end
