(* ===== verification/RecordStore.thy ===== *)
theory RecordStore
  imports JobStore
begin

text \<open>
  The table \<open>json_records\<close> of \<open>oan-storage\<close> on both backends: upsert, reading, deletion, and
  the pages of a namespace, which a cursor of the last row's time and key delimits. The second
  query of a page, which looks for more rows, may see a later state of the table.
\<close>

section \<open>Rows and pages\<close>

record 't json_record =
  jr_namespace :: string
  jr_record_key :: string
  jr_value_json :: string
  jr_updated_at :: 't

datatype namespace_page_cursor =
  NamespacePageCursor (nc_updated_at: string) (nc_record_key: string)

text \<open>Cursors are ordered as the queries compare them: by time, then by key.\<close>

instantiation namespace_page_cursor :: linorder
begin

definition less_namespace_page_cursor :: "namespace_page_cursor \<Rightarrow> namespace_page_cursor \<Rightarrow> bool" where
  "c < d \<longleftrightarrow> nc_updated_at c < nc_updated_at d
     \<or> nc_updated_at c = nc_updated_at d \<and> nc_record_key c < nc_record_key d"

definition less_eq_namespace_page_cursor :: "namespace_page_cursor \<Rightarrow> namespace_page_cursor \<Rightarrow> bool" where
  "(c :: namespace_page_cursor) \<le> d \<longleftrightarrow> c < d \<or> c = d"

instance
proof
  fix c d e :: namespace_page_cursor
  show "c < d \<longleftrightarrow> c \<le> d \<and> \<not> d \<le> c"
    by (auto simp: less_eq_namespace_page_cursor_def less_namespace_page_cursor_def)
  show "c \<le> c" by (simp add: less_eq_namespace_page_cursor_def)
  show "c \<le> d \<Longrightarrow> d \<le> e \<Longrightarrow> c \<le> e"
    by (auto simp: less_eq_namespace_page_cursor_def less_namespace_page_cursor_def)
  show "c \<le> d \<Longrightarrow> d \<le> c \<Longrightarrow> c = d"
    by (auto simp: less_eq_namespace_page_cursor_def less_namespace_page_cursor_def)
  show "c \<le> d \<or> d \<le> c"
    by (cases c; cases d)
      (auto simp: less_eq_namespace_page_cursor_def less_namespace_page_cursor_def)
qed

end

record 'a namespace_page =
  np_items :: "'a list"
  np_next_cursor :: "namespace_page_cursor option"
  np_has_more :: bool

definition is_record :: "string \<Rightarrow> string \<Rightarrow> 't json_record \<Rightarrow> bool" where
  "is_record namespace key r \<longleftrightarrow> jr_namespace r = namespace \<and> jr_record_key r = key"

text \<open>\<open>INSERT ... ON CONFLICT(namespace, record_key) DO UPDATE\<close>\<close>

definition upsert_record ::
  "string \<Rightarrow> string \<Rightarrow> string \<Rightarrow> 't \<Rightarrow> 't json_record list \<Rightarrow> 't json_record list" where
  "upsert_record namespace key text clock rows =
     (if list_ex (is_record namespace key) rows
      then update_where (is_record namespace key)
             (\<lambda>r. r\<lparr>jr_value_json := text, jr_updated_at := clock\<rparr>) rows
      else rows @ [\<lparr>jr_namespace = namespace, jr_record_key = key, jr_value_json = text,
                    jr_updated_at = clock\<rparr>])"

definition namespace_rows ::
  "(string \<Rightarrow> string) \<Rightarrow> string \<Rightarrow> 't::linorder json_record list \<Rightarrow> 't json_record list" where
  "namespace_rows collate namespace rows =
     sort_key (\<lambda>r. (jr_updated_at r, collate (jr_record_key r)))
       (filter (\<lambda>r. jr_namespace r = namespace) rows)"

text \<open>The items of a page with their total size and the cursor of the last one.\<close>

type_synonym 'a page_state = "'a list \<times> nat \<times> namespace_page_cursor option"

definition append_namespace_item ::
  "'a codec \<Rightarrow> query_limits \<Rightarrow> string \<times> string \<times> string \<Rightarrow> 'a page_state
     \<Rightarrow> storage_error + 'a page_state" where
  "append_namespace_item C limits row state =
     (case row of (updated_at, record_key, value_json) \<Rightarrow>
      case state of (items, total_bytes, next_cursor) \<Rightarrow>
        let bytes = length value_json in
        if bytes > max_record_bytes limits
        then Inl (RecordTooLarge bytes (max_record_bytes limits))
        else let total_bytes = saturating_add total_bytes bytes in
          if total_bytes > max_page_bytes limits
          then Inl (PageTooLarge total_bytes (max_page_bytes limits))
          else rbind (decode_json C value_json) (\<lambda>item.
            Inr (items @ [item], total_bytes, Some (NamespacePageCursor updated_at record_key))))"

fun append_rows ::
  "'a codec \<Rightarrow> query_limits \<Rightarrow> (string \<times> string \<times> string) list \<Rightarrow> 'a page_state
     \<Rightarrow> storage_error + 'a page_state" where
  "append_rows C limits [] state = Inr state"
| "append_rows C limits (row # rows) state =
     rbind (append_namespace_item C limits row state) (append_rows C limits rows)"

section \<open>SQLite\<close>

definition sqlite_upsert_json ::
  "'a codec \<Rightarrow> string \<Rightarrow> string \<Rightarrow> string \<Rightarrow> 'a \<Rightarrow> string json_record list
     \<Rightarrow> string json_record list \<times> (storage_error + unit)" where
  "sqlite_upsert_json C clock namespace key v rows =
     (case cd_encode C v of
        None \<Rightarrow> (rows, Inl StorageJson)
      | Some text \<Rightarrow> (upsert_record namespace key text clock rows, Inr ()))"

definition sqlite_read_namespace ::
  "'a codec \<Rightarrow> string \<Rightarrow> string json_record list \<Rightarrow> storage_error + 'a list" where
  "sqlite_read_namespace C namespace rows =
     collect_results (\<lambda>r. decode_json C (jr_value_json r)) (namespace_rows id namespace rows)"

definition sqlite_after :: "namespace_page_cursor option \<Rightarrow> string json_record \<Rightarrow> bool" where
  "sqlite_after cursor r =
     (case cursor of
        None \<Rightarrow> True
      | Some c \<Rightarrow> jr_updated_at r > nc_updated_at c
          \<or> (jr_updated_at r = nc_updated_at c \<and> jr_record_key r > nc_record_key c))"

definition sqlite_read_namespace_page ::
  "'a codec \<Rightarrow> string \<Rightarrow> namespace_page_cursor option \<Rightarrow> 32 word option \<Rightarrow> query_limits
     \<Rightarrow> string json_record list \<Rightarrow> string json_record list \<Rightarrow> storage_error + 'a namespace_page" where
  "sqlite_read_namespace_page C namespace cursor requested_limit limits rows later =
     rbind (normalize_limit limits requested_limit) (\<lambda>limit.
     let selected = take (unat limit) (filter (sqlite_after cursor) (namespace_rows id namespace rows)) in
     rbind (append_rows C limits
              (map (\<lambda>r. (jr_updated_at r, jr_record_key r, jr_value_json r)) selected) ([], 0, None))
       (\<lambda>(items, total_bytes, next_cursor).
     let has_more = (case next_cursor of
           None \<Rightarrow> False
         | Some c \<Rightarrow> list_ex (\<lambda>r. jr_namespace r = namespace \<and> sqlite_after (Some c) r) later)
     in Inr \<lparr>np_items = items, np_next_cursor = if has_more then next_cursor else None,
             np_has_more = has_more\<rparr>))"

definition sqlite_read_json ::
  "'a codec \<Rightarrow> string \<Rightarrow> string \<Rightarrow> string json_record list \<Rightarrow> storage_error + 'a option" where
  "sqlite_read_json C namespace key rows =
     (case List.find (is_record namespace key) rows of
        None \<Rightarrow> Inr None
      | Some r \<Rightarrow> rbind (decode_json C (jr_value_json r)) (\<lambda>v. Inr (Some v)))"

definition sqlite_delete_json ::
  "string \<Rightarrow> string \<Rightarrow> string json_record list \<Rightarrow> string json_record list" where
  "sqlite_delete_json namespace key rows = filter (\<lambda>r. \<not> is_record namespace key r) rows"

definition sqlite_count_namespace :: "string \<Rightarrow> string json_record list \<Rightarrow> int" where
  "sqlite_count_namespace namespace rows =
     int (length (filter (\<lambda>r. jr_namespace r = namespace) rows))"

definition sqlite_delete_namespace ::
  "string \<Rightarrow> string json_record list \<Rightarrow> string json_record list" where
  "sqlite_delete_namespace namespace rows = filter (\<lambda>r. jr_namespace r \<noteq> namespace) rows"

section \<open>PostgreSQL\<close>

definition postgres_upsert_json ::
  "'a codec \<Rightarrow> 't \<Rightarrow> string \<Rightarrow> string \<Rightarrow> 'a \<Rightarrow> 't json_record list
     \<Rightarrow> 't json_record list \<times> (storage_error + unit)" where
  "postgres_upsert_json C clock namespace key v rows =
     (case cd_encode C v of
        None \<Rightarrow> (rows, Inl StorageJson)
      | Some text \<Rightarrow> (upsert_record namespace key text clock rows, Inr ()))"

definition postgres_read_namespace ::
  "'t::linorder postgres \<Rightarrow> 'a codec \<Rightarrow> string \<Rightarrow> 't json_record list \<Rightarrow> storage_error + 'a list" where
  "postgres_read_namespace P C namespace rows =
     collect_results (\<lambda>r. decode_json C (jr_value_json r))
       (namespace_rows (pg_collate P) namespace rows)"

text \<open>The condition on the rows after a position, with the key it is given.\<close>

definition postgres_after ::
  "'t::linorder postgres \<Rightarrow> 't \<Rightarrow> string \<Rightarrow> 't json_record \<Rightarrow> bool" where
  "postgres_after P t key r \<longleftrightarrow> jr_updated_at r > t
     \<or> (jr_updated_at r = t \<and> pg_collate P (jr_record_key r) > pg_collate P key)"

text \<open>
  The query for more rows has the parameters \<open>$1\<close>, \<open>$2\<close>, \<open>$3\<close>, and four values are bound to it:
  the namespace, the time twice, and the key. So \<open>$3\<close>, which the key of a row is compared with, is
  the text of the time.
\<close>

definition postgres_read_namespace_page ::
  "'t::linorder postgres \<Rightarrow> 'a codec \<Rightarrow> string \<Rightarrow> namespace_page_cursor option \<Rightarrow> 32 word option
     \<Rightarrow> query_limits \<Rightarrow> 't json_record list \<Rightarrow> 't json_record list \<Rightarrow> storage_error + 'a namespace_page"
where
  "postgres_read_namespace_page P C namespace cursor requested_limit limits rows later =
     rbind (normalize_limit limits requested_limit) (\<lambda>limit.
     rbind (case cursor of
              None \<Rightarrow> Inr (\<lambda>_. True)
            | Some c \<Rightarrow> (case pg_timestamptz P (nc_updated_at c) of
                None \<Rightarrow> Inl StorageSql
              | Some t \<Rightarrow> Inr (postgres_after P t (nc_record_key c)))) (\<lambda>after.
     let selected = take (unat limit) (filter after (namespace_rows (pg_collate P) namespace rows)) in
     rbind (append_rows C limits
              (map (\<lambda>r. (pg_timestamp_text P (jr_updated_at r), jr_record_key r, jr_value_json r)) selected)
              ([], 0, None))
       (\<lambda>(items, total_bytes, next_cursor).
     rbind (case next_cursor of
              None \<Rightarrow> Inr False
            | Some c \<Rightarrow> (case [namespace, nc_updated_at c, nc_updated_at c, nc_record_key c] of
                bound \<Rightarrow> (case pg_timestamptz P (bound ! 1) of
                  None \<Rightarrow> Inl StorageSql
                | Some t \<Rightarrow> Inr (list_ex (\<lambda>r. jr_namespace r = bound ! 0
                    \<and> postgres_after P t (bound ! 2) r) later)))) (\<lambda>has_more.
     Inr \<lparr>np_items = items, np_next_cursor = if has_more then next_cursor else None,
          np_has_more = has_more\<rparr>))))"

definition postgres_read_json ::
  "'a codec \<Rightarrow> string \<Rightarrow> string \<Rightarrow> 't json_record list \<Rightarrow> storage_error + 'a option" where
  "postgres_read_json C namespace key rows =
     (case List.find (is_record namespace key) rows of
        None \<Rightarrow> Inr None
      | Some r \<Rightarrow> rbind (decode_json C (jr_value_json r)) (\<lambda>v. Inr (Some v)))"

definition postgres_delete_json ::
  "string \<Rightarrow> string \<Rightarrow> 't json_record list \<Rightarrow> 't json_record list" where
  "postgres_delete_json namespace key rows = filter (\<lambda>r. \<not> is_record namespace key r) rows"

definition postgres_count_namespace :: "string \<Rightarrow> 't json_record list \<Rightarrow> int" where
  "postgres_count_namespace namespace rows =
     int (length (filter (\<lambda>r. jr_namespace r = namespace) rows))"

definition postgres_delete_namespace ::
  "string \<Rightarrow> 't json_record list \<Rightarrow> 't json_record list" where
  "postgres_delete_namespace namespace rows = filter (\<lambda>r. jr_namespace r \<noteq> namespace) rows"

section \<open>Connecting\<close>

text \<open>
  Connecting opens a pool, which may fail, and creates the table of the records unless the database
  has it already, which may fail too.
\<close>

definition ensure_json_records_sqlite ::
  "bool \<Rightarrow> string json_record list option \<Rightarrow> storage_error + string json_record list" where
  "ensure_json_records_sqlite accepted found =
     (if accepted then Inr (case found of None \<Rightarrow> [] | Some rows \<Rightarrow> rows) else Inl StorageSql)"

definition ensure_json_records_postgres ::
  "bool \<Rightarrow> 't json_record list option \<Rightarrow> storage_error + 't json_record list" where
  "ensure_json_records_postgres accepted found =
     (if accepted then Inr (case found of None \<Rightarrow> [] | Some rows \<Rightarrow> rows) else Inl StorageSql)"

datatype 't database_store =
    SqliteStore pool_request "string json_record list"
  | PostgresStore pool_request "'t json_record list"

definition sqlite_connect ::
  "sqlite_host \<Rightarrow> (pool_request \<Rightarrow> string json_record list option option) \<Rightarrow> bool
     \<Rightarrow> (string \<Rightarrow> string option) \<Rightarrow> string \<Rightarrow> storage_error + 't database_store" where
  "sqlite_connect H open_pool accepted env url =
     rbind (sqlite_request H env url) (\<lambda>pool.
     rbind (ok_or (open_pool pool) StorageSql) (\<lambda>found.
     rbind (ensure_json_records_sqlite accepted found) (\<lambda>rows. Inr (SqliteStore pool rows))))"

definition postgres_connect ::
  "(pool_request \<Rightarrow> 't json_record list option option) \<Rightarrow> bool
     \<Rightarrow> (string \<Rightarrow> string option) \<Rightarrow> string \<Rightarrow> storage_error + 't database_store" where
  "postgres_connect open_pool accepted env url =
     rbind (postgres_request env url) (\<lambda>pool.
     rbind (ok_or (open_pool pool) StorageSql) (\<lambda>found.
     rbind (ensure_json_records_postgres accepted found) (\<lambda>rows. Inr (PostgresStore pool rows))))"

definition database_connect ::
  "sqlite_host \<Rightarrow> (pool_request \<Rightarrow> string json_record list option option)
     \<Rightarrow> (pool_request \<Rightarrow> 't json_record list option option) \<Rightarrow> bool
     \<Rightarrow> (string \<Rightarrow> string option) \<Rightarrow> string \<Rightarrow> storage_error + 't database_store" where
  "database_connect H open_sqlite open_postgres accepted env url =
     rbind (parse_database_config url) (\<lambda>config.
     case dc_backend config of
       Sqlite \<Rightarrow> sqlite_connect H open_sqlite accepted env url
     | Postgres \<Rightarrow> postgres_connect open_postgres accepted env url)"

fun store_backend :: "'t database_store \<Rightarrow> database_backend" where
  "store_backend (SqliteStore pool rows) = Sqlite"
| "store_backend (PostgresStore pool rows) = Postgres"

lemma connected_backend:
  assumes "database_connect H open_sqlite open_postgres accepted env url = Inr store"
  shows "map_sum id dc_backend (parse_database_config url) = Inr (store_backend store)"
proof -
  obtain config where config: "parse_database_config url = Inr config"
    using assms by (auto simp: database_connect_def)
  then show ?thesis
    using assms by (cases "dc_backend config")
      (auto simp: database_connect_def sqlite_connect_def postgres_connect_def)
qed

end
