(* ===== verification/Pages.thy ===== *)
theory Pages
  imports Storage
begin

text \<open>
  Keyset pagination: a client that asks for the first page and then, as long as it is given a
  cursor, for the page after it. A provider that answers each request with the next rows after the
  cursor, and with a cursor exactly when there are more, lets the client see every row once.
\<close>

text \<open>The client, with fuel for the number of requests.\<close>

fun fetch_all :: "nat \<Rightarrow> ('k option \<Rightarrow> 'e + 'v list \<times> 'k option) \<Rightarrow> 'k option \<Rightarrow> ('e + 'v list) option"
where
  "fetch_all 0 fetch c = None"
| "fetch_all (Suc fuel) fetch c =
     (case fetch c of
        Inl e \<Rightarrow> Some (Inl e)
      | Inr (vs, None) \<Rightarrow> Some (Inr vs)
      | Inr (vs, Some d) \<Rightarrow>
          map_option (\<lambda>r. rbind r (\<lambda>ws. Inr (vs @ ws))) (fetch_all fuel fetch (Some d)))"

definition rows_after :: "('r \<Rightarrow> 'k::linorder) \<Rightarrow> 'r list \<Rightarrow> 'k option \<Rightarrow> 'r list" where
  "rows_after key rows c = filter (\<lambda>r. case c of None \<Rightarrow> True | Some k \<Rightarrow> k < key r) rows"

definition page_of ::
  "nat \<Rightarrow> ('r \<Rightarrow> 'k::linorder) \<Rightarrow> ('r \<Rightarrow> 'v) \<Rightarrow> 'r list \<Rightarrow> 'k option \<Rightarrow> 'v list \<times> 'k option" where
  "page_of n key item rows c =
     (let rest = rows_after key rows c in
      (map item (take n rest), if n < length rest then Some (key (rest ! (n - 1))) else None))"

lemma sorted_rows_after:
  "sorted_wrt (\<lambda>a b. key a < key b) rows \<Longrightarrow> sorted_wrt (\<lambda>a b. key a < key b) (rows_after key rows c)"
  by (simp add: rows_after_def sorted_wrt_filter)

lemma filter_greater_sorted:
  "sorted_wrt (\<lambda>a b. key a < (key b :: 'k::linorder)) xs \<Longrightarrow> 0 < n \<Longrightarrow> n \<le> length xs \<Longrightarrow>
     filter (\<lambda>r. key (xs ! (n - 1)) < key r) xs = drop n xs"
proof (induction xs arbitrary: n)
  case (Cons x xs)
  show ?case
  proof (cases "n = 1")
    case True
    then show ?thesis using Cons.prems(1) by (auto simp: filter_id_conv)
  next
    case False
    with Cons.prems obtain m where m: "n = Suc m" "0 < m" by (cases n) auto
    have "key x < key (xs ! (m - 1))" using Cons.prems m by auto
    then have "\<not> key (xs ! (m - 1)) < key x" by (rule less_not_sym)
    then show ?thesis using Cons m by (auto simp: nth_Cons')
  qed
qed simp

lemma rows_after_nth:
  assumes "sorted_wrt (\<lambda>a b. key a < (key b :: 'k::linorder)) rows"
    and "0 < m" and "m \<le> length (rows_after key rows c)"
  shows "rows_after key rows (Some (key (rows_after key rows c ! (m - 1))))
    = drop m (rows_after key rows c)"
proof -
  let ?rest = "rows_after key rows c" and ?k = "key (rows_after key rows c ! (m - 1))"
  have "?rest ! (m - 1) \<in> set ?rest" using assms(2,3) by simp
  then have bound: "case c of None \<Rightarrow> True | Some k \<Rightarrow> k < ?k"
    by (auto simp: rows_after_def split: option.splits)
  have "rows_after key rows (Some ?k) = filter (\<lambda>r. ?k < key r) ?rest"
    using bound unfolding rows_after_def filter_filter
    by (intro filter_cong) (auto split: option.splits)
  also have "\<dots> = drop m ?rest"
    by (rule filter_greater_sorted) (use assms sorted_rows_after [OF assms(1)] in auto)
  finally show ?thesis .
qed

lemma rows_after_drop:
  "sorted_wrt (\<lambda>a b. key a < (key b :: 'k::linorder)) rows \<Longrightarrow> \<exists>i. rows_after key rows c = drop i rows"
proof (induction rows)
  case (Cons r rows)
  show ?case
  proof (cases "case c of None \<Rightarrow> True | Some k \<Rightarrow> k < key r")
    case True
    then have "rows_after key (r # rows) c = drop 0 (r # rows)"
      using Cons.prems by (auto simp: rows_after_def filter_id_conv split: option.splits)
    then show ?thesis by blast
  next
    case False
    obtain i where "rows_after key rows c = drop i rows" using Cons by auto
    with False have "rows_after key (r # rows) c = drop (Suc i) (r # rows)"
      by (simp add: rows_after_def)
    then show ?thesis by blast
  qed
qed (simp add: rows_after_def)

locale keyset_pages =
  fixes rows :: "'s \<Rightarrow> 'r list" and key :: "'r \<Rightarrow> 'k::linorder" and item :: "'r \<Rightarrow> 'v"
    and n :: nat and fetch :: "'s \<Rightarrow> 'k option \<Rightarrow> 'e + 'v list \<times> 'k option" and ok :: "'s \<Rightarrow> bool"
  assumes ascending: "ok s \<Longrightarrow> sorted_wrt (\<lambda>a b. key a < key b) (rows s)"
    and positive: "ok s \<Longrightarrow> 0 < n"
    and answer: "ok s \<Longrightarrow> fetch s c = Inr (page_of n key item (rows s) c)"
begin

lemma next_rows:
  "ok s \<Longrightarrow> n < length (rows_after key (rows s) c) \<Longrightarrow>
     rows_after key (rows s) (Some (key (rows_after key (rows s) c ! (n - 1))))
       = drop n (rows_after key (rows s) c)"
  by (rule rows_after_nth [OF ascending positive]) simp_all

lemma all_rows_from:
  "ok s \<Longrightarrow> length (rows_after key (rows s) c) < fuel \<Longrightarrow>
     fetch_all fuel (fetch s) c = Some (Inr (map item (rows_after key (rows s) c)))"
proof (induction fuel arbitrary: c)
  case (Suc fuel)
  let ?rest = "rows_after key (rows s) c"
  show ?case
  proof (cases "n < length ?rest")
    case True
    have "length (rows_after key (rows s) (Some (key (?rest ! (n - 1))))) < fuel"
      unfolding next_rows [OF Suc.prems(1) True]
      using Suc.prems(2) True positive [OF Suc.prems(1)] by simp
    note IH = Suc.IH [OF Suc.prems(1) this, unfolded next_rows [OF Suc.prems(1) True]]
    have "fetch s c = Inr (map item (take n ?rest), Some (key (?rest ! (n - 1))))"
      using True by (simp add: answer [OF Suc.prems(1)] page_of_def Let_def)
    then have "fetch_all (Suc fuel) (fetch s) c
        = Some (Inr (map item (take n ?rest) @ map item (drop n ?rest)))"
      using IH by (simp del: One_nat_def)
    then show ?thesis by (simp only: map_append [symmetric] append_take_drop_id)
  qed (use Suc.prems(1) in \<open>simp add: answer page_of_def Let_def\<close>)
qed simp

lemma all_rows:
  "ok s \<Longrightarrow> length (rows s) < fuel \<Longrightarrow> fetch_all fuel (fetch s) None = Some (Inr (map item (rows s)))"
  using all_rows_from [of s None fuel] by (simp add: rows_after_def)

end

end
