(* ===== verification/Records.thy ===== *)
theory Records
  imports RecordStore Pages
begin

text \<open>
  The table \<open>json_records\<close> as a map from namespace and key to text, on both backends, and the
  pages of a namespace on SQLite as keyset pages.
\<close>

section \<open>A map of records\<close>

definition record_map :: "'t json_record list \<Rightarrow> string \<times> string \<Rightarrow> string option" where
  "record_map rows a = map_option jr_value_json (List.find (is_record (fst a) (snd a)) rows)"

text \<open>What changes the records, and which of them.\<close>

datatype 'a record_call =
    PutRecord string string 'a
  | DeleteRecord string string
  | ClearNamespace string

fun touches :: "'a record_call \<Rightarrow> string \<times> string \<Rightarrow> bool" where
  "touches (PutRecord ns k v) a \<longleftrightarrow> a = (ns, k)"
| "touches (DeleteRecord ns k) a \<longleftrightarrow> a = (ns, k)"
| "touches (ClearNamespace ns) a \<longleftrightarrow> fst a = ns"

fun run_record ::
  "(string \<Rightarrow> string \<Rightarrow> 'a \<Rightarrow> 's \<Rightarrow> 's) \<Rightarrow> (string \<Rightarrow> string \<Rightarrow> 's \<Rightarrow> 's) \<Rightarrow> (string \<Rightarrow> 's \<Rightarrow> 's)
     \<Rightarrow> 'a record_call \<Rightarrow> 's \<Rightarrow> 's" where
  "run_record put delete clear (PutRecord ns k v) s = put ns k v s"
| "run_record put delete clear (DeleteRecord ns k) s = delete ns k s"
| "run_record put delete clear (ClearNamespace ns) s = clear ns s"

locale record_store =
  fixes contents :: "'s \<Rightarrow> string \<times> string \<Rightarrow> string option"
    and put :: "string \<Rightarrow> string \<Rightarrow> 'a \<Rightarrow> 's \<Rightarrow> 's"
    and delete :: "string \<Rightarrow> string \<Rightarrow> 's \<Rightarrow> 's"
    and clear :: "string \<Rightarrow> 's \<Rightarrow> 's"
    and encode :: "'a \<Rightarrow> string option"
  assumes contents_put: "contents (put ns k v s) =
      (case encode v of None \<Rightarrow> contents s | Some text \<Rightarrow> (contents s)((ns, k) \<mapsto> text))"
    and contents_delete: "contents (delete ns k s) = (contents s)((ns, k) := None)"
    and contents_clear: "contents (clear ns s) = (\<lambda>a. if fst a = ns then None else contents s a)"
begin

abbreviation run where "run \<equiv> run_record put delete clear"

lemma run_other: "\<not> touches c a \<Longrightarrow> contents (run c s) a = contents s a"
  by (cases c)
    (auto simp: contents_put contents_delete contents_clear split: option.split)

lemma runs_other: "(\<And>c. c \<in> set cs \<Longrightarrow> \<not> touches c a) \<Longrightarrow> contents (fold run cs s) a = contents s a"
  by (induction cs arbitrary: s) (auto simp: run_other)

lemma last_write:
  "encode v = Some text \<Longrightarrow> (\<And>c. c \<in> set cs \<Longrightarrow> \<not> touches c (ns, k)) \<Longrightarrow>
     contents (fold run cs (put ns k v s)) (ns, k) = Some text"
  by (subst runs_other) (auto simp: contents_put)

end

text \<open>The statements on the table as updates of the map.\<close>

lemma find_update_where:
  "List.find p (update_where q f rows) =
     map_option (\<lambda>r. if q r then f r else r) (List.find (\<lambda>r. p (if q r then f r else r)) rows)"
  by (induction rows) (auto simp: update_where_def)

lemma find_append: "List.find p (xs @ ys) = (case List.find p xs of None \<Rightarrow> List.find p ys | Some x \<Rightarrow> Some x)"
  by (induction xs) auto

lemma find_filter: "List.find p (filter q rows) = List.find (\<lambda>r. q r \<and> p r) rows"
  by (induction rows) auto

lemma is_record_update [simp]:
  "is_record ns k (r\<lparr>jr_value_json := text, jr_updated_at := clock\<rparr>) = is_record ns k r"
  by (simp add: is_record_def)

lemma record_map_upsert:
  "record_map (upsert_record ns k text clock rows) = (record_map rows)((ns, k) \<mapsto> text)"
proof
  fix a :: "string \<times> string"
  let ?p = "is_record (fst a) (snd a)"
  have other: "\<not> is_record ns k r" if "?p r" "a \<noteq> (ns, k)" for r :: "'a json_record"
    using that by (auto simp: is_record_def)
  have hit: "List.find ?p rows \<noteq> None" if "list_ex (is_record ns k) rows" "a = (ns, k)"
    using that by (auto simp: find_None_iff list_ex_iff)
  show "record_map (upsert_record ns k text clock rows) a = ((record_map rows)((ns, k) \<mapsto> text)) a"
  proof (cases "list_ex (is_record ns k) rows")
    case True
    have same: "(\<lambda>r. ?p (if is_record ns k r
        then r\<lparr>jr_value_json := text, jr_updated_at := clock\<rparr> else r)) = ?p"
      by (auto simp: fun_eq_iff)
    show ?thesis
      using True hit other find_Some_mem [of ?p rows]
      by (cases "List.find ?p rows")
        (auto simp: upsert_record_def record_map_def find_update_where same)
  next
    case False
    then have "List.find (is_record ns k) rows = None"
      by (auto simp: find_None_iff list_ex_iff)
    with False show ?thesis
      by (auto simp: upsert_record_def record_map_def find_append is_record_def split: option.split)
  qed
qed

lemma record_map_delete:
  "record_map (filter (\<lambda>r. \<not> is_record ns k r) rows) = (record_map rows)((ns, k) := None)"
  by (auto simp: record_map_def find_filter fun_eq_iff find_None_iff is_record_def
      intro!: arg_cong [of _ _ "map_option jr_value_json"] find_cong)

lemma record_map_clear:
  "record_map (filter (\<lambda>r. jr_namespace r \<noteq> ns) rows)
     = (\<lambda>a. if fst a = ns then None else record_map rows a)"
  by (auto simp: record_map_def find_filter fun_eq_iff find_None_iff is_record_def
      intro!: arg_cong [of _ _ "map_option jr_value_json"] find_cong)

text \<open>A write comes with the time of its statement.\<close>

definition sqlite_put ::
  "'a codec \<Rightarrow> string \<Rightarrow> string \<Rightarrow> string \<times> 'a \<Rightarrow> string json_record list \<Rightarrow> string json_record list" where
  "sqlite_put C ns k cv rows = fst (sqlite_upsert_json C (fst cv) ns k (snd cv) rows)"

definition postgres_put ::
  "'a codec \<Rightarrow> string \<Rightarrow> string \<Rightarrow> 't \<times> 'a \<Rightarrow> 't json_record list \<Rightarrow> 't json_record list" where
  "postgres_put C ns k cv rows = fst (postgres_upsert_json C (fst cv) ns k (snd cv) rows)"

interpretation sqlite_records: record_store record_map "sqlite_put C" sqlite_delete_json
  sqlite_delete_namespace "\<lambda>cv. cd_encode C (snd cv)" for C
  by unfold_locales
    (simp_all add: sqlite_put_def sqlite_upsert_json_def sqlite_delete_json_def
      sqlite_delete_namespace_def record_map_upsert record_map_delete record_map_clear
      split: option.split)

interpretation postgres_records: record_store record_map "postgres_put C" postgres_delete_json
  postgres_delete_namespace "\<lambda>cv. cd_encode C (snd cv)" for C
  by unfold_locales
    (simp_all add: postgres_put_def postgres_upsert_json_def postgres_delete_json_def
      postgres_delete_namespace_def record_map_upsert record_map_delete record_map_clear
      split: option.split)

lemma sqlite_read_json_map:
  "sqlite_read_json C ns k rows = (case record_map rows (ns, k) of
     None \<Rightarrow> Inr None | Some text \<Rightarrow> rbind (decode_json C text) (\<lambda>v. Inr (Some v)))"
  by (simp add: sqlite_read_json_def record_map_def split: option.split)

lemma postgres_read_json_map:
  "postgres_read_json C ns k rows = (case record_map rows (ns, k) of
     None \<Rightarrow> Inr None | Some text \<Rightarrow> rbind (decode_json C text) (\<lambda>v. Inr (Some v)))"
  by (simp add: postgres_read_json_def record_map_def split: option.split)

text \<open>
  What is written is read back, on both backends: a value whose JSON text decodes to it is
  returned for its namespace and key after any writes and deletions of other records.
\<close>

theorem records_read_back:
  assumes "cd_encode C v = Some text" and "cd_decode C text = Some v"
    and "\<forall>c \<in> set cs. \<not> touches c (ns, k)" and "\<forall>d \<in> set ds. \<not> touches d (ns, k)"
  shows "sqlite_read_json C ns k
      (fold (run_record (sqlite_put C) sqlite_delete_json sqlite_delete_namespace) cs
        (fst (sqlite_upsert_json C clock ns k v rows))) = Inr (Some v)
    \<and> postgres_read_json C ns k
      (fold (run_record (postgres_put C) postgres_delete_json postgres_delete_namespace) ds
        (fst (postgres_upsert_json C clock' ns k v rows'))) = Inr (Some v)"
  using sqlite_records.last_write [of C "(clock, v)" "text" cs ns k rows]
    postgres_records.last_write [of C "(clock', v)" "text" ds ns k rows'] assms
  by (simp add: sqlite_put_def postgres_put_def sqlite_read_json_map postgres_read_json_map
      decode_json_def)

theorem records_read_back_witness:
  "sqlite_read_json \<lparr>cd_encode = Some, cd_decode = Some\<rparr> ''n'' ''k''
     (fold (run_record (sqlite_put \<lparr>cd_encode = Some, cd_decode = Some\<rparr>) sqlite_delete_json
         sqlite_delete_namespace) [PutRecord ''n'' ''l'' (''2'', ''y''), ClearNamespace ''m'']
       (fst (sqlite_upsert_json \<lparr>cd_encode = Some, cd_decode = Some\<rparr> ''1'' ''n'' ''k'' ''x'' [])))
   = Inr (Some ''x'')"
  by (rule records_read_back [where ds = "[]" and clock' = "0::int" and rows' = "[]", THEN conjunct1])
    simp_all

section \<open>Pages of a namespace\<close>

definition row_cursor :: "string json_record \<Rightarrow> namespace_page_cursor" where
  "row_cursor r = NamespacePageCursor (jr_updated_at r) (jr_record_key r)"

text \<open>No two rows share namespace and key.\<close>

definition records_ok :: "'t json_record list \<Rightarrow> bool" where
  "records_ok rows \<longleftrightarrow> distinct (map (\<lambda>r. (jr_namespace r, jr_record_key r)) rows)"

text \<open>Every record and every \<open>n\<close> neighbours in the order of the pages are within the limits.\<close>

definition pages_fit :: "'a codec \<Rightarrow> query_limits \<Rightarrow> nat \<Rightarrow> 't json_record list \<Rightarrow> bool" where
  "pages_fit C limits n rs \<longleftrightarrow>
     list_all (\<lambda>r. length (jr_value_json r) \<le> max_record_bytes limits
       \<and> cd_decode C (jr_value_json r) \<noteq> None) rs
   \<and> (\<forall>i < length rs. sum_list (map (\<lambda>r. length (jr_value_json r)) (take n (drop i rs)))
        \<le> max_page_bytes limits)"

definition item_of :: "'a codec \<Rightarrow> 't json_record \<Rightarrow> 'a" where
  "item_of C r = the (cd_decode C (jr_value_json r))"

definition sqlite_fetch ::
  "'a codec \<Rightarrow> string \<Rightarrow> 32 word option \<Rightarrow> query_limits \<Rightarrow> string json_record list
     \<Rightarrow> namespace_page_cursor option \<Rightarrow> storage_error + 'a list \<times> namespace_page_cursor option" where
  "sqlite_fetch C ns requested limits rows c =
     rbind (sqlite_read_namespace_page C ns c requested limits rows rows)
       (\<lambda>p. Inr (np_items p, np_next_cursor p))"

lemma sqlite_after_cursor: "sqlite_after c r \<longleftrightarrow> (case c of None \<Rightarrow> True | Some k \<Rightarrow> k < row_cursor r)"
  by (auto simp: sqlite_after_def row_cursor_def less_namespace_page_cursor_def split: option.split)

lemma namespace_rows_set [simp]:
  "set (namespace_rows collate ns rows) = {r \<in> set rows. jr_namespace r = ns}"
  by (auto simp: namespace_rows_def)

lemma namespace_rows_ascending:
  assumes "records_ok rows"
  shows "sorted_wrt (\<lambda>a b. row_cursor a < row_cursor b) (namespace_rows id ns rows)"
proof -
  let ?k = "\<lambda>r. (jr_updated_at r, jr_record_key r)" and ?rs = "filter (\<lambda>r. jr_namespace r = ns) rows"
  have "distinct (map jr_record_key ?rs)"
    using assms by (auto simp: records_ok_def distinct_map inj_on_def)
  then have "distinct (map ?k ?rs)" by (auto simp: distinct_map inj_on_def)
  then have "distinct (map ?k (sort_key ?k ?rs))" by (simp add: distinct_map)
  moreover have "sorted (map ?k (sort_key ?k ?rs))" by simp
  ultimately have "sorted_wrt (<) (map ?k (sort_key ?k ?rs))"
    by (simp only: strict_sorted_iff)
  moreover have "row_cursor r < row_cursor q" if "?k r < ?k q" for r q
    using that by (auto simp: row_cursor_def less_namespace_page_cursor_def less_prod_def')
  ultimately show ?thesis
    unfolding namespace_rows_def sorted_wrt_map id_apply
    by (auto elim!: sorted_wrt_mono_rel [rotated])
qed

lemma append_rows_ok:
  assumes "list_all (\<lambda>r. length (jr_value_json r) \<le> max_record_bytes limits
      \<and> cd_decode C (jr_value_json r) \<noteq> None) rs"
    and "bytes + sum_list (map (\<lambda>r. length (jr_value_json r)) rs) \<le> max_page_bytes limits"
  shows "\<exists>bytes'. append_rows C limits
      (map (\<lambda>r. (jr_updated_at r, jr_record_key r, jr_value_json r)) rs) (items, bytes, c)
    = Inr (items @ map (item_of C) rs, bytes', if rs = [] then c else Some (row_cursor (last rs)))"
  using assms
proof (induction rs arbitrary: items bytes c)
  case (Cons r rs)
  let ?bytes = "saturating_add bytes (length (jr_value_json r))"
  have le: "?bytes \<le> bytes + length (jr_value_json r)" by (simp add: saturating_add_def)
  obtain v where v: "cd_decode C (jr_value_json r) = Some v" using Cons.prems(1) by auto
  have "append_namespace_item C limits (jr_updated_at r, jr_record_key r, jr_value_json r) (items, bytes, c)
      = Inr (items @ [v], ?bytes, Some (row_cursor r))"
    using Cons.prems le v
    by (auto simp: append_namespace_item_def Let_def decode_json_def row_cursor_def)
  moreover have "\<exists>bytes'. append_rows C limits
      (map (\<lambda>r. (jr_updated_at r, jr_record_key r, jr_value_json r)) rs)
      (items @ [v], ?bytes, Some (row_cursor r))
    = Inr ((items @ [v]) @ map (item_of C) rs, bytes',
        if rs = [] then Some (row_cursor r) else Some (row_cursor (last rs)))"
    using Cons.prems le by (intro Cons.IH) auto
  ultimately show ?case using v by (auto simp: item_of_def)
qed simp

lemma page_window:
  assumes "pages_fit C limits n rs" and "sorted_wrt (\<lambda>a b. key a < (key b :: 'k::linorder)) rs"
  shows "list_all (\<lambda>r. length (jr_value_json r) \<le> max_record_bytes limits
      \<and> cd_decode C (jr_value_json r) \<noteq> None) (take n (rows_after key rs c))
    \<and> sum_list (map (\<lambda>r. length (jr_value_json r)) (take n (rows_after key rs c))) \<le> max_page_bytes limits"
proof -
  obtain i where i: "rows_after key rs c = drop i rs"
    using rows_after_drop [OF assms(2)] by blast
  show ?thesis
    using assms(1) unfolding i pages_fit_def
    by (cases "i < length rs") (auto simp: list_all_iff dest!: in_set_takeD in_set_dropD)
qed

lemma sqlite_fetch_page:
  assumes "records_ok rows" and "normalize_limit limits requested = Inr l"
    and "pages_fit C limits (unat l) (namespace_rows id ns rows)"
  shows "sqlite_fetch C ns requested limits rows c
    = Inr (page_of (unat l) row_cursor (item_of C) (namespace_rows id ns rows) c)"
proof -
  let ?rs = "namespace_rows id ns rows" and ?n = "unat l"
  let ?rest = "rows_after row_cursor ?rs c" and ?triple = "\<lambda>r. (jr_updated_at r, jr_record_key r, jr_value_json r)"
  note asc = namespace_rows_ascending [OF assms(1), of ns]
  have n: "0 < ?n" using normalize_limit_bounds [OF assms(2)] by simp
  obtain bytes where app: "append_rows C limits (map ?triple (take ?n ?rest)) ([], 0, None)
      = Inr (map (item_of C) (take ?n ?rest), bytes,
          if take ?n ?rest = [] then None else Some (row_cursor (last (take ?n ?rest))))"
    using append_rows_ok [of limits C "take ?n ?rest" 0 "[]" None] page_window [OF assms(3) asc, of c]
    by auto
  have sel: "filter (sqlite_after c) ?rs = ?rest"
    unfolding rows_after_def by (rule filter_cong) (simp_all add: sqlite_after_cursor)
  have ex: "list_ex (\<lambda>r. jr_namespace r = ns \<and> sqlite_after (Some k) r) rows
      \<longleftrightarrow> rows_after row_cursor ?rs (Some k) \<noteq> []" for k
    by (auto simp: rows_after_def sqlite_after_cursor list_ex_iff filter_empty_conv)
  show ?thesis
  proof (cases "?rest = []")
    case True
    then show ?thesis
      using app n by (simp add: sqlite_fetch_def sqlite_read_namespace_page_def assms(2) sel
          page_of_def Let_def)
  next
    case False
    let ?m = "min ?n (length ?rest)"
    have m: "0 < ?m" "?m \<le> length ?rest" using n False by auto
    have last: "last (take ?n ?rest) = ?rest ! (?m - 1)"
      using n False by (subst last_conv_nth) (auto simp: min.commute)
    have "rows_after row_cursor ?rs (Some (row_cursor (?rest ! (?m - 1)))) = drop ?m ?rest"
      by (rule rows_after_nth [OF asc m])
    then have more: "rows_after row_cursor ?rs (Some (row_cursor (last (take ?n ?rest)))) \<noteq> []
        \<longleftrightarrow> ?n < length ?rest"
      unfolding last by auto
    have "last (take ?n ?rest) = ?rest ! (?n - 1)" if "?n < length ?rest"
      using last that by simp
    then show ?thesis
      using app n False more
      by (simp add: sqlite_fetch_def sqlite_read_namespace_page_def assms(2) sel
          page_of_def Let_def ex)
  qed
qed

text \<open>The tables whose pages are all within the limits.\<close>

definition sqlite_pages_ok ::
  "'a codec \<Rightarrow> string \<Rightarrow> 32 word option \<Rightarrow> query_limits \<Rightarrow> string json_record list \<Rightarrow> bool" where
  "sqlite_pages_ok C ns requested limits rows \<longleftrightarrow>
     records_ok rows \<and> is_ok (normalize_limit limits requested)
   \<and> pages_fit C limits (page_size limits requested) (namespace_rows id ns rows)"

interpretation sqlite_pages: keyset_pages "namespace_rows id ns" row_cursor "item_of C"
  "page_size limits requested" "sqlite_fetch C ns requested limits"
  "sqlite_pages_ok C ns requested limits" for C ns requested limits
  by unfold_locales
    (auto simp: sqlite_pages_ok_def page_size_def is_ok_iff namespace_rows_ascending
      sqlite_fetch_page dest: normalize_limit_bounds)

lemma sqlite_read_namespace_items:
  "pages_fit C limits n (namespace_rows id ns rows) \<Longrightarrow>
     sqlite_read_namespace C ns rows = Inr (map (item_of C) (namespace_rows id ns rows))"
  unfolding sqlite_read_namespace_def
  by (rule collect_results_total) (auto simp: pages_fit_def list_all_iff decode_json_def item_of_def)

text \<open>
  C11. Paging is complete on SQLite: a client that follows the cursors of an unchanged table receives
  exactly what reading the whole namespace returns, in the same order and without repetition, and
  needs at most one request more than there are records, for any page size within the limits.
\<close>

theorem sqlite_pages_complete:
  assumes "sqlite_pages_ok C ns requested limits rows"
    and "length (filter (\<lambda>r. jr_namespace r = ns) rows) < fuel"
  shows "fetch_all fuel (sqlite_fetch C ns requested limits rows) None
    = Some (sqlite_read_namespace C ns rows)"
proof -
  have "length (namespace_rows id ns rows) < fuel"
    using assms(2) by (simp add: namespace_rows_def)
  from sqlite_pages.all_rows [OF assms(1) this] show ?thesis
    using assms(1) by (auto simp: sqlite_pages_ok_def dest: sqlite_read_namespace_items)
qed

definition demo_limits :: query_limits where
  "demo_limits = \<lparr>default_page_size = 2, max_page_size = 3, max_record_bytes = 8,
     max_page_bytes = 16, max_json_scan_entries = 4\<rparr>"

definition demo_records :: "string json_record list" where
  "demo_records = map (\<lambda>(k, t). \<lparr>jr_namespace = ''n'', jr_record_key = k, jr_value_json = k, jr_updated_at = t\<rparr>)
     [(''c'', ''1''), (''a'', ''2''), (''b'', ''1'')]"

theorem sqlite_pages_complete_witness:
  "fetch_all 4 (sqlite_fetch \<lparr>cd_encode = Some, cd_decode = Some\<rparr> ''n'' (Some 2) demo_limits
     demo_records) None = Some (Inr [''b'', ''c'', ''a''])"
proof -
  let ?C = "\<lparr>cd_encode = Some, cd_decode = Some\<rparr> :: string codec"
  have rows: "namespace_rows id ''n'' demo_records = map (\<lambda>(k, t).
      \<lparr>jr_namespace = ''n'', jr_record_key = k, jr_value_json = k, jr_updated_at = t\<rparr>)
      [(''b'', ''1''), (''c'', ''1''), (''a'', ''2'')]"
    by code_simp
  have size: "normalize_limit demo_limits (Some 2) = Inr 2" by code_simp
  have "pages_fit ?C demo_limits 2 (namespace_rows id ''n'' demo_records)"
    unfolding rows pages_fit_def demo_limits_def
    by (simp add: All_less_Suc numeral_3_eq_3 numeral_2_eq_2)
  then have "sqlite_pages_ok ?C ''n'' (Some 2) demo_limits demo_records"
    by (simp add: sqlite_pages_ok_def page_size_def size records_ok_def demo_records_def)
  moreover have "length (filter (\<lambda>r. jr_namespace r = ''n'') demo_records) < 4"
    by (simp add: demo_records_def)
  ultimately have "fetch_all 4 (sqlite_fetch ?C ''n'' (Some 2) demo_limits demo_records) None
      = Some (sqlite_read_namespace ?C ''n'' demo_records)"
    by (intro sqlite_pages_complete)
  also have "sqlite_read_namespace ?C ''n'' demo_records = Inr [''b'', ''c'', ''a'']"
    unfolding sqlite_read_namespace_def rows by (simp add: decode_json_def)
  finally show ?thesis .
qed

text \<open>
  On PostgreSQL the wrong binding shows in both directions. With three records of one time whose
  keys are below the text of the time, the client stops after the first page; with one whose key is
  above it, it is told of more after the last record.
\<close>

definition demo_times :: "int postgres" where
  "demo_times = \<lparr>pg_timestamptz = (\<lambda>s. if s = ''2026'' then Some 0 else None),
     pg_timestamp_text = (\<lambda>_. ''2026''), pg_collate = id, pg_returning = id, pg_join_pick = hd\<rparr>"

definition same_time :: "string list \<Rightarrow> int json_record list" where
  "same_time ks = map (\<lambda>k. \<lparr>jr_namespace = ''n'', jr_record_key = k, jr_value_json = k,
     jr_updated_at = 0\<rparr>) ks"

theorem postgres_pages_incomplete:
  "postgres_read_namespace_page demo_times \<lparr>cd_encode = Some, cd_decode = Some\<rparr> ''n'' None (Some 1)
     demo_limits (same_time [''1'', ''15'', ''19'']) (same_time [''1'', ''15'', ''19''])
     = Inr \<lparr>np_items = [''1''], np_next_cursor = None, np_has_more = False\<rparr>
   \<and> postgres_read_namespace_page demo_times \<lparr>cd_encode = Some, cd_decode = Some\<rparr> ''n'' None (Some 1)
     demo_limits (same_time [''did'']) (same_time [''did''])
     = Inr \<lparr>np_items = [''did''], np_next_cursor = Some (NamespacePageCursor ''2026'' ''did''),
            np_has_more = True\<rparr>"
  by code_simp

end
