(* ===== verification/FileStore.thy ===== *)
theory FileStore
  imports JobStore Pages DidOan
begin

text \<open>
  The file stores of \<open>oan-storage\<close>: \<open>JsonStore\<close>, its directory pages, and the credential store
  that derives file names from what callers pass. The file system is a map from the components of
  an absolute path to the bytes of the file; relative roots are taken from the root directory and
  there are no symbolic links. \<open>fs::read_dir\<close> gives the entries of a directory in any order, and a
  file operation that fails does so for a reason that is an argument.
\<close>

section \<open>Paths\<close>

text \<open>\<open>Path::join\<close>, and the components that the system finds when it follows a path.\<close>

definition path_join :: "string \<Rightarrow> string \<Rightarrow> string" where
  "path_join a b =
     (if starts_with b ''/'' then b
      else if a = [] then b
      else if last a = CHR ''/'' then a @ b
      else a @ ''/'' @ b)"

fun follow :: "string list \<Rightarrow> string list \<Rightarrow> string list" where
  "follow done [] = rev done"
| "follow done (c # cs) =
     (if c = [] \<or> c = ''.'' then follow done cs
      else if c = ''..'' then follow (tl done) cs
      else follow (c # done) cs)"

definition path_components :: "string \<Rightarrow> string list" where
  "path_components p = follow [] (split_on (CHR ''/'') p)"

text \<open>\<open>Path::extension\<close> of a file name.\<close>

definition extension :: "string \<Rightarrow> string option" where
  "extension name =
     (let parts = split_on (CHR ''.'') name in
      if name = ''..'' \<or> length parts < 2 \<or> (length parts = 2 \<and> hd parts = [])
      then None else Some (last parts))"

section \<open>Names\<close>

definition did_to_file_name :: "string \<Rightarrow> string" where
  "did_to_file_name did = replace_char (CHR '':'') (CHR ''_'') did @ ''.json''"

text \<open>
  \<open>chars().map(..)\<close> on the bytes: every character outside the set becomes one underscore, so the
  continuation bytes of a multi-byte character are dropped.
\<close>

definition storage_safe_name :: "string \<Rightarrow> string" where
  "storage_safe_name v =
     map (\<lambda>c. if is_ascii_alphanumeric c \<or> c \<in> set ''-_.'' then c else CHR ''_'')
       (filter (\<lambda>c. byte c < 128 \<or> 192 \<le> byte c) v)"

definition credential_path :: "string \<Rightarrow> string \<Rightarrow> string \<Rightarrow> string \<Rightarrow> string" where
  "credential_path dimension issuer subject credential_id =
     path_join (path_join (path_join (path_join (path_join ''credentials'' ''by-dimension'')
       (storage_safe_name dimension)) (storage_safe_name issuer)) (storage_safe_name subject))
       (storage_safe_name credential_id @ ''.json'')"

section \<open>The JSON store\<close>

type_synonym files = "string list \<Rightarrow> string option"

text \<open>
  Whether the directories can be created and how the writing of the file ends. \<open>fs::write\<close> opens
  the file, which empties it, and then writes the bytes: it may fail to open it, or stop after some of
  the bytes, possibly after all of them.
\<close>

datatype file_write = Complete | Unopened | Stopped nat

record io =
  dirs_ok :: bool
  io_write :: file_write

record json_store =
  js_root :: string

definition resolve :: "json_store \<Rightarrow> string \<Rightarrow> string" where
  "resolve st path = path_join (js_root st) path"

definition store_read :: "'a codec \<Rightarrow> json_store \<Rightarrow> string \<Rightarrow> files \<Rightarrow> storage_error + 'a" where
  "store_read C st path fs =
     rbind (ok_or (fs (path_components (resolve st path))) StorageIo) (\<lambda>bytes.
     decode_json C bytes)"

text \<open>
  \<open>write\<close> creates the directories, then serialises, then writes the text with a final line feed.
\<close>

definition store_write ::
  "'a codec \<Rightarrow> io \<Rightarrow> json_store \<Rightarrow> string \<Rightarrow> 'a \<Rightarrow> files \<Rightarrow> files \<times> (storage_error + unit)" where
  "store_write C io st path v fs =
     (if \<not> dirs_ok io then (fs, Inl StorageIo)
      else case cd_encode C v of
        None \<Rightarrow> (fs, Inl StorageJson)
      | Some text \<Rightarrow>
          (let p = path_components (resolve st path); bytes = text @ [CHR 0x0A] in
           (case io_write io of
              Complete \<Rightarrow> (fs(p \<mapsto> bytes), Inr ())
            | Unopened \<Rightarrow> (fs, Inl StorageIo)
            | Stopped n \<Rightarrow> (fs(p \<mapsto> take n bytes), Inl StorageIo))))"

text \<open>Whatever becomes of a write, it touches no other file, and its success means the whole text.\<close>

lemma store_write_other:
  "p \<noteq> path_components (resolve st path) \<Longrightarrow> fst (store_write C io st path v fs) p = fs p"
  by (auto simp: store_write_def Let_def split: option.split file_write.split)

lemma store_write_complete:
  assumes "dirs_ok io" and "io_write io = Complete" and "cd_encode C v = Some content"
  shows "store_write C io st path v fs
    = (fs(path_components (resolve st path) \<mapsto> content @ [CHR 0x0A]), Inr ())"
  using assms by (simp add: store_write_def)

text \<open>A path exists when a file or one of the directories is there.\<close>

definition store_exists :: "json_store \<Rightarrow> string \<Rightarrow> string list set \<Rightarrow> files \<Rightarrow> bool" where
  "store_exists st path dirs fs \<longleftrightarrow>
     (let p = path_components (resolve st path) in fs p \<noteq> None \<or> p \<in> dirs)"

section \<open>Directory pages\<close>

record dir_entry =
  de_name :: string
  de_is_file :: "bool option"
  de_bytes :: "string option"

record 'a file_page =
  fp_items :: "'a list"
  fp_next_cursor :: "string option"
  fp_has_more :: bool

fun scan_entries ::
  "query_limits \<Rightarrow> dir_entry list \<Rightarrow> dir_entry list \<Rightarrow> storage_error + dir_entry list" where
  "scan_entries limits entries [] = Inr entries"
| "scan_entries limits entries (e # es) =
     (case de_is_file e of
        None \<Rightarrow> Inl StorageIo
      | Some is_file \<Rightarrow>
          if \<not> is_file \<or> extension (de_name e) \<noteq> Some ''json'' then scan_entries limits entries es
          else let entries = entries @ [e] in
            if length entries > max_json_scan_entries limits
            then Inl (PageScanTooLarge (length entries) (max_json_scan_entries limits))
            else scan_entries limits entries es)"

fun read_entries ::
  "'a codec \<Rightarrow> query_limits \<Rightarrow> nat \<Rightarrow> nat \<Rightarrow> dir_entry list \<Rightarrow> 'a list \<times> nat \<times> string option
     \<Rightarrow> storage_error + 'a list \<times> string option \<times> bool" where
  "read_entries C limits limit index [] (items, total_bytes, next_cursor) =
     Inr (items, next_cursor, False)"
| "read_entries C limits limit index (e # es) (items, total_bytes, next_cursor) =
     (if index \<ge> limit then Inr (items, next_cursor, True)
      else rbind (ok_or (de_bytes e) StorageIo) (\<lambda>bytes.
        if length bytes > max_record_bytes limits
        then Inl (RecordTooLarge (length bytes) (max_record_bytes limits))
        else let total_bytes = saturating_add total_bytes (length bytes) in
          if total_bytes > max_page_bytes limits
          then Inl (PageTooLarge total_bytes (max_page_bytes limits))
          else rbind (decode_json C bytes) (\<lambda>item.
            read_entries C limits limit (Suc index) es
              (items @ [item], total_bytes, Some (de_name e)))))"

definition read_directory_page ::
  "'a codec \<Rightarrow> string option \<Rightarrow> 32 word option \<Rightarrow> query_limits \<Rightarrow> dir_entry list option
     \<Rightarrow> storage_error + 'a file_page" where
  "read_directory_page C cursor requested_limit limits directory =
     rbind (normalize_limit limits requested_limit) (\<lambda>limit.
     rbind (ok_or directory StorageIo) (\<lambda>listing.
     rbind (scan_entries limits [] listing) (\<lambda>entries.
     let entries = sort_key de_name entries;
         after = filter (\<lambda>e. case cursor of None \<Rightarrow> True | Some c \<Rightarrow> de_name e > c) entries
     in rbind (read_entries C limits (unat limit) 0 after ([], 0, None))
       (\<lambda>(items, next_cursor, has_more).
     Inr \<lparr>fp_items = items, fp_next_cursor = if has_more then next_cursor else None,
          fp_has_more = has_more\<rparr>))))"

section \<open>The credential store\<close>

definition write_credential ::
  "'a codec \<Rightarrow> io \<Rightarrow> json_store \<Rightarrow> string \<Rightarrow> string \<Rightarrow> string \<Rightarrow> string \<Rightarrow> 'a \<Rightarrow> files
     \<Rightarrow> files \<times> (storage_error + unit)" where
  "write_credential C io st dimension issuer subject credential_id v fs =
     store_write C io st (credential_path dimension issuer subject credential_id) v fs"

definition read_credential ::
  "'a codec \<Rightarrow> json_store \<Rightarrow> string \<Rightarrow> string \<Rightarrow> string \<Rightarrow> string \<Rightarrow> files \<Rightarrow> storage_error + 'a" where
  "read_credential C st dimension issuer subject credential_id fs =
     store_read C st (credential_path dimension issuer subject credential_id) fs"

definition write_node_authorization ::
  "'a codec \<Rightarrow> io \<Rightarrow> io \<Rightarrow> json_store \<Rightarrow> 'a \<Rightarrow> files \<Rightarrow> files \<times> (storage_error + unit)" where
  "write_node_authorization C io io' st v fs =
     (case write_credential C io st ''node-authorization'' ''root'' ''self'' ''latest'' v fs of
        (fs', Inl e) \<Rightarrow> (fs', Inl e)
      | (fs', Inr _) \<Rightarrow> store_write C io' st ''credentials/node-authorization.json'' v fs')"

definition read_node_authorization :: "'a codec \<Rightarrow> json_store \<Rightarrow> files \<Rightarrow> storage_error + 'a" where
  "read_node_authorization C st fs = store_read C st ''credentials/node-authorization.json'' fs"

definition registration_path :: "string \<Rightarrow> string" where
  "registration_path resource_did =
     path_join (path_join ''credentials'' ''resource-registrations'') (did_to_file_name resource_did)"

definition write_resource_registration ::
  "'a codec \<Rightarrow> io \<Rightarrow> io \<Rightarrow> json_store \<Rightarrow> string \<Rightarrow> 'a \<Rightarrow> files \<Rightarrow> files \<times> (storage_error + unit)"
where
  "write_resource_registration C io io' st resource_did v fs =
     (case write_credential C io st ''resource-registration'' ''registrar'' resource_did
             ''latest'' v fs of
        (fs', Inl e) \<Rightarrow> (fs', Inl e)
      | (fs', Inr _) \<Rightarrow> store_write C io' st (registration_path resource_did) v fs')"

definition read_resource_registration ::
  "'a codec \<Rightarrow> json_store \<Rightarrow> string \<Rightarrow> files \<Rightarrow> storage_error + 'a" where
  "read_resource_registration C st resource_did fs =
     store_read C st (registration_path resource_did) fs"

section \<open>Where credentials are written\<close>

lemma follow_append: "follow done (xs @ ys) = follow (rev (follow done xs)) ys"
  by (induction "done" xs rule: follow.induct) simp_all

lemma split_on_append: "split_on c (a @ c # b) = split_on c a @ split_on c b"
proof (induction a)
  case (Cons x a)
  then show ?case
    using split_on_nonempty [of c a] by (cases "split_on c a") auto
qed simp

lemma path_components_join:
  assumes "\<not> starts_with b ''/''"
  shows "path_components (path_join a b) = follow (rev (path_components a)) (split_on (CHR ''/'') b)"
proof -
  consider "a = []" | "a \<noteq> []" "last a = CHR ''/''" | "a \<noteq> []" "last a \<noteq> CHR ''/''" by blast
  then show ?thesis
  proof cases
    case 1
    then show ?thesis using assms by (simp add: path_join_def path_components_def)
  next
    case 2
    then obtain a' where a: "a = a' @ ''/''" by (metis append_butlast_last_id)
    have "split_on (CHR ''/'') a = split_on (CHR ''/'') a' @ [[]]"
      using split_on_append [of "CHR ''/''" a' "[]"] by (simp add: a)
    then show ?thesis
      using assms 2 split_on_append [of "CHR ''/''" a' b]
      by (simp add: path_join_def path_components_def a follow_append)
  next
    case 3
    then show ?thesis
      using assms split_on_append [of "CHR ''/''" a b]
      by (simp add: path_join_def path_components_def follow_append)
  qed
qed

text \<open>A name that is one component of a path.\<close>

definition plain_name :: "string \<Rightarrow> bool" where
  "plain_name n \<longleftrightarrow> n \<noteq> [] \<and> n \<noteq> ''.'' \<and> n \<noteq> ''..'' \<and> CHR ''/'' \<notin> set n"

lemma path_components_join_plain:
  assumes "plain_name n"
  shows "path_components (path_join a n) = path_components a @ [n]"
proof -
  have "\<not> starts_with n ''/''"
    using assms by (auto simp: plain_name_def starts_with_iff)
  then show ?thesis
    using assms by (simp add: path_components_join split_on_no_sep plain_name_def)
qed

lemma safe_name_no_slash: "CHR ''/'' \<notin> set (storage_safe_name v)"
  by (auto simp: storage_safe_name_def is_ascii_alphanumeric_def split: if_split_asm)

lemma plain_safe_json: "plain_name (storage_safe_name v @ ''.json'')"
proof -
  have "storage_safe_name v @ ''.json'' \<noteq> n" if "length n < 5" for n
    using that by (auto dest: arg_cong [of _ _ length])
  then show ?thesis using safe_name_no_slash [of v] by (auto simp: plain_name_def)
qed

lemma path_join_relative:
  "a \<noteq> [] \<Longrightarrow> \<not> starts_with a ''/'' \<Longrightarrow> \<not> starts_with (path_join a b) ''/'' \<or> starts_with b ''/''"
  by (cases a) (auto simp: path_join_def starts_with_iff)

text \<open>The names callers pass are safe when their sanitised form is one component.\<close>

definition safe_names :: "string \<Rightarrow> string \<Rightarrow> string \<Rightarrow> bool" where
  "safe_names dimension issuer subject \<longleftrightarrow>
     list_all (\<lambda>v. storage_safe_name v \<notin> {[], ''.'', ''..''}) [dimension, issuer, subject]"

lemma follow_split_join:
  assumes "x \<noteq> []" and "plain_name n"
  shows "follow ds (split_on (CHR ''/'') (path_join x n)) = follow ds (split_on (CHR ''/'') x) @ [n]"
proof -
  have n: "\<not> starts_with n ''/''" "split_on (CHR ''/'') n = [n]" "n \<noteq> []" "n \<noteq> ''.''" "n \<noteq> ''..''"
    using assms(2) by (auto simp: plain_name_def starts_with_iff split_on_no_sep)
  show ?thesis
  proof (cases "last x = CHR ''/''")
    case True
    then obtain x' where x: "x = x' @ ''/''" using assms(1) by (metis append_butlast_last_id)
    show ?thesis
      using n split_on_append [of "CHR ''/''" x' "[]"] split_on_append [of "CHR ''/''" x' n]
      by (simp add: path_join_def x follow_append)
  next
    case False
    then show ?thesis
      using n assms(1) split_on_append [of "CHR ''/''" x n]
      by (simp add: path_join_def follow_append)
  qed
qed

lemma path_join_nonempty [simp]: "path_join a n = [] \<longleftrightarrow> a = [] \<and> n = []"
  by (auto simp: path_join_def starts_with_iff)

lemma not_absolute_join:
  "x \<noteq> [] \<Longrightarrow> \<not> starts_with x ''/'' \<Longrightarrow> plain_name n \<Longrightarrow> \<not> starts_with (path_join x n) ''/''"
  by (cases x) (auto simp: path_join_def starts_with_iff plain_name_def)

text \<open>
  Credentials stay in their directory: when dimension, issuer and subject have safe names, whatever
  the credential id, the file of a credential lies in the directory of these three names below
  \<open>credentials/by-dimension\<close> of the store, whatever the root is.
\<close>

lemma credential_components:
  assumes "safe_names dimension issuer subject"
  shows "path_components (resolve st (credential_path dimension issuer subject credential_id))
    = path_components (js_root st) @ [''credentials'', ''by-dimension'', storage_safe_name dimension,
        storage_safe_name issuer, storage_safe_name subject, storage_safe_name credential_id @ ''.json'']"
proof -
  have plain: "plain_name (storage_safe_name v)" if "v \<in> set [dimension, issuer, subject]" for v
    using assms that safe_name_no_slash [of v] by (auto simp: safe_names_def plain_name_def)
  have base: "plain_name ''by-dimension''" by (simp add: plain_name_def)
  have relative: "\<not> starts_with (credential_path dimension issuer subject credential_id) ''/''"
    unfolding credential_path_def
    by (intro not_absolute_join plain plain_safe_json base) (simp_all add: starts_with_def)
  have root: "path_components (resolve st (credential_path dimension issuer subject credential_id))
    = follow (rev (path_components (js_root st)))
        (split_on (CHR ''/'') (credential_path dimension issuer subject credential_id))"
    by (simp only: resolve_def path_components_join [OF relative])
  show ?thesis
    unfolding root unfolding credential_path_def
    by (simp add: follow_split_join plain plain_safe_json base)
qed

theorem credentials_stay_in_directory:
  assumes "safe_names dimension issuer subject"
    and "path \<noteq> path_components (js_root st) @ [''credentials'', ''by-dimension'', storage_safe_name dimension,
        storage_safe_name issuer, storage_safe_name subject, storage_safe_name credential_id @ ''.json'']"
  shows "fst (write_credential C io st dimension issuer subject credential_id v fs) path = fs path"
  using assms credential_components [OF assms(1), of st credential_id]
  by (auto simp: write_credential_def intro!: store_write_other)

text \<open>
  The condition is needed: names of two dots leave the directory, here to a file outside the
  root of the store.
\<close>

theorem credential_path_escapes:
  "path_components (resolve \<lparr>js_root = ''/data''\<rparr> (credential_path ''..'' ''..'' ''..'' ''identity''))
     = [''identity.json'']"
  by code_simp

text \<open>
  Names that are equal after they have been sanitised share a file, so the later credential overwrites the
  earlier one.
\<close>

theorem sanitised_names_collide:
  "credential_path ''d'' ''did:a'' ''s'' ''1'' = credential_path ''d'' ''did_a'' ''s'' ''1''"
  by code_simp

text \<open>
  C37. Credentials are isolated, for names that are safe: dimension, issuer and subject do not become
  empty, one dot or two dots. What is written completely is read back, and however the write ends, a
  credential whose names differ after they have been sanitised is as readable as before.
\<close>

theorem credentials_are_isolated:
  assumes "safe_names dimension issuer subject"
  shows "(dirs_ok io \<and> io_write io = Complete \<and> cd_encode C v = Some content
       \<and> cd_decode C (content @ [CHR 0x0A]) = Some v \<longrightarrow>
       read_credential C st dimension issuer subject credential_id
         (fst (write_credential C io st dimension issuer subject credential_id v fs)) = Inr v)
    \<and> (safe_names dimension' issuer' subject'
       \<and> map storage_safe_name [dimension', issuer', subject', credential_id']
           \<noteq> map storage_safe_name [dimension, issuer, subject, credential_id] \<longrightarrow>
       read_credential C st dimension' issuer' subject' credential_id'
         (fst (write_credential C io st dimension issuer subject credential_id v fs))
       = read_credential C st dimension' issuer' subject' credential_id' fs)"
proof (intro conjI impI; elim conjE)
  assume "dirs_ok io" "io_write io = Complete" "cd_encode C v = Some content"
    "cd_decode C (content @ [CHR 0x0A]) = Some v"
  then show "read_credential C st dimension issuer subject credential_id
      (fst (write_credential C io st dimension issuer subject credential_id v fs)) = Inr v"
    by (simp add: read_credential_def write_credential_def store_write_complete store_read_def decode_json_def)
next
  assume "safe_names dimension' issuer' subject'"
    "map storage_safe_name [dimension', issuer', subject', credential_id']
      \<noteq> map storage_safe_name [dimension, issuer, subject, credential_id]"
  then have "path_components (resolve st (credential_path dimension' issuer' subject' credential_id'))
      \<noteq> path_components (resolve st (credential_path dimension issuer subject credential_id))"
    by (auto simp: credential_components assms)
  then show "read_credential C st dimension' issuer' subject' credential_id'
      (fst (write_credential C io st dimension issuer subject credential_id v fs))
    = read_credential C st dimension' issuer' subject' credential_id' fs"
    by (simp add: read_credential_def write_credential_def store_read_def store_write_other)
qed

definition file_codec :: "string codec" where
  "file_codec = \<lparr>cd_encode = Some, cd_decode = (\<lambda>s. Some (butlast s))\<rparr>"

theorem credentials_are_isolated_witness:
  "let fs = fst (write_credential file_codec \<lparr>dirs_ok = True, io_write = Complete\<rparr> \<lparr>js_root = ''/data''\<rparr>
        ''d'' ''did:a'' ''s'' ''1'' ''x'' Map.empty);
       gs = fst (write_credential file_codec \<lparr>dirs_ok = True, io_write = Stopped 0\<rparr> \<lparr>js_root = ''/data''\<rparr>
        ''d'' ''did:b'' ''s'' ''1'' ''y'' fs)
   in read_credential file_codec \<lparr>js_root = ''/data''\<rparr> ''d'' ''did:a'' ''s'' ''1'' fs = Inr ''x''
     \<and> read_credential file_codec \<lparr>js_root = ''/data''\<rparr> ''d'' ''did:a'' ''s'' ''1'' gs = Inr ''x''"
proof -
  have safe: "safe_names ''d'' ''did:a'' ''s''" "safe_names ''d'' ''did:b'' ''s''" by code_simp+
  have names: "map storage_safe_name [''d'', ''did:a'', ''s'', ''1'']
      \<noteq> map storage_safe_name [''d'', ''did:b'', ''s'', ''1'']"
    by code_simp
  let ?fs = "fst (write_credential file_codec \<lparr>dirs_ok = True, io_write = Complete\<rparr> \<lparr>js_root = ''/data''\<rparr>
      ''d'' ''did:a'' ''s'' ''1'' ''x'' Map.empty)"
  have first: "read_credential file_codec \<lparr>js_root = ''/data''\<rparr> ''d'' ''did:a'' ''s'' ''1'' ?fs = Inr ''x''"
    by (rule credentials_are_isolated [OF safe(1), where content = "''x''", THEN conjunct1, rule_format])
      (simp add: file_codec_def)
  have "read_credential file_codec \<lparr>js_root = ''/data''\<rparr> ''d'' ''did:a'' ''s'' ''1''
      (fst (write_credential file_codec \<lparr>dirs_ok = True, io_write = Stopped 0\<rparr> \<lparr>js_root = ''/data''\<rparr>
        ''d'' ''did:b'' ''s'' ''1'' ''y'' ?fs))
    = read_credential file_codec \<lparr>js_root = ''/data''\<rparr> ''d'' ''did:a'' ''s'' ''1'' ?fs"
    by (rule credentials_are_isolated [OF safe(2), THEN conjunct2, rule_format]) (rule conjI [OF safe(1) names])
  with first show ?thesis unfolding Let_def by (intro conjI) simp_all
qed

section \<open>Directory pages are complete\<close>

definition is_json_file :: "dir_entry \<Rightarrow> bool" where
  "is_json_file e \<longleftrightarrow> de_is_file e = Some True \<and> extension (de_name e) = Some ''json''"

definition json_files :: "dir_entry list \<Rightarrow> dir_entry list" where
  "json_files listing = sort_key de_name (filter is_json_file listing)"

definition entry_size :: "dir_entry \<Rightarrow> nat" where
  "entry_size e = (case de_bytes e of None \<Rightarrow> 0 | Some bytes \<Rightarrow> length bytes)"

definition entry_item :: "'a codec \<Rightarrow> dir_entry \<Rightarrow> 'a" where
  "entry_item C e = the (cd_decode C (the (de_bytes e)))"

definition entry_fits :: "'a codec \<Rightarrow> query_limits \<Rightarrow> dir_entry \<Rightarrow> bool" where
  "entry_fits C limits e \<longleftrightarrow>
     (case de_bytes e of None \<Rightarrow> False
      | Some bytes \<Rightarrow> length bytes \<le> max_record_bytes limits \<and> cd_decode C bytes \<noteq> None)"

definition directory_ok ::
  "'a codec \<Rightarrow> 32 word option \<Rightarrow> query_limits \<Rightarrow> dir_entry list \<Rightarrow> bool" where
  "directory_ok C requested limits listing \<longleftrightarrow>
     distinct (map de_name listing) \<and> list_all (\<lambda>e. de_is_file e \<noteq> None) listing
   \<and> is_ok (normalize_limit limits requested)
   \<and> length (json_files listing) \<le> max_json_scan_entries limits
   \<and> list_all (entry_fits C limits) (json_files listing)
   \<and> (\<forall>i < length (json_files listing).
        sum_list (map entry_size (take (page_size limits requested) (drop i (json_files listing))))
        \<le> max_page_bytes limits)"

definition directory_fetch ::
  "'a codec \<Rightarrow> 32 word option \<Rightarrow> query_limits \<Rightarrow> dir_entry list \<Rightarrow> string option
     \<Rightarrow> storage_error + 'a list \<times> string option" where
  "directory_fetch C requested limits listing c =
     rbind (read_directory_page C c requested limits (Some listing))
       (\<lambda>p. Inr (fp_items p, fp_next_cursor p))"

lemma scan_entries_ok:
  assumes "list_all (\<lambda>e. de_is_file e \<noteq> None) es"
    and "length (acc @ filter is_json_file es) \<le> max_json_scan_entries limits"
  shows "scan_entries limits acc es = Inr (acc @ filter is_json_file es)"
  using assms
proof (induction es arbitrary: acc)
  case (Cons e es)
  then show ?case by (cases "de_is_file e") (auto simp: is_json_file_def Let_def)
qed simp

lemma read_entries_ok:
  assumes "list_all (entry_fits C limits) (take (limit - index) es)"
    and "bytes + sum_list (map entry_size (take (limit - index) es)) \<le> max_page_bytes limits"
    and "index \<le> limit"
  shows "read_entries C limits limit index es (items, bytes, c) =
    Inr (items @ map (entry_item C) (take (limit - index) es),
         (if take (limit - index) es = [] then c else Some (de_name (last (take (limit - index) es)))),
         limit - index < length es)"
  using assms
proof (induction es arbitrary: index items bytes c)
  case (Cons e es)
  show ?case
  proof (cases "limit = index")
    case False
    then have k: "limit - index = Suc (limit - Suc index)" "\<not> index \<ge> limit" "Suc index \<le> limit"
      using Cons.prems(3) by auto
    obtain b v where b: "de_bytes e = Some b" "length b \<le> max_record_bytes limits"
      "cd_decode C b = Some v"
      using Cons.prems(1) unfolding k(1) by (auto simp: entry_fits_def split: option.splits)
    have le: "saturating_add bytes (length b) \<le> bytes + length b" by (simp add: saturating_add_def)
    have "read_entries C limits limit (Suc index) es
        (items @ [v], saturating_add bytes (length b), Some (de_name e)) =
      Inr ((items @ [v]) @ map (entry_item C) (take (limit - Suc index) es),
         (if take (limit - Suc index) es = [] then Some (de_name e)
          else Some (de_name (last (take (limit - Suc index) es)))),
         limit - Suc index < length es)"
      by (rule Cons.IH) (use Cons.prems(1,2) k le b in \<open>auto simp: entry_size_def\<close>)
    then show ?thesis
      using k b le Cons.prems(2)
      by (auto simp: decode_json_def Let_def entry_item_def entry_size_def)
  qed simp
qed simp

lemma mem_json_files: "e \<in> set (json_files listing) \<longleftrightarrow> e \<in> set listing \<and> is_json_file e"
  by (simp add: json_files_def)

lemma json_files_ascending:
  "distinct (map de_name listing) \<Longrightarrow> sorted_wrt (\<lambda>a b. de_name a < de_name b) (json_files listing)"
proof -
  assume "distinct (map de_name listing)"
  then have "distinct (map de_name (json_files listing))"
    by (auto simp: json_files_def distinct_map intro: inj_on_subset)
  then have "sorted_wrt (<) (map de_name (json_files listing))"
    by (simp add: strict_sorted_iff json_files_def)
  then show ?thesis by (simp add: sorted_wrt_map)
qed

lemma rows_after_window:
  assumes "\<forall>i < length rows. sum_list (map f (take n (drop i rows))) \<le> (m :: nat)"
    and "sorted_wrt (\<lambda>a b. key a < (key b :: 'k::linorder)) rows"
  shows "sum_list (map f (take n (rows_after key rows c))) \<le> m"
proof -
  obtain i where "rows_after key rows c = drop i rows" using rows_after_drop [OF assms(2)] by blast
  then show ?thesis using assms(1) by (cases "i < length rows") auto
qed

lemma directory_fetch_page:
  assumes "directory_ok C requested limits listing"
  shows "directory_fetch C requested limits listing c
    = Inr (page_of (page_size limits requested) de_name (entry_item C) (json_files listing) c)"
proof -
  let ?rest = "rows_after de_name (json_files listing) c" and ?n = "page_size limits requested"
  obtain l where l: "normalize_limit limits requested = Inr l" "?n = unat l"
    using assms by (auto simp: directory_ok_def is_ok_iff page_size_def)
  have n: "0 < unat l" using normalize_limit_bounds [OF l(1)] by simp
  have asc: "sorted_wrt (\<lambda>a b. de_name a < de_name b) (json_files listing)"
    using assms by (simp add: directory_ok_def json_files_ascending)
  have scan: "scan_entries limits [] listing = Inr (filter is_json_file listing)"
    using assms scan_entries_ok [of listing "[]" limits] by (simp add: directory_ok_def json_files_def)
  have "list_all (entry_fits C limits) (take ?n ?rest)"
    using assms by (auto simp: directory_ok_def list_all_iff rows_after_def dest!: in_set_takeD)
  moreover have "sum_list (map entry_size (take ?n ?rest)) \<le> max_page_bytes limits"
    using assms by (intro rows_after_window [OF _ asc]) (simp add: directory_ok_def)
  ultimately have read: "read_entries C limits (unat l) 0 ?rest ([], 0, None) =
    Inr (map (entry_item C) (take (unat l) ?rest),
         (if take (unat l) ?rest = [] then None else Some (de_name (last (take (unat l) ?rest)))),
         unat l < length ?rest)"
    using read_entries_ok [of C limits "unat l" 0 ?rest 0 "[]" None] l by simp
  have sel: "filter (\<lambda>e. case c of None \<Rightarrow> True | Some k \<Rightarrow> de_name e > k)
      (sort_key de_name (filter is_json_file listing)) = ?rest"
    by (simp add: rows_after_def json_files_def)
  have "last (take (unat l) ?rest) = ?rest ! (unat l - 1)" if "unat l < length ?rest"
    using that n by (subst last_conv_nth) (auto simp: min_def)
  then show ?thesis
    using read n
    by (simp add: directory_fetch_def read_directory_page_def l scan sel Let_def page_of_def)
qed

interpretation directory_pages: keyset_pages json_files de_name "entry_item C"
  "page_size limits requested" "directory_fetch C requested limits" "directory_ok C requested limits"
  for C requested limits
  by unfold_locales
    (auto simp: directory_fetch_page, auto simp: directory_ok_def json_files_ascending page_size_def
      is_ok_iff dest: normalize_limit_bounds)

text \<open>
  Paging through an unchanged directory is complete: following the cursors gives the values of all
  its JSON files in the order of their names, each once, however the system lists the directory.
\<close>

theorem directory_pages_complete:
  assumes "directory_ok C requested limits listing"
    and "length (filter is_json_file listing) < fuel"
  shows "fetch_all fuel (directory_fetch C requested limits listing) None
    = Some (Inr (map (entry_item C) (json_files listing)))"
  by (rule directory_pages.all_rows [OF assms(1)]) (use assms(2) in \<open>simp add: json_files_def\<close>)

definition demo_listing :: "dir_entry list" where
  "demo_listing = map (\<lambda>(n, f). \<lparr>de_name = n, de_is_file = Some f, de_bytes = Some (n @ ''!'')\<rparr>)
     [(''b.json'', True), (''c'', True), (''a.json'', True), (''d.json'', False)]"

definition small_limits :: query_limits where
  "small_limits = \<lparr>default_page_size = 1, max_page_size = 3, max_record_bytes = 8,
     max_page_bytes = 16, max_json_scan_entries = 4\<rparr>"

theorem directory_pages_complete_witness:
  "fetch_all 4 (directory_fetch file_codec None small_limits demo_listing) None
    = Some (Inr [''a.json'', ''b.json''])"
proof -
  have files: "json_files demo_listing = map (\<lambda>n. \<lparr>de_name = n, de_is_file = Some True,
      de_bytes = Some (n @ ''!'')\<rparr>) [''a.json'', ''b.json'']"
    by code_simp
  have size: "normalize_limit small_limits None = Inr 1" by code_simp
  have "directory_ok file_codec None small_limits demo_listing"
    unfolding directory_ok_def files page_size_def size
    by (simp add: demo_listing_def small_limits_def entry_fits_def entry_size_def file_codec_def
        All_less_Suc numeral_2_eq_2)
      (intro conjI exI [of "\<lambda>y. y" True] exI [of Not False], simp_all)
  then have "fetch_all 4 (directory_fetch file_codec None small_limits demo_listing) None
      = Some (Inr (map (entry_item file_codec) (json_files demo_listing)))"
    by (rule directory_pages_complete) (simp add: demo_listing_def is_json_file_def)
  then show ?thesis by (simp add: files entry_item_def file_codec_def)
qed

section \<open>Registration files of resources\<close>

lemma replace_char_inj:
  assumes "b \<notin> set v" and "b \<notin> set w" and "replace_char a b v = replace_char a b w"
  shows "v = w"
proof -
  have "map (\<lambda>c. if c = b then a else c) (replace_char a b v) = v" if "b \<notin> set v" for v
    using that by (induction v) (auto simp: replace_char_def)
  with assms show ?thesis by metis
qed

text \<open>
  Registration files are not shared: for valid identifiers the file name is built without loss, so
  different resources have different files; identifiers that are not valid can collide.
\<close>

theorem registration_files_distinct:
  "(is_ok (parse a) \<and> is_ok (parse b) \<and> did_to_file_name a = did_to_file_name b \<longrightarrow> a = b)
   \<and> did_to_file_name ''did:x'' = did_to_file_name ''did_x''"
proof -
  have no: "CHR ''_'' \<notin> set v" if ok: "is_ok (parse v)" for v
  proof -
    obtain d where "parse v = Inr d" using ok by (auto simp: is_ok_iff)
    from parse_InrD [OF this] obtain r s where "v = DID_PREFIX @ r @ '':'' @ s"
      "set r \<subseteq> set BASE58_ALPHABET" "set s \<subseteq> set BASE58_ALPHABET" by blast
    moreover have "CHR ''_'' \<notin> set BASE58_ALPHABET" by (simp add: BASE58_ALPHABET_def)
    moreover have "CHR ''_'' \<notin> set DID_PREFIX" by (simp add: DID_PREFIX_def)
    ultimately show ?thesis by auto
  qed
  show ?thesis
    using replace_char_inj [OF no no, of a b] by (auto simp: did_to_file_name_def replace_char_def)
qed

theorem registration_files_distinct_witness:
  "did_to_file_name ''did:oan:K7mQ9:5HkPq7Vm3RdT9Ya2WcX8Ns4Bf6GjLeZu''
    \<noteq> did_to_file_name ''did:oan:K7mQ9:5HkPq7Vm3RdT9Ya2WcX8Ns4Bf6GjLeZv''"
proof -
  have "is_ok (parse ''did:oan:K7mQ9:5HkPq7Vm3RdT9Ya2WcX8Ns4Bf6GjLeZu'')"
    "is_ok (parse ''did:oan:K7mQ9:5HkPq7Vm3RdT9Ya2WcX8Ns4Bf6GjLeZv'')"
    by code_simp+
  then show ?thesis
    using registration_files_distinct [of "''did:oan:K7mQ9:5HkPq7Vm3RdT9Ya2WcX8Ns4Bf6GjLeZu''"
        "''did:oan:K7mQ9:5HkPq7Vm3RdT9Ya2WcX8Ns4Bf6GjLeZv''"] by auto
qed

end
