(* ===== verification/Recommender.thy ===== *)
theory Recommender
  imports CoreTypes DomainTree "HOL-Library.Product_Lexorder"
begin

text \<open>
  Crate \<open>oan-semantic-recommender\<close>: the normalisation of text, the profiles of domains and tags, the
  scores, and the suggestions for a registration and for a query. The arithmetic of \<open>f32\<close> is a
  record of its operations, so what is proved holds for any rounding; the order of its type is
  \<open>total_cmp\<close>. Text is UTF-8, and its characters are the byte strings the lead bytes delimit. The
  embedded taxonomy, profile overrides and tag tree are data, arguments of the constructor.
\<close>

section \<open>Arithmetic\<close>

record 'f arith =
  f_lit :: "int \<Rightarrow> nat \<Rightarrow> 'f"
  f_of_nat :: "nat \<Rightarrow> 'f"
  f_add :: "'f \<Rightarrow> 'f \<Rightarrow> 'f"
  f_sub :: "'f \<Rightarrow> 'f \<Rightarrow> 'f"
  f_mul :: "'f \<Rightarrow> 'f \<Rightarrow> 'f"
  f_div :: "'f \<Rightarrow> 'f \<Rightarrow> 'f"
  f_min :: "'f \<Rightarrow> 'f \<Rightarrow> 'f"
  f_max :: "'f \<Rightarrow> 'f \<Rightarrow> 'f"
  f_round :: "'f \<Rightarrow> 'f"
  f_sum :: "'f list \<Rightarrow> 'f"
  f_eq :: "'f \<Rightarrow> 'f \<Rightarrow> bool"
  f_less :: "'f \<Rightarrow> 'f \<Rightarrow> bool"
  f_less_eq :: "'f \<Rightarrow> 'f \<Rightarrow> bool"

text \<open>\<open>f_lit n k\<close> is the literal of \<open>n\<close> with \<open>k\<close> decimals.\<close>

definition round_score :: "'f arith \<Rightarrow> 'f \<Rightarrow> 'f" where
  "round_score A v = f_div A (f_round A (f_mul A v (f_lit A 1000 0))) (f_lit A 1000 0)"

text \<open>A stable sort by falling score, and by rising name where scores are equal.\<close>

definition sort_ranked :: "('c \<Rightarrow> 'f::linorder) \<Rightarrow> ('c \<Rightarrow> string) \<Rightarrow> 'c list \<Rightarrow> 'c list" where
  "sort_ranked score name cs = rev (sort_key score (rev (sort_key name cs)))"

section \<open>Text\<close>

fun utf8_len :: "char \<Rightarrow> nat" where
  "utf8_len c = (if byte c < 192 then 1 else if byte c < 224 then 2 else if byte c < 240 then 3 else 4)"

declare utf8_len.simps [simp del]

lemma utf8_len_pos [simp]: "0 < utf8_len c"
  by (simp add: utf8_len.simps)

function utf8_chars :: "string \<Rightarrow> string list" where
  "utf8_chars [] = []"
| "utf8_chars (c # cs) = take (utf8_len c) (c # cs) # utf8_chars (drop (utf8_len c) (c # cs))"
  by pat_completeness auto
termination
  by (relation "measure length") (auto simp: diff_less)

definition is_cjk :: "string \<Rightarrow> bool" where
  "is_cjk c =
     (case c of
        [a, b, d] \<Rightarrow>
          224 \<le> byte a \<and> byte a < 240 \<and> 128 \<le> byte b \<and> 128 \<le> byte d
        \<and> (let cp = (byte a - 224) * 4096 + (byte b - 128) * 64 + (byte d - 128) in
             0x4E00 \<le> cp \<and> cp \<le> 0x9FFF \<or> 0x3400 \<le> cp \<and> cp \<le> 0x4DBF
           \<or> 0xF900 \<le> cp \<and> cp \<le> 0xFAFF)
      | _ \<Rightarrow> False)"

definition to_lower :: "char \<Rightarrow> char" where
  "to_lower c = (if 65 \<le> byte c \<and> byte c \<le> 90 then char_of (byte c + 32) else c)"

text \<open>The pattern \<open>https?://[^\s]+\<close> at a position: what follows the match.\<close>

function skip_non_space :: "string \<Rightarrow> string" where
  "skip_non_space s = (if s = [] \<or> ws_len s > 0 then s else skip_non_space (tl s))"
  by pat_completeness auto
termination by (relation "measure length") auto

declare skip_non_space.simps [simp del]

definition url_match :: "string \<Rightarrow> string option" where
  "url_match s =
     (case strip_prefix ''http'' s of
        None \<Rightarrow> None
      | Some r \<Rightarrow>
          (case strip_prefix ''://'' (case strip_prefix ''s'' r of None \<Rightarrow> r | Some q \<Rightarrow> q) of
             None \<Rightarrow> None
           | Some q \<Rightarrow> if q = [] \<or> ws_len q > 0 then None else Some (skip_non_space q)))"

lemma length_skip_non_space: "length (skip_non_space s) \<le> length s"
proof (induction s rule: skip_non_space.induct)
  case (1 s)
  then show ?case by (subst skip_non_space.simps) (auto intro: order.trans)
qed

lemma url_match_shorter: "url_match s = Some r \<Longrightarrow> length r < length s"
  using length_skip_non_space
  by (fastforce simp: url_match_def strip_prefix_Some_iff split: option.splits if_splits
      intro: le_less_trans)

function replace_urls :: "string \<Rightarrow> string" where
  "replace_urls s =
     (case url_match s of
        Some r \<Rightarrow> '' '' @ replace_urls r
      | None \<Rightarrow> (case s of [] \<Rightarrow> [] | c # cs \<Rightarrow> c # replace_urls cs))"
  by pat_completeness auto
termination
  by (relation "measure length") (auto dest: url_match_shorter)

declare replace_urls.simps [simp del]

definition normalize_char :: "string \<Rightarrow> string" where
  "normalize_char c =
     (if list_all is_ascii_alphanumeric c \<and> length c = 1 then map to_lower c
      else if is_cjk c then c else '' '')"

definition split_words :: "string \<Rightarrow> string list" where
  "split_words s = filter (\<lambda>w. w \<noteq> []) (split_on (CHR '' '') s)"

definition normalize_text :: "string \<Rightarrow> string" where
  "normalize_text s =
     join '' '' (split_words (concat (map normalize_char (utf8_chars (replace_urls s)))))"

text \<open>\<open>str::contains\<close> on UTF-8 text\<close>

fun contains :: "string \<Rightarrow> string \<Rightarrow> bool" where
  "contains [] p = (p = [])"
| "contains (c # cs) p = (starts_with (c # cs) p \<or> contains cs p)"

definition char_count :: "string \<Rightarrow> nat" where
  "char_count s = length (utf8_chars s)"

datatype locale_hint = En | Zh | Mixed

definition parse_locale :: "string \<Rightarrow> locale_hint option" where
  "parse_locale v =
     (let w = map to_lower v in
      if w \<in> set [''zh'', ''zh-cn'', ''zh_hans'', ''cn''] then Some Zh
      else if w \<in> set [''en'', ''en-us'', ''en-gb''] then Some En
      else if w = ''mixed'' then Some Mixed
      else None)"

definition is_ascii_alphabetic :: "char \<Rightarrow> bool" where
  "is_ascii_alphabetic c \<longleftrightarrow> 65 \<le> byte c \<and> byte c \<le> 90 \<or> 97 \<le> byte c \<and> byte c \<le> 122"

definition detect_locale :: "string \<Rightarrow> locale_hint" where
  "detect_locale s =
     (let cjk = length (filter is_cjk (utf8_chars s));
          ascii = length (filter is_ascii_alphabetic s) in
      if cjk > 0 \<and> ascii > 0 then Mixed else if cjk > 0 then Zh else En)"

definition normalize_capability_tags :: "string list \<Rightarrow> string list" where
  "normalize_capability_tags tags =
     sort (remdups (filter (\<lambda>v. v \<noteq> [])
       (map (\<lambda>tag. replace_char (CHR '' '') (CHR ''-'') (normalize_text tag)) tags)))"

section \<open>Terms and phrases\<close>

definition utf8 :: "nat list \<Rightarrow> string" where
  "utf8 bs = map char_of bs"

record 'f term_weights =
  wt_terms :: "(string \<times> 'f) list"
  wt_total_weight :: 'f

datatype evidence_kind = Keyword | Alias | Token | EvResourceType | EvProtocol | EvScope

record evidence =
  ev_kind :: evidence_kind
  ev_term :: string
  ev_matched_profile :: string

record profile_phrase =
  pp_original :: string
  pp_normalized :: string

text \<open>\<open>*terms.entry(k).or_default() += w\<close>\<close>

definition add_weight :: "'f arith \<Rightarrow> string \<Rightarrow> 'f \<Rightarrow> (string \<times> 'f) list \<Rightarrow> (string \<times> 'f) list" where
  "add_weight A k w terms =
     btree_insert k (f_add A (case map_of terms k of None \<Rightarrow> f_lit A 0 1 | Some v \<Rightarrow> v) w) terms"

definition trim_end_char :: "char \<Rightarrow> string \<Rightarrow> string" where
  "trim_end_char c s = rev (trim_start_char c (rev s))"

definition add_ascii_terms ::
  "'f arith \<Rightarrow> string \<Rightarrow> 'f \<Rightarrow> (string \<times> 'f) list \<Rightarrow> (string \<times> 'f) list" where
  "add_ascii_terms A token weight terms =
     (if length token < 2 then terms
      else let terms = add_weight A token weight terms;
               canonical = trim_end_char (CHR ''s'') token in
        if length canonical \<ge> 3 \<and> canonical \<noteq> token
        then add_weight A canonical (f_mul A weight (f_lit A 75 2)) terms
        else terms)"

text \<open>\<open>slice::windows\<close>\<close>

definition windows :: "nat \<Rightarrow> 'a list \<Rightarrow> 'a list list" where
  "windows n xs = map (\<lambda>i. take n (drop i xs)) [0 ..< Suc (length xs) - n]"

definition add_cjk_terms ::
  "'f arith \<Rightarrow> string \<Rightarrow> 'f \<Rightarrow> (string \<times> 'f) list \<Rightarrow> (string \<times> 'f) list" where
  "add_cjk_terms A token weight terms =
     (let chars = utf8_chars token in
      fold (\<lambda>n terms.
        if length chars < n then terms
        else let n_weight = (if n = 1 then f_mul A weight (f_lit A 2 1)
               else if n = 2 then f_mul A weight (f_lit A 9 1)
               else if n = 3 then weight else f_mul A weight (f_lit A 85 2))
             in fold (\<lambda>window. add_weight A (concat window) n_weight) (windows n chars) terms)
        [1, 2, 3, 4] terms)"

definition weighted_terms :: "'f arith \<Rightarrow> string \<Rightarrow> 'f \<Rightarrow> 'f term_weights" where
  "weighted_terms A s base_weight =
     (let terms = fold (\<lambda>token.
            if list_ex is_cjk (utf8_chars token) then add_cjk_terms A token base_weight
            else add_ascii_terms A token base_weight)
            (split_words (normalize_text s)) []
      in \<lparr>wt_terms = terms, wt_total_weight = f_sum A (map snd terms)\<rparr>)"

definition build_profile_phrases :: "string list \<Rightarrow> profile_phrase list" where
  "build_profile_phrases phrases =
     map (\<lambda>p. \<lparr>pp_original = p, pp_normalized = normalize_text p\<rparr>)
       (filter (\<lambda>p. normalize_text p \<noteq> []) phrases)"

record 'f text_features =
  tf_normalized :: string
  tf_terms :: "'f term_weights"
  tf_locale :: locale_hint

definition extract_features :: "'f arith \<Rightarrow> string \<Rightarrow> string option \<Rightarrow> 'f text_features" where
  "extract_features A s locale_name =
     (let normalized = normalize_text s;
          hint = (case Option.bind locale_name parse_locale of
                    None \<Rightarrow> detect_locale normalized | Some h \<Rightarrow> h)
      in \<lparr>tf_normalized = normalized, tf_terms = weighted_terms A normalized (f_lit A 10 1),
          tf_locale = hint\<rparr>)"

section \<open>Profiles\<close>

record 'f domain_profile =
  dp_id :: string
  dp_label :: string
  dp_tokens :: "'f term_weights"
  dp_aliases :: "profile_phrase list"
  dp_keywords :: "profile_phrase list"

record profile_override =
  po_description_en :: string
  po_description_zh :: string
  po_aliases_en :: "string list"
  po_aliases_zh :: "string list"
  po_keywords_en :: "string list"
  po_keywords_zh :: "string list"

definition replace_chars :: "char list \<Rightarrow> char \<Rightarrow> string \<Rightarrow> string" where
  "replace_chars cs b s = map (\<lambda>c. if c \<in> set cs then b else c) s"

definition build_profile ::
  "'f arith \<Rightarrow> (string \<Rightarrow> profile_override option) \<Rightarrow> authorized_domain \<Rightarrow> 'f domain_profile" where
  "build_profile A overrides d =
     (let spaced = replace_chars ''_.'' (CHR '' '') (dom_id d);
          (descriptions, more_aliases, more_keywords) = (case overrides (dom_id d) of
            None \<Rightarrow> ([], [], [])
          | Some p \<Rightarrow> ([po_description_en p, po_description_zh p], po_aliases_en p @ po_aliases_zh p,
                       po_keywords_en p @ po_keywords_zh p));
          aliases = dom_aliases d @ more_aliases;
          keywords = [dom_label d, spaced] @ more_keywords;
          text_parts = [spaced, dom_label d] @ descriptions @ aliases @ keywords
      in \<lparr>dp_id = dom_id d, dp_label = dom_label d,
          dp_tokens = weighted_terms A (join '' '' text_parts) (f_lit A 10 1),
          dp_aliases = build_profile_phrases aliases, dp_keywords = build_profile_phrases keywords\<rparr>)"

definition build_profiles ::
  "'f arith \<Rightarrow> authorized_domain_taxonomy \<Rightarrow> (string \<Rightarrow> profile_override option) \<Rightarrow> 'f domain_profile list"
where
  "build_profiles A taxonomy overrides = map (build_profile A overrides) (tax_domains taxonomy)"

datatype capability_tag_node =
  CapabilityTagNode (ct_id: string) (ct_label: string) (ct_aliases: "string list")
    (ct_children: "capability_tag_node list")

record 'f tag_profile =
  tp_value :: string
  tp_label :: string
  tp_terms :: "'f term_weights"
  tp_phrases :: "profile_phrase list"

fun push_tag_profile ::
  "'f arith \<Rightarrow> capability_tag_node \<Rightarrow> string list \<Rightarrow> 'f tag_profile list \<Rightarrow> 'f tag_profile list" where
  "push_tag_profile A (CapabilityTagNode i l as children) parent_labels profiles =
     (let spaced = replace_chars ''-.'' (CHR '' '') i;
          text_parts = [spaced, l] @ as @ parent_labels;
          phrase_labels = [l, spaced] @ as;
          profile = \<lparr>tp_value = i, tp_label = l,
            tp_terms = weighted_terms A (join '' '' text_parts) (f_lit A 10 1),
            tp_phrases = build_profile_phrases phrase_labels\<rparr>
      in fold (\<lambda>child. push_tag_profile A child (parent_labels @ [l])) children (profiles @ [profile]))"

definition build_tag_profiles :: "'f arith \<Rightarrow> capability_tag_node list \<Rightarrow> 'f tag_profile list" where
  "build_tag_profiles A tree = fold (\<lambda>node. push_tag_profile A node []) tree []"

definition useful_tag_index_term :: "string \<Rightarrow> bool" where
  "useful_tag_index_term term \<longleftrightarrow> char_count term \<ge> 3"

text \<open>\<open>index.entry(term).or_default().push(i)\<close>\<close>

definition index_term ::
  "nat \<Rightarrow> string \<Rightarrow> (string \<times> nat list) list \<Rightarrow> (string \<times> nat list) list" where
  "index_term i term index =
     (if useful_tag_index_term term
      then btree_insert term ((case map_of index term of None \<Rightarrow> [] | Some is \<Rightarrow> is) @ [i]) index
      else index)"

definition build_tag_token_index :: "'f tag_profile list \<Rightarrow> (string \<times> nat list) list" where
  "build_tag_token_index profiles =
     fold (\<lambda>(i, profile) index. fold (index_term i) (keys (wt_terms (tp_terms profile))) index)
       (enumerate 0 profiles) []"

section \<open>Scores\<close>

definition weighted_jaccard :: "'f arith \<Rightarrow> 'f term_weights \<Rightarrow> 'f term_weights \<Rightarrow> 'f" where
  "weighted_jaccard A left right =
     (if wt_terms left = [] \<and> wt_terms right = [] then f_lit A 0 1
      else let (small, large) =
             (if length (wt_terms left) \<le> length (wt_terms right) then (wt_terms left, wt_terms right)
              else (wt_terms right, wt_terms left));
           intersection = fold (\<lambda>(key, small_weight) acc. f_add A acc
             (case map_of large key of
                None \<Rightarrow> f_lit A 0 1 | Some large_weight \<Rightarrow> f_min A small_weight large_weight))
             small (f_lit A 0 1);
           union_weight = f_sub A (f_add A (wt_total_weight left) (wt_total_weight right)) intersection
      in if f_eq A union_weight (f_lit A 0 1) then f_lit A 0 1
         else f_min A (f_div A intersection union_weight) (f_lit A 10 1))"

definition phrase_boost :: "'f arith \<Rightarrow> string \<Rightarrow> 'f" where
  "phrase_boost A p =
     f_add A (if list_ex is_cjk (utf8_chars p) then f_lit A 32 2 else f_lit A 26 2)
       (f_min A (f_div A (f_of_nat A (char_count p)) (f_lit A 800 1)) (f_lit A 34 2))"

definition phrase_score ::
  "'f arith \<Rightarrow> string \<Rightarrow> profile_phrase list \<Rightarrow> evidence_kind \<Rightarrow> string \<Rightarrow> evidence list
     \<Rightarrow> 'f \<times> evidence list" where
  "phrase_score A s phrases sort_of profile evidence =
     (let hits = filter (\<lambda>p. contains s (pp_normalized p)) phrases;
          score = fold (\<lambda>p score. f_max A score (phrase_boost A (pp_normalized p))) hits (f_lit A 0 1)
      in (f_min A score (f_lit A 10 1),
          evidence @ map (\<lambda>p. \<lparr>ev_kind = sort_of, ev_term = pp_original p, ev_matched_profile = profile\<rparr>) hits))"

definition top_overlapping_terms ::
  "'f::linorder arith \<Rightarrow> (string \<times> 'f) list \<Rightarrow> (string \<times> 'f) list \<Rightarrow> nat \<Rightarrow> string list" where
  "top_overlapping_terms A left right limit =
     (let scored = List.map_filter (\<lambda>(term, left_weight). map_option (\<lambda>right_weight.
            (term, f_mul A (f_min A left_weight right_weight) (f_of_nat A (char_count term))))
            (map_of right term)) left
      in take limit (map fst (sort_ranked snd fst scored)))"

definition score_profile ::
  "'f::linorder arith \<Rightarrow> 'f text_features \<Rightarrow> 'f domain_profile \<Rightarrow> 'f \<times> evidence list" where
  "score_profile A features profile =
     (let token_score = weighted_jaccard A (tf_terms features) (dp_tokens profile);
          (alias_score, ev1) =
            phrase_score A (tf_normalized features) (dp_aliases profile) Alias (dp_id profile) [];
          (keyword_score, ev2) =
            phrase_score A (tf_normalized features) (dp_keywords profile) Keyword (dp_id profile) ev1;
          ev3 = ev2 @ map (\<lambda>term. \<lparr>ev_kind = Token, ev_term = term, ev_matched_profile = dp_id profile\<rparr>)
            (top_overlapping_terms A (wt_terms (tf_terms features)) (wt_terms (dp_tokens profile)) 4);
          score = f_add A (f_add A (f_mul A (f_lit A 42 2) token_score)
            (f_mul A (f_lit A 31 2) alias_score)) (f_mul A (f_lit A 27 2) keyword_score)
      in (f_min A score (f_lit A 10 1), ev3))"

definition evidence_terms :: "evidence list \<Rightarrow> string" where
  "evidence_terms evidence = join '', '' (map ev_term (take 3 evidence))"

definition explain_domain :: "string \<Rightarrow> locale_hint \<Rightarrow> evidence list \<Rightarrow> string" where
  "explain_domain profile_id hint evidence =
     (let terms = evidence_terms evidence in
      if hint = Zh
      then (if terms = []
            then utf8 [232, 190, 147, 229, 133, 165, 229, 134, 133, 229, 174, 185, 228, 184,
              142] @ '' '' @ profile_id @ '' '' @ utf8 [230, 142, 136, 230, 157, 131, 229, 159,
              159, 231, 154, 132, 232, 175, 173, 228, 185, 137, 231, 137, 185, 229, 190, 129,
              231, 155, 184, 232, 191, 145, 227, 128, 130]
            else utf8 [232, 190, 147, 229, 133, 165, 229, 134, 133, 229, 174, 185, 229, 140,
              185, 233, 133, 141] @ '' '' @ profile_id @ '' '' @ utf8 [231, 154, 132, 229, 133,
              179, 233, 148, 174, 232, 175, 141, 230, 136, 150, 229, 136, 171, 229, 144, 141,
              239, 188, 154] @ terms @ utf8 [227, 128, 130])
      else (if terms = [] then ''The input is semantically close to '' @ profile_id @ ''.''
            else ''The input matches '' @ profile_id @ '' signals: '' @ terms @ ''.''))"

definition explain_value :: "string \<Rightarrow> locale_hint \<Rightarrow> evidence list \<Rightarrow> string" where
  "explain_value v hint evidence =
     (let terms = evidence_terms evidence in
      if hint = Zh
      then (if terms = []
            then utf8 [232, 190, 147, 229, 133, 165, 229, 134, 133, 229, 174, 185, 228, 184,
              142] @ '' '' @ v @ '' '' @ utf8 [231, 155, 184, 229, 133, 179, 227, 128, 130]
            else utf8 [232, 190, 147, 229, 133, 165, 229, 134, 133, 229, 174, 185, 229, 140,
              133, 229, 144, 171, 228, 184, 142] @ '' '' @ v @ '' '' @ utf8 [231, 155, 184, 229,
              133, 179, 231, 154, 132, 228, 191, 161, 229, 143, 183, 239, 188, 154] @ terms @
              utf8 [227, 128, 130])
      else (if terms = [] then ''The input is related to '' @ v @ ''.''
            else ''The input contains '' @ v @ '' signals: '' @ terms @ ''.''))"

section \<open>Rules\<close>

record value_rule =
  vr_value :: string
  vr_terms :: "string list"
  vr_zh_terms :: "string list"

definition resource_type_rules :: "value_rule list" where
  "resource_type_rules = [
     \<lparr>vr_value = ''skill'',
      vr_terms = [''skill'', ''capability'', ''reusable skill'', ''agent skill''],
      vr_zh_terms = [utf8 [230, 138, 128, 232, 131, 189],
        utf8 [232, 131, 189, 229, 138, 155],
        utf8 [229, 143, 175, 229, 164, 141, 231, 148, 168, 230, 138, 128, 232, 131, 189]]\<rparr>,
     \<lparr>vr_value = ''mcp_server'',
      vr_terms = [''mcp server'', ''model context protocol'', ''mcp tool''],
      vr_zh_terms = [''mcp'' @ utf8 [230, 156, 141, 229, 138, 161, 229, 153, 168],
        ''mcp server'',
        utf8 [230, 168, 161, 229, 158, 139, 228, 184, 138, 228, 184, 139, 230, 150, 135, 229, 141,
          143, 232, 174, 174]]\<rparr>,
     \<lparr>vr_value = ''agent_service'',
      vr_terms = [''agent service'', ''service agent'', ''callable agent''],
      vr_zh_terms = [utf8 [230, 153, 186, 232, 131, 189, 228, 189, 147, 230, 156, 141, 229, 138, 161],
        utf8 [230, 156, 141, 229, 138, 161, 230, 153, 186, 232, 131, 189, 228, 189, 147],
        utf8 [229, 143, 175, 232, 176, 131, 231, 148, 168, 230, 153, 186, 232, 131, 189, 228, 189,
          147]]\<rparr>,
     \<lparr>vr_value = ''tool_api'',
      vr_terms = [''api'', ''tool api'', ''openapi'', ''rest api'', ''http api''],
      vr_zh_terms = [utf8 [230, 142, 165, 229, 143, 163],
        ''api'',
        utf8 [229, 183, 165, 229, 133, 183, 230, 142, 165, 229, 143, 163]]\<rparr>]"

definition protocol_rules :: "value_rule list" where
  "protocol_rules = [
     \<lparr>vr_value = ''mcp'',
      vr_terms = [''mcp'', ''mcp server'', ''model context protocol''],
      vr_zh_terms = [''mcp'',
        utf8 [230, 168, 161, 229, 158, 139, 228, 184, 138, 228, 184, 139, 230, 150, 135, 229, 141,
          143, 232, 174, 174]]\<rparr>,
     \<lparr>vr_value = ''https'',
      vr_terms = [''https'', ''http api'', ''rest api'', ''web api'', ''openapi''],
      vr_zh_terms = [''https'',
        ''http'' @ utf8 [230, 142, 165, 229, 143, 163],
        ''rest'' @ utf8 [230, 142, 165, 229, 143, 163],
        ''openapi'']\<rparr>,
     \<lparr>vr_value = ''a2a'',
      vr_terms = [''a2a'', ''agent to agent'', ''agent communication''],
      vr_zh_terms = [utf8 [230, 153, 186, 232, 131, 189, 228, 189, 147, 233, 128, 154, 228, 191, 161],
        utf8 [230, 153, 186, 232, 131, 189, 228, 189, 147, 229, 136, 176, 230, 153, 186, 232, 131,
          189, 228, 189, 147]]\<rparr>,
     \<lparr>vr_value = ''grpc'',
      vr_terms = [''grpc'', ''rpc service''],
      vr_zh_terms = [''grpc'',
        ''rpc'' @ utf8 [230, 156, 141, 229, 138, 161]]\<rparr>]"

record 'f value_candidate =
  va_value :: string
  va_score :: 'f
  va_reason :: string
  va_evidence :: "evidence list"

fun score_rule_terms ::
  "'f arith \<Rightarrow> 'f text_features \<Rightarrow> value_rule \<Rightarrow> string list \<Rightarrow> 'f \<times> evidence list \<Rightarrow> 'f \<times> evidence list"
where
  "score_rule_terms A features rule [] (score, evidence) = (score, evidence)"
| "score_rule_terms A features rule (term # terms) (score, evidence) =
     (let normalized = normalize_text term in
      if normalized \<noteq> [] \<and> contains (tf_normalized features) normalized
      then score_rule_terms A features rule terms
        (f_max A score (f_add A (f_lit A 72 2)
           (f_min A (f_div A (f_of_nat A (char_count normalized)) (f_lit A 1000 1)) (f_lit A 18 2))),
         evidence @ [\<lparr>ev_kind = Keyword, ev_term = term, ev_matched_profile = vr_value rule\<rparr>])
      else let similarity = weighted_jaccard A (tf_terms features) (weighted_terms A term (f_lit A 10 1))
        in score_rule_terms A features rule terms
          (if f_less A (f_lit A 8 2) similarity then f_max A score (f_add A (f_lit A 35 2) similarity)
           else score, evidence))"

definition score_value_rule ::
  "'f arith \<Rightarrow> 'f text_features \<Rightarrow> value_rule \<Rightarrow> 'f value_candidate option" where
  "score_value_rule A features rule =
     (let (score, evidence) =
        score_rule_terms A features rule (vr_terms rule @ vr_zh_terms rule) (f_lit A 0 1, [])
      in if f_less A score (f_lit A 35 2) then None
         else Some \<lparr>va_value = vr_value rule, va_score = round_score A (f_min A score (f_lit A 10 1)),
                    va_reason = explain_value (vr_value rule) (tf_locale features) evidence,
                    va_evidence = evidence\<rparr>)"

definition tag_phrase_score ::
  "'f arith \<Rightarrow> 'f text_features \<Rightarrow> 'f tag_profile \<Rightarrow> 'f \<times> evidence list" where
  "tag_phrase_score A features profile =
     (let hits = filter (\<lambda>p. pp_normalized p \<noteq> [] \<and> contains (tf_normalized features) (pp_normalized p))
            (tp_phrases profile);
          score = fold (\<lambda>p score. f_max A score (f_add A (f_lit A 65 2)
            (f_min A (f_div A (f_of_nat A (char_count (pp_normalized p))) (f_lit A 1000 1)) (f_lit A 25 2))))
            hits (f_lit A 0 1)
      in (f_min A score (f_lit A 10 1),
          map (\<lambda>p. \<lparr>ev_kind = Keyword, ev_term = pp_original p, ev_matched_profile = tp_value profile\<rparr>) hits))"

definition score_tag_profile ::
  "'f::linorder arith \<Rightarrow> 'f text_features \<Rightarrow> 'f tag_profile \<Rightarrow> 'f value_candidate option" where
  "score_tag_profile A features profile =
     (let token_score = weighted_jaccard A (tf_terms features) (tp_terms profile);
          (phrase, hits) = tag_phrase_score A features profile;
          evidence = hits @ map (\<lambda>term. \<lparr>ev_kind = Token, ev_term = term, ev_matched_profile = tp_value profile\<rparr>)
            (top_overlapping_terms A (wt_terms (tf_terms features)) (wt_terms (tp_terms profile)) 3);
          score = f_min A (f_add A (f_mul A (f_lit A 48 2) phrase) (f_mul A (f_lit A 52 2) token_score))
            (f_lit A 10 1)
      in if f_less A score (f_lit A 8 2) then None
         else Some \<lparr>va_value = tp_value profile, va_score = round_score A score,
                    va_reason = explain_value (tp_label profile) (tf_locale features) evidence,
                    va_evidence = evidence\<rparr>)"

section \<open>The recommender\<close>

record 'f recommender =
  sm_taxonomy :: authorized_domain_taxonomy
  sm_capability_tag_tree :: "capability_tag_node list"
  sm_profiles :: "'f domain_profile list"
  sm_tag_profiles :: "'f tag_profile list"
  sm_tag_token_index :: "(string \<times> nat list) list"
  sm_resource_type_rules :: "value_rule list"
  sm_protocol_rules :: "value_rule list"

definition new_recommender ::
  "'f arith \<Rightarrow> authorized_domain_taxonomy \<Rightarrow> (string \<Rightarrow> profile_override option)
     \<Rightarrow> capability_tag_node list \<Rightarrow> 'f recommender" where
  "new_recommender A taxonomy overrides tree =
     (let taxonomy = flatten_domain_tree taxonomy; tag_profiles = build_tag_profiles A tree in
      \<lparr>sm_taxonomy = taxonomy, sm_capability_tag_tree = tree,
       sm_profiles = build_profiles A taxonomy overrides, sm_tag_profiles = tag_profiles,
       sm_tag_token_index = build_tag_token_index tag_profiles,
       sm_resource_type_rules = resource_type_rules, sm_protocol_rules = protocol_rules\<rparr>)"

record 'f domain_candidate =
  ca_id :: string
  ca_label :: string
  ca_score :: 'f
  ca_covered :: bool
  ca_reason :: string
  ca_evidence :: "evidence list"

record 'f scored_domain =
  sd_candidate :: "'f domain_candidate"
  sd_raw_score :: 'f

text \<open>\<open>split_once('.')\<close>: the part before the first dot.\<close>

definition parent_domain :: "string \<Rightarrow> string option" where
  "parent_domain i =
     (if CHR ''.'' \<in> set i then Some (takeWhile (\<lambda>c. c \<noteq> CHR ''.'') i) else None)"

definition suppress_parent_domains :: "'f arith \<Rightarrow> 'f scored_domain list \<Rightarrow> 'f scored_domain list" where
  "suppress_parent_domains A scored =
     (let child_ids = List.map_filter (\<lambda>s. parent_domain (ca_id (sd_candidate s))) scored in
      filter (\<lambda>s. CHR ''.'' \<in> set (ca_id (sd_candidate s))
          \<or> f_less_eq A (f_lit A 65 2) (sd_raw_score s)
          \<or> ca_id (sd_candidate s) \<notin> set child_ids) scored)"

definition score_domain ::
  "'f::linorder arith \<Rightarrow> 'f text_features \<Rightarrow> 'f domain_profile \<Rightarrow> 'f scored_domain option" where
  "score_domain A features profile =
     (let (score, evidence) = score_profile A features profile in
      if f_less A score (f_lit A 5 2) then None
      else Some \<lparr>sd_candidate = \<lparr>ca_id = dp_id profile, ca_label = dp_label profile,
                  ca_score = round_score A score, ca_covered = False,
                  ca_reason = explain_domain (dp_id profile) (tf_locale features) evidence,
                  ca_evidence = evidence\<rparr>,
                sd_raw_score = score\<rparr>)"

definition rank_domains ::
  "'f::linorder arith \<Rightarrow> 'f recommender \<Rightarrow> 'f text_features \<Rightarrow> 'f scored_domain list" where
  "rank_domains A R features =
     suppress_parent_domains A
       (sort_ranked sd_raw_score (\<lambda>s. ca_id (sd_candidate s))
         (List.map_filter (score_domain A features) (sm_profiles R)))"

definition rank_value_rules ::
  "'f::linorder arith \<Rightarrow> 'f text_features \<Rightarrow> value_rule list \<Rightarrow> nat \<Rightarrow> 'f value_candidate list" where
  "rank_value_rules A features rules limit =
     take limit (sort_ranked va_score va_value (List.map_filter (score_value_rule A features) rules))"

definition rank_resource_types ::
  "'f::linorder arith \<Rightarrow> 'f recommender \<Rightarrow> 'f text_features \<Rightarrow> resource_type option
     \<Rightarrow> 'f value_candidate list" where
  "rank_resource_types A R features current =
     (let ranked = rank_value_rules A features (sm_resource_type_rules R)
            (length (sm_resource_type_rules R));
          ranked = (case current of
            None \<Rightarrow> ranked
          | Some t \<Rightarrow>
              let v = resource_type_as_str t in
              if list_ex (\<lambda>c. va_value c = v) ranked then ranked
              else ranked @ [\<lparr>va_value = v, va_score = f_lit A 45 2,
                va_reason = ''Kept from the current resource type selection.'',
                va_evidence = [\<lparr>ev_kind = EvResourceType, ev_term = v, ev_matched_profile = v\<rparr>]\<rparr>])
      in take 4 ranked)"

definition candidate_tag_profile_indexes :: "'f recommender \<Rightarrow> 'f text_features \<Rightarrow> nat list" where
  "candidate_tag_profile_indexes R features =
     sort (remdups (concat (map (\<lambda>term.
       case map_of (sm_tag_token_index R) term of None \<Rightarrow> [] | Some is \<Rightarrow> is)
       (keys (wt_terms (tf_terms features))))))"

definition rank_tag_profiles ::
  "'f::linorder arith \<Rightarrow> 'f recommender \<Rightarrow> 'f text_features \<Rightarrow> nat \<Rightarrow> 'f value_candidate list" where
  "rank_tag_profiles A R features limit =
     take limit (sort_ranked va_score va_value
       (List.map_filter (\<lambda>i. score_tag_profile A features (sm_tag_profiles R ! i))
         (candidate_tag_profile_indexes R features)))"

section \<open>Scopes and suggestions\<close>

definition normalize_scope ::
  "authorized_domain_taxonomy \<Rightarrow> string list \<Rightarrow> string list \<times> string list" where
  "normalize_scope t scope =
     (if list_ex (\<lambda>d. d = ''*'') scope
      then ([''*''], if length scope > 1
        then [''scope contains wildcard and concrete domains; wildcard takes precedence''] else [])
      else (sort (remdups (List.map_filter (normalize_domain t) scope)),
            map (\<lambda>d. ''ignored unknown authorized domain scope: '' @ d)
              (filter (\<lambda>d. normalize_domain t d = None) scope)))"

definition domain_covered_by_scope ::
  "authorized_domain_taxonomy \<Rightarrow> string \<Rightarrow> string list \<Rightarrow> bool" where
  "domain_covered_by_scope t d scope =
     (if list_ex (\<lambda>i. i = ''*'') scope then True else covers_authorized_domains t [d] scope)"

fun split_registration_domains ::
  "authorized_domain_taxonomy \<Rightarrow> string list \<Rightarrow> nat \<Rightarrow> 'f scored_domain list
     \<Rightarrow> 'f domain_candidate list \<times> 'f domain_candidate list
     \<Rightarrow> 'f domain_candidate list \<times> 'f domain_candidate list" where
  "split_registration_domains t allowed limit [] (selectable, out_of_scope) = (selectable, out_of_scope)"
| "split_registration_domains t allowed limit (s # ss) (selectable, out_of_scope) =
     (let covered = domain_covered_by_scope t (ca_id (sd_candidate s)) allowed;
          candidate = (sd_candidate s)\<lparr>ca_covered := covered\<rparr> in
      split_registration_domains t allowed limit ss
        (if covered
         then (if length selectable < limit then selectable @ [candidate] else selectable, out_of_scope)
         else (selectable, if length out_of_scope < 4 then out_of_scope @ [candidate] else out_of_scope)))"

record registration_suggestion_input =
  ri_resource_type :: "resource_type option"
  ri_name :: string
  ri_description :: string
  ri_endpoint :: "string option"
  ri_manifest_text :: "string option"
  ri_schema_text :: "string option"
  ri_locale :: "string option"

definition registration_text :: "registration_suggestion_input \<Rightarrow> string + string" where
  "registration_text i =
     (if is_blank (ri_name i) \<and> is_blank (ri_description i)
      then Inl ''name or description is required''
      else let opt = (\<lambda>m. case m of None \<Rightarrow> [] | Some s \<Rightarrow> [s]) in
        Inr (join '' '' ([ri_name i, ri_description i] @ opt (ri_endpoint i)
          @ opt (ri_manifest_text i) @ opt (ri_schema_text i))))"

record suggestion_context =
  sx_did :: string
  sx_domains :: "string list"
  sx_max_domains :: nat
  sx_max_tags :: nat

record 'f registration_suggestion =
  rg_authorized_domains :: "'f domain_candidate list"
  rg_out_of_scope_domain_hints :: "'f domain_candidate list"
  rg_capability_tags :: "'f value_candidate list"
  rg_resource_type_hints :: "'f value_candidate list"
  rg_protocol_hints :: "'f value_candidate list"
  rg_warnings :: "string list"

definition suggest_registration_metadata ::
  "'f::linorder arith \<Rightarrow> 'f recommender \<Rightarrow> registration_suggestion_input \<Rightarrow> suggestion_context
     \<Rightarrow> string + 'f registration_suggestion" where
  "suggest_registration_metadata A R i x =
     rbind (registration_text i) (\<lambda>s.
     let features = extract_features A s (ri_locale i);
         (allowed, scope_warnings) = normalize_scope (sm_taxonomy R) (sx_domains x);
         (authorized, hints) = split_registration_domains (sm_taxonomy R) allowed (sx_max_domains x)
           (rank_domains A R features) ([], [])
     in Inr \<lparr>rg_authorized_domains = authorized, rg_out_of_scope_domain_hints = hints,
             rg_capability_tags = rank_tag_profiles A R features (sx_max_tags x),
             rg_resource_type_hints = rank_resource_types A R features (ri_resource_type i),
             rg_protocol_hints = rank_value_rules A features (sm_protocol_rules R) 4,
             rg_warnings = scope_warnings\<rparr>)"

record discovery_suggestion_input =
  di_query :: string
  di_current_resource_type :: "resource_type option"
  di_current_protocol :: "string option"
  di_current_capability_tags :: "string list"
  di_locale :: "string option"

record 'f discovery_suggestion =
  ds_query_rewrite :: "string option"
  ds_capability_tags :: "'f value_candidate list"
  ds_resource_types :: "'f value_candidate list"
  ds_protocols :: "'f value_candidate list"
  ds_authorized_domain_hints :: "'f domain_candidate list"
  ds_warnings :: "string list"

definition suggest_discovery_query ::
  "'f::linorder arith \<Rightarrow> 'f recommender \<Rightarrow> discovery_suggestion_input \<Rightarrow> suggestion_context
     \<Rightarrow> string + 'f discovery_suggestion" where
  "suggest_discovery_query A R i x =
     (let query = trim (di_query i) in
      if char_count query < 3 then Inl ''query must contain at least three characters''
      else let features = extract_features A query (di_locale i);
               (scope, scope_warnings) = normalize_scope (sm_taxonomy R) (sx_domains x);
               covered = (\<lambda>s. domain_covered_by_scope (sm_taxonomy R) (ca_id (sd_candidate s)) scope)
           in Inr \<lparr>ds_query_rewrite = None,
                   ds_capability_tags = rank_tag_profiles A R features (sx_max_tags x),
                   ds_resource_types = rank_resource_types A R features (di_current_resource_type i),
                   ds_protocols = rank_value_rules A features (sm_protocol_rules R) 4,
                   ds_authorized_domain_hints = take (sx_max_domains x)
                     (map (\<lambda>s. (sd_candidate s)\<lparr>ca_covered := True\<rparr>)
                       (filter covered (rank_domains A R features))),
                   ds_warnings = scope_warnings\<rparr>)"

end
