(* ===== verification/Suggestions.thy ===== *)
theory Suggestions
  imports Recommender
begin

text \<open>
  Properties of the recommender: normalised text is stable, the token index finds exactly the
  profiles that share a term with the request, and suggestions respect scope and limits.
\<close>

section \<open>Normalised text\<close>

text \<open>
  A character of normalised text is a lower-case letter, a digit, a CJK character or a space; a text
  is clean when it is a sequence of such characters.
\<close>

definition clean_char :: "string \<Rightarrow> bool" where
  "clean_char c \<longleftrightarrow> c = '' '' \<or> is_cjk c
     \<or> (\<exists>b. c = [b] \<and> is_ascii_alphanumeric b \<and> to_lower b = b)"

definition clean :: "string \<Rightarrow> bool" where
  "clean s \<longleftrightarrow> (\<exists>cs. s = concat cs \<and> list_all clean_char cs)"

lemma is_cjkE:
  assumes "is_cjk c"
  obtains a b d where "c = [a, b, d]" and "224 \<le> byte a" and "byte a < 240" and "128 \<le> byte b"
    and "128 \<le> byte d"
  using assms by (auto simp: is_cjk_def split: list.splits)

lemma cjk_bytes: "is_cjk c \<Longrightarrow> x \<in> set c \<Longrightarrow> 128 \<le> byte x"
  by (elim is_cjkE) auto

lemma cjk_length: "is_cjk c \<Longrightarrow> length c = 3"
  by (elim is_cjkE) simp

lemma normalize_char_cases: "clean_char (normalize_char c)"
proof (cases "list_all is_ascii_alphanumeric c \<and> length c = 1")
  case True
  then obtain b where c: "c = [b]" "is_ascii_alphanumeric b" by (auto simp: length_Suc_conv)
  have "is_ascii_alphanumeric (to_lower b)" "to_lower (to_lower b) = to_lower b"
    using c(2) by (auto simp: is_ascii_alphanumeric_def to_lower_def)
  with c show ?thesis by (simp add: normalize_char_def clean_char_def)
qed (auto simp: normalize_char_def clean_char_def)

lemma normalize_clean_char: "clean_char c \<Longrightarrow> c \<noteq> '' '' \<Longrightarrow> normalize_char c = c"
  by (auto simp: clean_char_def normalize_char_def dest: cjk_length)

lemma normalize_space [simp]: "normalize_char '' '' = '' ''" "normalize_char ''-'' = '' ''"
  by (simp_all add: normalize_char_def is_ascii_alphanumeric_def is_cjk_def)

lemma clean_char_length:
  assumes "clean_char c"
  shows "c \<noteq> [] \<and> length c = utf8_len (hd c)"
  using assms unfolding clean_char_def
  by (auto elim!: is_cjkE simp: utf8_len.simps is_ascii_alphanumeric_def)

lemma utf8_chars_concat:
  "(\<And>c. c \<in> set cs \<Longrightarrow> c \<noteq> [] \<and> length c = utf8_len (hd c)) \<Longrightarrow> utf8_chars (concat cs) = cs"
proof (induction cs)
  case (Cons c cs)
  obtain x xs where c: "c = x # xs" using Cons.prems [of c] by (cases c) auto
  with Cons.prems [of c] have len: "utf8_len x = length (x # xs)" by simp
  have "utf8_chars (concat cs) = cs" using Cons by auto
  then show ?case using len by (simp add: c)
qed simp

lemma clean_no_colon:
  assumes "clean s"
  shows "CHR '':'' \<notin> set s"
proof -
  have "byte (CHR '':'') = (58 :: nat)" by simp
  then have "CHR '':'' \<notin> set c" if "clean_char c" for c
    using that cjk_bytes [of c "CHR '':''"]
    by (auto simp: clean_char_def is_ascii_alphanumeric_def)
  then show ?thesis using assms by (auto simp: clean_def list_all_iff)
qed

lemma replace_urls_id: "CHR '':'' \<notin> set s \<Longrightarrow> replace_urls s = s"
proof (induction s)
  case Nil
  show ?case by (subst replace_urls.simps) (simp add: url_match_def)
next
  case (Cons c s)
  have "url_match (c # s) = None"
    using Cons.prems by (auto simp: url_match_def strip_prefix_Some_iff split: option.splits)
  then show ?case using Cons by (subst replace_urls.simps) simp
qed

lemma clean_append [intro]: "clean s \<Longrightarrow> clean t \<Longrightarrow> clean (s @ t)"
  unfolding clean_def by (metis concat_append list_all_append)

lemma clean_Nil [simp]: "clean []"
  unfolding clean_def by (rule exI [of _ "[]"]) simp

lemma clean_single: "clean_char c \<Longrightarrow> clean c"
  unfolding clean_def by (rule exI [of _ "[c]"]) simp

lemma clean_space [simp]: "clean '' ''"
  by (simp add: clean_single clean_char_def)

text \<open>The words of a clean text are clean, and so is what they are joined to.\<close>

lemma split_on_append_no_sep:
  "c \<notin> set a \<Longrightarrow> split_on c (a @ s) = (a @ hd (split_on c s)) # tl (split_on c s)"
  by (induction a) (auto split: list.split)

lemma clean_char_no_space: "clean_char c \<Longrightarrow> c \<noteq> '' '' \<Longrightarrow> CHR '' '' \<notin> set c"
  using cjk_bytes [of c "CHR '' ''"] by (auto simp: clean_char_def is_ascii_alphanumeric_def)

lemma clean_parts: "list_all clean_char cs \<Longrightarrow> list_all clean (split_on (CHR '' '') (concat cs))"
proof (induction cs)
  case (Cons c cs)
  obtain y ys where y: "split_on (CHR '' '') (concat cs) = y # ys"
    using split_on_nonempty [of "CHR '' ''" "concat cs"] by (cases "split_on (CHR '' '') (concat cs)") auto
  show ?case
  proof (cases "c = '' ''")
    case False
    then have "split_on (CHR '' '') (concat (c # cs)) = (c @ y) # ys"
      using Cons.prems y by (simp add: split_on_append_no_sep clean_char_no_space)
    then show ?thesis using Cons y clean_single [of c] by (simp add: clean_append)
  qed (use Cons in simp)
qed simp

lemma clean_space_Cons: "clean s \<Longrightarrow> clean (CHR '' '' # s)"
  using clean_append [OF clean_space] by simp

lemma clean_join: "list_all clean ws \<Longrightarrow> clean (join '' '' ws)"
  by (induction "'' ''" ws rule: join.induct) (auto intro!: clean_append clean_space_Cons)

lemma clean_normalize_text: "clean (normalize_text s)"
proof -
  have "list_all clean (split_on (CHR '' '') (concat (map normalize_char (utf8_chars (replace_urls s)))))"
    by (rule clean_parts) (auto simp: list_all_iff normalize_char_cases)
  then show ?thesis
    unfolding normalize_text_def split_words_def by (intro clean_join) (auto simp: list_all_iff)
qed

text \<open>Joining words and splitting them again.\<close>

lemma split_on_join:
  "ws \<noteq> [] \<Longrightarrow> (\<And>w. w \<in> set ws \<Longrightarrow> c \<notin> set w) \<Longrightarrow> split_on c (join [c] ws) = ws"
proof (induction "[c]" ws rule: join.induct)
  case (3 x y ys)
  then show ?case by (simp add: split_on_append_sep)
qed (auto simp: split_on_no_sep)

lemma split_words_join:
  assumes "\<And>w. w \<in> set ws \<Longrightarrow> w \<noteq> [] \<and> CHR '' '' \<notin> set w"
  shows "split_words (join '' '' ws) = ws"
proof (cases "ws = []")
  case False
  then have "split_on (CHR '' '') (join '' '' ws) = ws" using assms by (intro split_on_join) auto
  then show ?thesis using assms by (auto simp: split_words_def filter_id_conv)
qed (simp add: split_words_def)

lemma split_words_parts: "w \<in> set (split_words s) \<Longrightarrow> w \<noteq> [] \<and> CHR '' '' \<notin> set w"
  using split_on_parts by (fastforce simp: split_words_def)

text \<open>Spaces may be written as hyphens: both read as a space again.\<close>

lemma normalize_hyphenated:
  assumes "clean s" and "h \<in> {CHR '' '', CHR ''-''}"
  shows "concat (map normalize_char (utf8_chars (replace_urls (replace_char (CHR '' '') h s)))) = s"
proof -
  obtain cs where cs: "s = concat cs" "list_all clean_char cs" using assms(1) by (auto simp: clean_def)
  let ?f = "\<lambda>c. if c = '' '' then [h] else c"
  have one: "replace_char (CHR '' '') h c = ?f c" if "c \<in> set cs" for c
  proof (cases "c = '' ''")
    case False
    then have "CHR '' '' \<notin> set c" using cs(2) that clean_char_no_space by (auto simp: list_all_iff)
    then show ?thesis using False by (auto simp: replace_char_def intro: map_idI)
  qed (simp add: replace_char_def)
  have "replace_char (CHR '' '') h (concat cs) = concat (map (replace_char (CHR '' '') h) cs)"
    by (simp add: replace_char_def [abs_def] map_concat)
  also have "map (replace_char (CHR '' '') h) cs = map ?f cs"
    by (rule map_cong [OF refl one])
  finally have same: "replace_char (CHR '' '') h s = concat (map ?f cs)" by (simp add: cs(1))
  have "CHR '':'' \<notin> set (replace_char (CHR '' '') h s)"
    using clean_no_colon [OF assms(1)] assms(2) by (auto simp: replace_char_def)
  then have urls: "replace_urls (replace_char (CHR '' '') h s) = concat (map ?f cs)"
    using same by (simp add: replace_urls_id)
  have "utf8_chars (concat (map ?f cs)) = map ?f cs"
    by (rule utf8_chars_concat)
      (use cs(2) assms(2) clean_char_length in \<open>auto simp: list_all_iff utf8_len.simps\<close>)
  moreover have "normalize_char (?f c) = c" if "c \<in> set cs" for c
    using that cs(2) assms(2) normalize_clean_char by (auto simp: list_all_iff)
  ultimately show ?thesis unfolding urls by (simp add: cs(1) map_idI)
qed

lemma normalize_text_words:
  obtains ws where "normalize_text s = join '' '' ws" and "\<And>w. w \<in> set ws \<Longrightarrow> w \<noteq> [] \<and> CHR '' '' \<notin> set w"
  by (rule that [OF normalize_text_def [of s] split_words_parts])

lemma normalize_again:
  assumes "h \<in> {CHR '' '', CHR ''-''}"
  shows "normalize_text (replace_char (CHR '' '') h (normalize_text s)) = normalize_text s"
proof -
  obtain ws where ws: "normalize_text s = join '' '' ws"
    "\<And>w. w \<in> set ws \<Longrightarrow> w \<noteq> [] \<and> CHR '' '' \<notin> set w"
    using normalize_text_words [of s] by blast
  have "split_words (normalize_text s) = ws" unfolding ws(1) by (rule split_words_join [OF ws(2)])
  then show ?thesis
    using normalize_hyphenated [OF clean_normalize_text assms, of s] ws(1)
    by (simp add: normalize_text_def [of "replace_char _ _ _"])
qed

text \<open>
  Normalisation is stable: normalising a normalised text changes nothing, and normalising capability
  tags again returns the same tags, in the same order.
\<close>

theorem normalization_idempotent:
  "normalize_text (normalize_text s) = normalize_text s
   \<and> normalize_capability_tags (normalize_capability_tags tags) = normalize_capability_tags tags"
proof -
  let ?tag = "\<lambda>tag. replace_char (CHR '' '') (CHR ''-'') (normalize_text tag)"
  have id: "replace_char (CHR '' '') (CHR '' '') v = v" for v
    by (simp add: replace_char_def map_idI)
  have tag: "?tag (?tag v) = ?tag v" for v
    using normalize_again [of "CHR ''-''" v] by simp
  have "filter (\<lambda>v. v \<noteq> []) (map ?tag (normalize_capability_tags tags)) = normalize_capability_tags tags"
    unfolding normalize_capability_tags_def
    by (subst map_idI, use tag in fastforce) (auto simp: filter_id_conv)
  then have "normalize_capability_tags (normalize_capability_tags tags)
      = sort (remdups (normalize_capability_tags tags))"
    by (simp add: normalize_capability_tags_def [of "normalize_capability_tags tags"])
  also have "\<dots> = normalize_capability_tags tags"
    by (simp add: normalize_capability_tags_def distinct_remdups_id sort_key_id_if_sorted)
  finally show ?thesis using normalize_again [of "CHR '' ''" s] by (simp add: id)
qed

section \<open>The token index\<close>

definition indexed :: "(string \<times> nat list) list \<Rightarrow> string \<Rightarrow> nat set" where
  "indexed index term = (case map_of index term of None \<Rightarrow> {} | Some is \<Rightarrow> set is)"

lemma indexed_set: "set (case map_of index term of None \<Rightarrow> [] | Some is \<Rightarrow> is) = indexed index term"
  by (simp add: indexed_def split: option.split)

lemma sorted_index_term:
  "sorted_wrt (<) (keys index) \<Longrightarrow> sorted_wrt (<) (keys (index_term i term index))"
  by (simp add: index_term_def sorted_btree_insert)

lemma indexed_index_term:
  "sorted_wrt (<) (keys index) \<Longrightarrow> indexed (index_term i term index) t
     = indexed index t \<union> (if t = term \<and> useful_tag_index_term term then {i} else {})"
  by (auto simp: index_term_def indexed_def map_of_btree_insert split: option.splits)

lemma index_profile:
  "sorted_wrt (<) (keys index) \<Longrightarrow> sorted_wrt (<) (keys (fold (index_term i) terms index))
     \<and> indexed (fold (index_term i) terms index) t
       = indexed index t \<union> (if t \<in> set terms \<and> useful_tag_index_term t then {i} else {})"
  by (induction terms arbitrary: index) (auto simp: sorted_index_term indexed_index_term)

lemma index_profiles:
  "sorted_wrt (<) (keys index) \<Longrightarrow>
     indexed (fold (\<lambda>(i, p). fold (index_term i) (keys (wt_terms (tp_terms p)))) ips index) t
       = indexed index t \<union> (if useful_tag_index_term t
           then {i. \<exists>p. (i, p) \<in> set ips \<and> t \<in> set (keys (wt_terms (tp_terms p)))} else {})"
proof (induction ips arbitrary: index)
  case (Cons ip ips)
  obtain i p where ip: "ip = (i, p)" by force
  note step = index_profile [OF Cons.prems, of i "keys (wt_terms (tp_terms p))"]
  show ?case using Cons.IH [OF step [THEN conjunct1]] step by (auto simp: ip)
qed auto

lemma indexed_tag_tokens:
  "indexed (build_tag_token_index ps) t = (if useful_tag_index_term t
     then {i. i < length ps \<and> t \<in> set (keys (wt_terms (tp_terms (ps ! i))))} else {})"
proof -
  have "(i, p) \<in> set (enumerate 0 ps) \<longleftrightarrow> i < length ps \<and> p = ps ! i" for i p
    by (auto simp: in_set_enumerate_eq)
  then show ?thesis
    using index_profiles [of "[]" "enumerate 0 ps" t]
    by (auto simp: build_tag_token_index_def indexed_def)
qed

text \<open>
  C38. The index is exact: the profiles that it gives for a request are, in order and each once, those
  that share a term of at least three characters with it, so ranking through the index is ranking
  over these profiles of the whole tree.
\<close>

theorem token_index_exact:
  "candidate_tag_profile_indexes (new_recommender A t overrides tree) features
     = filter (\<lambda>i. \<exists>term \<in> set (keys (wt_terms (tf_terms features))). useful_tag_index_term term
           \<and> term \<in> set (keys (wt_terms (tp_terms (build_tag_profiles A tree ! i)))))
         [0 ..< length (build_tag_profiles A tree)]"
proof -
  let ?R = "new_recommender A t overrides tree" and ?ps = "build_tag_profiles A tree"
  have "set (candidate_tag_profile_indexes ?R features)
      = (\<Union>term \<in> set (keys (wt_terms (tf_terms features))). indexed (build_tag_token_index ?ps) term)"
    by (simp add: candidate_tag_profile_indexes_def new_recommender_def Let_def indexed_set)
  also have "\<dots> = {i. i < length ?ps \<and> (\<exists>term \<in> set (keys (wt_terms (tf_terms features))).
      useful_tag_index_term term \<and> term \<in> set (keys (wt_terms (tp_terms (?ps ! i)))))}"
    unfolding indexed_tag_tokens by (auto split: if_split_asm)
  finally have "set (candidate_tag_profile_indexes ?R features) = set (filter (\<lambda>i.
      \<exists>term \<in> set (keys (wt_terms (tf_terms features))). useful_tag_index_term term
        \<and> term \<in> set (keys (wt_terms (tp_terms (?ps ! i))))) [0 ..< length ?ps])"
    by auto
  then show ?thesis
    by (intro sorted_distinct_set_unique)
      (simp_all add: candidate_tag_profile_indexes_def sorted_wrt_filter)
qed

section \<open>Scopes\<close>

definition marked :: "bool \<Rightarrow> 'f scored_domain \<Rightarrow> 'f domain_candidate" where
  "marked covered s = (sd_candidate s)\<lparr>ca_covered := covered\<rparr>"

lemma split_registration_domains_eq:
  assumes "length sel \<le> limit" and "length out \<le> 4"
  shows "split_registration_domains t allowed limit ss (sel, out) =
    (sel @ take (limit - length sel) (map (marked True)
       (filter (\<lambda>s. domain_covered_by_scope t (ca_id (sd_candidate s)) allowed) ss)),
     out @ take (4 - length out) (map (marked False)
       (filter (\<lambda>s. \<not> domain_covered_by_scope t (ca_id (sd_candidate s)) allowed) ss)))"
  using assms
proof (induction ss arbitrary: sel out)
  case (Cons s ss)
  show ?case
  proof (cases "domain_covered_by_scope t (ca_id (sd_candidate s)) allowed")
    case True
    then show ?thesis
      using Cons.IH [of "sel @ [marked True s]" out] Cons.IH [of sel out] Cons.prems
      by (cases "length sel < limit") (auto simp: Let_def marked_def Suc_diff_Suc [symmetric] take_Suc_Cons)
  next
    case False
    then show ?thesis
      using Cons.IH [of sel "out @ [marked False s]"] Cons.IH [of sel out] Cons.prems
      by (cases "length out < 4") (auto simp: Let_def marked_def Suc_diff_Suc [symmetric] take_Suc_Cons)
  qed
qed simp

text \<open>
  C39. Registration suggestions respect the registrar: the authorised domains are the best ranked ones
  that its scope covers, as many as the context asks for, each marked as covered; what is hinted at
  as out of scope are at most four of the others, marked as not covered; and no domain is in both.
\<close>

theorem registration_suggestions_in_scope:
  assumes "suggest_registration_metadata A R i x = Inr g" and "registration_text i = Inr s"
  shows "let ranked = rank_domains A R (extract_features A s (ri_locale i));
      covered = (\<lambda>d. domain_covered_by_scope (sm_taxonomy R) d
        (fst (normalize_scope (sm_taxonomy R) (sx_domains x)))) in
    rg_authorized_domains g = take (sx_max_domains x)
      (map (marked True) (filter (\<lambda>s. covered (ca_id (sd_candidate s))) ranked))
    \<and> rg_out_of_scope_domain_hints g = take 4
      (map (marked False) (filter (\<lambda>s. \<not> covered (ca_id (sd_candidate s))) ranked))
    \<and> ca_id ` set (rg_authorized_domains g) \<inter> ca_id ` set (rg_out_of_scope_domain_hints g) = {}"
proof -
  define ranked where "ranked = rank_domains A R (extract_features A s (ri_locale i))"
  define covered where "covered d = domain_covered_by_scope (sm_taxonomy R) d
    (fst (normalize_scope (sm_taxonomy R) (sx_domains x)))" for d
  have eqs: "rg_authorized_domains g = take (sx_max_domains x)
      (map (marked True) (filter (\<lambda>s. covered (ca_id (sd_candidate s))) ranked))"
    "rg_out_of_scope_domain_hints g = take 4
      (map (marked False) (filter (\<lambda>s. \<not> covered (ca_id (sd_candidate s))) ranked))"
    using assms(1,2) split_registration_domains_eq [of "[]" "sx_max_domains x" "[]" "sm_taxonomy R"
        "fst (normalize_scope (sm_taxonomy R) (sx_domains x))" ranked]
    by (auto simp: suggest_registration_metadata_def ranked_def covered_def Let_def split_beta)
  have c1: "covered (ca_id c)" if "c \<in> set (rg_authorized_domains g)" for c
    using that unfolding eqs by (auto simp: marked_def dest!: in_set_takeD)
  have c2: "\<not> covered (ca_id c)" if "c \<in> set (rg_out_of_scope_domain_hints g)" for c
    using that unfolding eqs by (auto simp: marked_def dest!: in_set_takeD)
  have "ca_id ` set (rg_authorized_domains g) \<inter> ca_id ` set (rg_out_of_scope_domain_hints g) = {}"
  proof (rule equals0I, elim IntE imageE)
    fix e c d
    assume "e = ca_id c" "c \<in> set (rg_authorized_domains g)" "e = ca_id d" "d \<in> set (rg_out_of_scope_domain_hints g)"
    then show False using c1 [of c] c2 [of d] by simp
  qed
  with eqs show ?thesis unfolding Let_def covered_def ranked_def by (intro conjI)
qed

text \<open>Thousandths as an instance of the arithmetic.\<close>

definition demo_arith :: "int arith" where
  "demo_arith = \<lparr>f_lit = (\<lambda>n k. n * 1000 div 10 ^ k), f_of_nat = (\<lambda>n. 1000 * int n), f_add = (+),
     f_sub = (-), f_mul = (\<lambda>a b. a * b div 1000), f_div = (\<lambda>a b. a * 1000 div b), f_min = min,
     f_max = max, f_round = (\<lambda>a. 1000 * ((a + 500) div 1000)), f_sum = sum_list, f_eq = (=),
     f_less = (<), f_less_eq = (\<le>)\<rparr>"

definition demo_recommender :: "int recommender" where
  "demo_recommender = new_recommender demo_arith demo_taxonomy (\<lambda>_. None) []"

definition demo_registration :: registration_suggestion_input where
  "demo_registration = \<lparr>ri_resource_type = None, ri_name = ''law'', ri_description = [], ri_endpoint = None,
     ri_manifest_text = None, ri_schema_text = None, ri_locale = Some ''en''\<rparr>"

definition demo_context :: suggestion_context where
  "demo_context = \<lparr>sx_did = ''did:oan:r'', sx_domains = [''*''], sx_max_domains = 1, sx_max_tags = 1\<rparr>"

theorem registration_suggestions_in_scope_witness:
  "\<exists>g. suggest_registration_metadata demo_arith demo_recommender demo_registration demo_context = Inr g
     \<and> length (rg_authorized_domains g) \<le> 1
     \<and> (\<forall>c \<in> set (rg_authorized_domains g). ca_covered c)"
proof -
  have s: "registration_text demo_registration = Inr ''law ''" by code_simp
  obtain g where g: "suggest_registration_metadata demo_arith demo_recommender demo_registration demo_context
      = Inr g"
    by (simp add: suggest_registration_metadata_def s Let_def split_beta)
  have "sx_max_domains demo_context = 1" by (simp add: demo_context_def)
  then show ?thesis
    using g registration_suggestions_in_scope [OF g s] unfolding Let_def
    by (auto simp: marked_def dest!: in_set_takeD)
qed

end
