(* ===== verification/Package.thy ===== *)
theory Package
  imports Crypto Decode
begin

text \<open>
  The package crate \<open>crates/oan-package\<close>: resource packages, their hashes, the consistency
  checks between package, metadata and DID Document, and the binding to the root's claims.
\<close>

datatype package_error =
  PackageCrypto crypto_error
| DidDocumentHashMismatch
| MetadataHashMismatch
| PackageHashMismatch
| RootProofClaimMismatch
| PackageResourceTypeMismatch

record resource_metadata =
  rm_resource_did :: string
  rm_resource_type :: resource_type
  rm_subject_type :: subject_type
  rm_publisher_did :: "string option"
  rm_subject_did :: "string option"
  rm_name :: string
  rm_description :: string
  rm_capability_tags :: "string list"
  rm_authorized_domains :: "string list"
  rm_protocol_bindings :: "json list"
  rm_services :: "service_endpoint list"
  rm_lifecycle_state :: string
  rm_package_version :: string
  rm_package_hash :: string
  rm_metadata_hash :: string
  rm_hash_algorithm :: string
  rm_updated_at :: datetime

record root_proof =
  rp_root_did :: string
  rp_bulletin_event_hash :: "string option"
  rp_signature :: "string option"
  rp_package_claims :: "json option"
  rp_proof :: "data_integrity_proof option"
  rp_crypto_suite :: "crypto_suite option"
  rp_hash_algorithm :: "string option"

record resource_package_claims =
  cl_resource_did :: string
  cl_resource_type :: resource_type
  cl_version :: string
  cl_did_document_hash :: string
  cl_metadata_hash :: string
  cl_package_hash :: string
  cl_hash_algorithm :: string
  cl_lifecycle_state :: string
  cl_authorized_domains :: "string list"
  cl_bulletin_ref :: "string option"

record resource_package =
  pk_package_version :: string
  pk_resource_did :: string
  pk_resource_type :: resource_type
  pk_did_document :: did_document
  pk_did_document_raw :: "json option"
  pk_did_document_hash :: string
  pk_metadata_hash :: string
  pk_package_hash :: string
  pk_hash_algorithm :: string
  pk_metadata :: resource_metadata
  pk_root_proof :: root_proof
  pk_created_at :: datetime

section \<open>Serialisation\<close>

definition resource_metadata_json :: "externs \<Rightarrow> resource_metadata \<Rightarrow> json option" where
  "resource_metadata_json X m = map_option (\<lambda>subject. json_object
     ([(''resourceDid'', JString (rm_resource_did m)),
       (''resourceType'', resource_type_json (rm_resource_type m)),
       (''subjectType'', JString subject)]
      @ opt_field ''publisherDid'' JString (rm_publisher_did m)
      @ opt_field ''subjectDid'' JString (rm_subject_did m)
      @ [(''name'', JString (rm_name m)), (''description'', JString (rm_description m)),
         (''capabilityTags'', json_strings (rm_capability_tags m)),
         (''authorizedDomains'', json_strings (rm_authorized_domains m)),
         (''protocolBindings'', JArray (rm_protocol_bindings m)),
         (''services'', JArray (map service_json (rm_services m))),
         (''lifecycleState'', JString (rm_lifecycle_state m)),
         (''packageVersion'', JString (rm_package_version m)),
         (''packageHash'', JString (rm_package_hash m)),
         (''metadataHash'', JString (rm_metadata_hash m)),
         (''hashAlgorithm'', JString (rm_hash_algorithm m)),
         (''updatedAt'', JString (time_text X (rm_updated_at m)))]))
     (subject_type_text (rm_subject_type m))"

definition claims_json :: "resource_package_claims \<Rightarrow> json" where
  "claims_json c = json_object
     ([(''resourceDid'', JString (cl_resource_did c)),
       (''resourceType'', resource_type_json (cl_resource_type c)),
       (''version'', JString (cl_version c)),
       (''didDocumentHash'', JString (cl_did_document_hash c)),
       (''metadataHash'', JString (cl_metadata_hash c)),
       (''packageHash'', JString (cl_package_hash c)),
       (''hashAlgorithm'', JString (cl_hash_algorithm c)),
       (''lifecycleState'', JString (cl_lifecycle_state c)),
       (''authorizedDomains'', json_strings (cl_authorized_domains c))]
      @ opt_field ''bulletinRef'' JString (cl_bulletin_ref c))"

text \<open>\<open>serde_json::from_value::<ResourcePackageClaims>\<close>\<close>

definition parse_claims :: "json \<Rightarrow> resource_package_claims option" where
  "parse_claims v =
     (case struct_fields (map required [''resourceDid'', ''resourceType'', ''version'',
             ''didDocumentHash'', ''metadataHash'', ''packageHash'', ''hashAlgorithm'', ''lifecycleState'']
             @ [with_default ''authorizedDomains'' (JArray []), optional ''bulletinRef'']) v of
        Some [did, type, version, dhash, mhash, phash, alg, state, domains, bref] \<Rightarrow>
          Option.bind (json_as_str did) (\<lambda>did. Option.bind (parse_resource_type type) (\<lambda>type.
          Option.bind (json_as_str version) (\<lambda>version. Option.bind (json_as_str dhash) (\<lambda>dhash.
          Option.bind (json_as_str mhash) (\<lambda>mhash. Option.bind (json_as_str phash) (\<lambda>phash.
          Option.bind (json_as_str alg) (\<lambda>alg. Option.bind (json_as_str state) (\<lambda>state.
          Option.bind (parse_strings domains) (\<lambda>domains.
          Option.bind (parse_option json_as_str bref) (\<lambda>bref.
          Some \<lparr>cl_resource_did = did, cl_resource_type = type, cl_version = version,
                cl_did_document_hash = dhash, cl_metadata_hash = mhash, cl_package_hash = phash,
                cl_hash_algorithm = alg, cl_lifecycle_state = state, cl_authorized_domains = domains,
                cl_bulletin_ref = bref\<rparr>))))))))))
      | _ \<Rightarrow> None)"

section \<open>The checks\<close>

definition hash_matches :: "string \<Rightarrow> string \<Rightarrow> string \<Rightarrow> bool" where
  "hash_matches expected algorithm actual \<longleftrightarrow>
     expected = actual \<or> expected = algorithm @ '':'' @ actual"

definition hash_resource_metadata_with_suite ::
  "externs \<Rightarrow> crypto_suite \<Rightarrow> resource_metadata \<Rightarrow> crypto_error + string" where
  "hash_resource_metadata_with_suite X suite m =
     hash_json_with_suite X suite
       (resource_metadata_json X (m\<lparr>rm_metadata_hash := [], rm_package_hash := []\<rparr>))"

definition effective_crypto_suite :: "resource_package \<Rightarrow> crypto_suite" where
  "effective_crypto_suite p =
     (case rp_crypto_suite (pk_root_proof p) of
        Some suite \<Rightarrow> suite
      | None \<Rightarrow> (case Option.bind (rp_proof (pk_root_proof p)) pf_suite of
          Some suite \<Rightarrow> suite
        | None \<Rightarrow> Ed25519Sha256))"

definition verify_did_document_hash :: "externs \<Rightarrow> resource_package \<Rightarrow> package_error + unit" where
  "verify_did_document_hash X p =
     rbind (map_err PackageCrypto (hash_json_with_suite X (effective_crypto_suite p)
              (did_document_json X (pk_did_document p)))) (\<lambda>actual_hash.
     if hash_matches (pk_did_document_hash p) (pk_hash_algorithm p) actual_hash then Inr ()
     else Inl DidDocumentHashMismatch)"

definition verify_metadata_hash :: "externs \<Rightarrow> resource_package \<Rightarrow> package_error + unit" where
  "verify_metadata_hash X p =
     rbind (map_err PackageCrypto (hash_resource_metadata_with_suite X (effective_crypto_suite p)
              (pk_metadata p))) (\<lambda>actual_hash.
     if hash_matches (pk_metadata_hash p) (pk_hash_algorithm p) actual_hash then Inr ()
     else Inl MetadataHashMismatch)"

definition package_core_json :: "resource_package \<Rightarrow> json" where
  "package_core_json p = json_object
     [(''packageVersion'', JString (pk_package_version p)),
      (''resourceDid'', JString (pk_resource_did p)),
      (''resourceType'', resource_type_json (pk_resource_type p)),
      (''didDocumentHash'', JString (pk_did_document_hash p)),
      (''metadataHash'', JString (pk_metadata_hash p)),
      (''hashAlgorithm'', JString (pk_hash_algorithm p))]"

definition verify_package_hash :: "externs \<Rightarrow> resource_package \<Rightarrow> package_error + unit" where
  "verify_package_hash X p =
     rbind (map_err PackageCrypto (hash_json_with_suite X (effective_crypto_suite p)
              (Some (package_core_json p)))) (\<lambda>actual_hash.
     if hash_matches (pk_package_hash p) (pk_hash_algorithm p) actual_hash then Inr ()
     else Inl PackageHashMismatch)"

definition resource_type_matches_subject :: "resource_type \<Rightarrow> subject_type \<Rightarrow> bool" where
  "resource_type_matches_subject resource subject \<longleftrightarrow>
     List.member
       [(RAgentInstance, SAgentInstance), (RAgentProduct, SAgentProduct),
        (RAgentService, SAgentService), (RAgentService, SAgentInstance), (RSkill, SSkill),
        (RMcpServer, SMcpServer), (RToolApi, SToolApi), (ROrganization, SOrganization),
        (RDeveloper, SDeveloper), (RInfrastructureNode, SInfrastructureNode),
        (RRootNode, SRootNode), (RRegistrarNode, SRegistrarNode),
        (RDiscoveryNode, SDiscoveryNode), (RCdnNode, SCdnNode), (RVcIssuerNode, SVcIssuerNode),
        (RTrustIndexerNode, STrustIndexerNode), (RController, SController),
        (RUnspecified, SUnspecified)]
       (resource, subject)"

definition verify_resource_type_consistency :: "resource_package \<Rightarrow> package_error + unit" where
  "verify_resource_type_consistency p =
     rbind (ok_or (dd_metadata (pk_did_document p)) PackageResourceTypeMismatch) (\<lambda>m.
     if pk_resource_type p = rm_resource_type (pk_metadata p)
        \<and> rm_subject_type (pk_metadata p) = md_subject_type m
        \<and> pk_resource_type p = md_resource_type m
        \<and> resource_type_matches_subject (pk_resource_type p) (rm_subject_type (pk_metadata p))
     then Inr () else Inl PackageResourceTypeMismatch)"

definition verify_metadata_consistency :: "resource_package \<Rightarrow> package_error + unit" where
  "verify_metadata_consistency p =
     (let domains = (case dd_metadata (pk_did_document p) of
        None \<Rightarrow> [] | Some m \<Rightarrow> md_authorized_domains m); m = pk_metadata p in
      if rm_resource_did m = pk_resource_did p \<and> rm_package_version m = pk_package_version p
         \<and> rm_package_hash m = pk_package_hash p \<and> rm_metadata_hash m = pk_metadata_hash p
         \<and> rm_hash_algorithm m = pk_hash_algorithm p \<and> domains = rm_authorized_domains m
      then Inr () else Inl RootProofClaimMismatch)"

definition verify_root_claim_binding :: "resource_package \<Rightarrow> package_error + unit" where
  "verify_root_claim_binding p =
     rbind (ok_or (rp_package_claims (pk_root_proof p)) RootProofClaimMismatch) (\<lambda>claims.
     rbind (ok_or (parse_claims claims) RootProofClaimMismatch) (\<lambda>parsed.
     if cl_resource_did parsed = pk_resource_did p \<and> cl_resource_type parsed = pk_resource_type p
        \<and> cl_version parsed = pk_package_version p
        \<and> cl_did_document_hash parsed = pk_did_document_hash p
        \<and> cl_metadata_hash parsed = pk_metadata_hash p
        \<and> cl_package_hash parsed = pk_package_hash p
        \<and> cl_hash_algorithm parsed = pk_hash_algorithm p
        \<and> cl_lifecycle_state parsed = rm_lifecycle_state (pk_metadata p)
        \<and> cl_authorized_domains parsed = rm_authorized_domains (pk_metadata p)
     then Inr () else Inl RootProofClaimMismatch))"

section \<open>Lemmas\<close>

lemma resource_type_as_str_inject: "resource_type_as_str r = resource_type_as_str s \<longleftrightarrow> r = s"
  by (metis resource_type_of_text_inverse option.inject)

lemma parse_claims_inverse: "parse_claims (claims_json c) = Some c"
  unfolding parse_claims_def claims_json_def
  by (subst struct_fields_object) (simp_all add: field_values reads)

lemma hash_hex_no_colon: "hex_ok X \<Longrightarrow> CHR '':'' \<notin> set (hash_hex X suite s)"
  by (cases suite) (auto simp: hash_hex_def hex_ok_def)

text \<open>The optional algorithm prefix leaves no ambiguity for colon-free hashes.\<close>

lemma append_colon_inject:
  "CHR '':'' \<notin> set a \<Longrightarrow> CHR '':'' \<notin> set b \<Longrightarrow> x @ CHR '':'' # a = y @ CHR '':'' # b \<Longrightarrow> a = b"
proof (induction x arbitrary: y)
  case Nil
  then show ?case by (cases y) auto
next
  case (Cons c x)
  then show ?case by (cases y) auto
qed

lemma hash_matches_unique:
  assumes "hash_matches e alg a" "hash_matches e alg' b"
    and "CHR '':'' \<notin> set a" "CHR '':'' \<notin> set b"
  shows "a = b"
  using assms append_colon_inject [OF assms(3,4), of alg alg']
  by (auto simp: hash_matches_def)

lemma hash_json_Inr:
  "hash_json_with_suite X suite v = Inr h \<longleftrightarrow>
     (\<exists>j. v = Some j \<and> h = hash_hex X suite (canonical_json_value X j))"
  by (auto simp: hash_json_with_suite_def canonical_json_def)

text \<open>Two values whose hashes match the same stated hash are equal.\<close>

lemma matching_hashes_equal:
  assumes "quote_ok X" "hex_ok X" "\<not> collision X v w" "json_ok v" "json_ok w"
    and "hash_matches e alg (hash_hex X A (canonical_json_value X v))"
    and "hash_matches e alg' (hash_hex X B (canonical_json_value X w))"
  shows "v = w"
proof -
  have "hash_hex X A (canonical_json_value X v) = hash_hex X B (canonical_json_value X w)"
    by (rule hash_matches_unique [OF assms(6,7)]) (simp_all add: hash_hex_no_colon assms(2))
  then have "canonical_json_value X v = canonical_json_value X w"
    using assms(3) unfolding collision_def by blast
  with canonical_json_inject [OF assms(1,4,5)] show ?thesis .
qed

lemma hash_checks_iff:
  "verify_package_hash X p = Inr () \<longleftrightarrow> hash_matches (pk_package_hash p) (pk_hash_algorithm p)
     (hash_hex X (effective_crypto_suite p) (canonical_json_value X (package_core_json p)))"
  "verify_did_document_hash X p = Inr () \<longleftrightarrow> (\<exists>v. did_document_json X (pk_did_document p) = Some v
     \<and> hash_matches (pk_did_document_hash p) (pk_hash_algorithm p)
         (hash_hex X (effective_crypto_suite p) (canonical_json_value X v)))"
  "verify_metadata_hash X p = Inr () \<longleftrightarrow>
     (\<exists>v. resource_metadata_json X ((pk_metadata p)\<lparr>rm_metadata_hash := [], rm_package_hash := []\<rparr>) = Some v
     \<and> hash_matches (pk_metadata_hash p) (pk_hash_algorithm p)
         (hash_hex X (effective_crypto_suite p) (canonical_json_value X v)))"
  by (auto simp: verify_package_hash_def verify_did_document_hash_def verify_metadata_hash_def
      hash_resource_metadata_with_suite_def hash_json_Inr split: if_splits)

lemma package_core_json_ok [simp]: "json_ok (package_core_json p)"
  unfolding package_core_json_def by (rule json_ok_object) (simp add: resource_type_json_def)

lemma package_core_json_inject:
  assumes "package_core_json p = package_core_json q"
  shows "pk_package_version p = pk_package_version q \<and> pk_resource_did p = pk_resource_did q
     \<and> pk_resource_type p = pk_resource_type q \<and> pk_did_document_hash p = pk_did_document_hash q
     \<and> pk_metadata_hash p = pk_metadata_hash q \<and> pk_hash_algorithm p = pk_hash_algorithm q"
proof -
  note k = json_object_eqD [OF assms [unfolded package_core_json_def]]
  show ?thesis
    using k [of "''packageVersion''"] k [of "''resourceDid''"] k [of "''resourceType''"]
      k [of "''didDocumentHash''"] k [of "''metadataHash''"] k [of "''hashAlgorithm''"]
    by (simp add: resource_type_json_def resource_type_as_str_inject)
qed

text \<open>Two packages of which the cores, the DID Documents or the metadata collide.\<close>

definition packages_collide :: "externs \<Rightarrow> resource_package \<Rightarrow> resource_package \<Rightarrow> bool" where
  "packages_collide X p q \<longleftrightarrow>
     collision X (package_core_json p) (package_core_json q)
   \<or> (\<exists>v w. did_document_json X (pk_did_document p) = Some v
        \<and> did_document_json X (pk_did_document q) = Some w \<and> collision X v w)
   \<or> (\<exists>v w. resource_metadata_json X ((pk_metadata p)\<lparr>rm_metadata_hash := [], rm_package_hash := []\<rparr>) = Some v
        \<and> resource_metadata_json X ((pk_metadata q)\<lparr>rm_metadata_hash := [], rm_package_hash := []\<rparr>) = Some w
        \<and> collision X v w)"

section \<open>Properties\<close>

text \<open>
  C15. The package hash binds the package: two packages that carry the same package hash and
  pass the three hash checks agree on version, resource, type, algorithm, the serialised DID
  Document and the serialised metadata (its own hash fields cleared), or the hashed values of
  the two packages are a hash collision.
\<close>

theorem package_hash_binds:
  assumes "quote_ok X" and "hex_ok X" and "pk_package_hash p = pk_package_hash q"
    and "verify_package_hash X p = Inr ()" and "verify_package_hash X q = Inr ()"
    and "verify_did_document_hash X p = Inr ()" and "verify_did_document_hash X q = Inr ()"
    and "verify_metadata_hash X p = Inr ()" and "verify_metadata_hash X q = Inr ()"
    and "\<forall>r \<in> {p, q}. \<forall>v. did_document_json X (pk_did_document r) = Some v
           \<or> resource_metadata_json X ((pk_metadata r)\<lparr>rm_metadata_hash := [], rm_package_hash := []\<rparr>)
               = Some v \<longrightarrow> json_ok v"
  shows "(pk_package_version p = pk_package_version q \<and> pk_resource_did p = pk_resource_did q
      \<and> pk_resource_type p = pk_resource_type q \<and> pk_hash_algorithm p = pk_hash_algorithm q
      \<and> did_document_json X (pk_did_document p) = did_document_json X (pk_did_document q)
      \<and> resource_metadata_json X ((pk_metadata p)\<lparr>rm_metadata_hash := [], rm_package_hash := []\<rparr>)
        = resource_metadata_json X ((pk_metadata q)\<lparr>rm_metadata_hash := [], rm_package_hash := []\<rparr>))
    \<or> packages_collide X p q"
proof (cases "packages_collide X p q")
  case False
  note eq = matching_hashes_equal [OF assms(1,2)]
  have "\<not> collision X (package_core_json p) (package_core_json q)"
    using False by (simp add: packages_collide_def)
  note eq_core = eq [OF this package_core_json_ok package_core_json_ok]
  have core: "package_core_json p = package_core_json q"
    using assms(4,5) unfolding hash_checks_iff assms(3) by (rule eq_core)
  note same = package_core_json_inject [OF core]
  from assms(6,7) same obtain v w where v: "did_document_json X (pk_did_document p) = Some v"
    "did_document_json X (pk_did_document q) = Some w"
    and h: "hash_matches (pk_did_document_hash q) (pk_hash_algorithm p)
         (hash_hex X (effective_crypto_suite p) (canonical_json_value X v))"
      "hash_matches (pk_did_document_hash q) (pk_hash_algorithm q)
         (hash_hex X (effective_crypto_suite q) (canonical_json_value X w))"
    unfolding hash_checks_iff by auto
  have vw: "v = w"
    by (rule eq [OF _ _ _ h]) (use assms(10) v False in \<open>auto simp: packages_collide_def\<close>)
  from assms(8,9) same obtain v' w' where v':
    "resource_metadata_json X ((pk_metadata p)\<lparr>rm_metadata_hash := [], rm_package_hash := []\<rparr>) = Some v'"
    "resource_metadata_json X ((pk_metadata q)\<lparr>rm_metadata_hash := [], rm_package_hash := []\<rparr>) = Some w'"
    and h': "hash_matches (pk_metadata_hash q) (pk_hash_algorithm p)
         (hash_hex X (effective_crypto_suite p) (canonical_json_value X v'))"
      "hash_matches (pk_metadata_hash q) (pk_hash_algorithm q)
         (hash_hex X (effective_crypto_suite q) (canonical_json_value X w'))"
    unfolding hash_checks_iff by auto
  have "v' = w'"
    by (rule eq [OF _ _ _ h']) (use assms(10) v' False in \<open>auto simp: packages_collide_def\<close>)
  with v v' vw same show ?thesis by simp
qed simp

text \<open>
  The claims of a root proof survive serialisation, so a package whose proof carries the
  claims it states itself passes the claim check exactly when lifecycle state and domains
  agree with its metadata.
\<close>

theorem own_claims_bind:
  "parse_claims (claims_json c) = Some c
   \<and> verify_root_claim_binding (p\<lparr>pk_root_proof := (pk_root_proof p)\<lparr>rp_package_claims := Some (claims_json
       \<lparr>cl_resource_did = pk_resource_did p, cl_resource_type = pk_resource_type p,
        cl_version = pk_package_version p, cl_did_document_hash = pk_did_document_hash p,
        cl_metadata_hash = pk_metadata_hash p, cl_package_hash = pk_package_hash p,
        cl_hash_algorithm = pk_hash_algorithm p, cl_lifecycle_state = state,
        cl_authorized_domains = domains, cl_bulletin_ref = ref\<rparr>)\<rparr>\<rparr>)
     = (if state = rm_lifecycle_state (pk_metadata p) \<and> domains = rm_authorized_domains (pk_metadata p)
        then Inr () else Inl RootProofClaimMismatch)"
  by (simp add: verify_root_claim_binding_def parse_claims_inverse)

text \<open>
  The type tables of the packages and of the DID Document validator differ in exactly the
  pairs of the general infrastructure subject with a specific node type: the validator allows
  them, packages do not.
\<close>

theorem package_type_table:
  "resource_type_matches_subject r s \<longleftrightarrow>
     valid_type_combination s r \<and> \<not> (s = SInfrastructureNode \<and> r \<noteq> RInfrastructureNode)"
  by (cases s; cases r) (simp_all add: resource_type_matches_subject_def valid_type_combination_def)

text \<open>
  As a consequence the DID Document of an infrastructure node that passes
  \<open>validate_infrastructure_profile\<close> cannot be published in any resource package.
\<close>

theorem infrastructure_nodes_have_no_package:
  assumes "validate_infrastructure_profile (pk_did_document p) r = Inr ()"
  shows "verify_resource_type_consistency p = Inl PackageResourceTypeMismatch"
proof -
  from assms obtain m t where m: "dd_metadata (pk_did_document p) = Some m"
    "md_subject_type m = SInfrastructureNode" "md_resource_type m = r" "expected_service_type r = Some t"
    by (auto simp: validate_infrastructure_profile_def Let_def split: if_splits)
  then have "\<not> resource_type_matches_subject r SInfrastructureNode"
    by (cases r) (simp_all add: resource_type_matches_subject_def expected_service_type_def)
  with m show ?thesis by (auto simp: verify_resource_type_consistency_def)
qed

text \<open>A package for the witnesses.\<close>

definition demo_package_metadata :: resource_metadata where
  "demo_package_metadata = \<lparr>rm_resource_did = demo_did, rm_resource_type = RSkill,
     rm_subject_type = SSkill, rm_publisher_did = None, rm_subject_did = None, rm_name = ''n'',
     rm_description = [], rm_capability_tags = [], rm_authorized_domains = [],
     rm_protocol_bindings = [], rm_services = [], rm_lifecycle_state = ''active'',
     rm_package_version = ''1'', rm_package_hash = [], rm_metadata_hash = [],
     rm_hash_algorithm = ''SHA-256'', rm_updated_at = 0\<rparr>"

definition demo_hash :: "json option \<Rightarrow> string" where
  "demo_hash v = (case hash_json_with_suite demo_externs Ed25519Sha256 v of Inl e \<Rightarrow> [] | Inr h \<Rightarrow> h)"

definition demo_package :: resource_package where
  "demo_package = (let p = \<lparr>pk_package_version = ''1'', pk_resource_did = demo_did, pk_resource_type = RSkill,
     pk_did_document = demo_document, pk_did_document_raw = None,
     pk_did_document_hash = demo_hash (did_document_json demo_externs demo_document),
     pk_metadata_hash = demo_hash (resource_metadata_json demo_externs demo_package_metadata),
     pk_package_hash = [], pk_hash_algorithm = ''SHA-256'', pk_metadata = demo_package_metadata,
     pk_root_proof = \<lparr>rp_root_did = demo_did, rp_bulletin_event_hash = None, rp_signature = None,
       rp_package_claims = None, rp_proof = None, rp_crypto_suite = None, rp_hash_algorithm = None\<rparr>,
     pk_created_at = 0\<rparr> in p\<lparr>pk_package_hash := demo_hash (Some (package_core_json p))\<rparr>)"

theorem infrastructure_nodes_have_no_package_witness:
  "verify_resource_type_consistency demo_package = Inl PackageResourceTypeMismatch"
proof (rule infrastructure_nodes_have_no_package)
  have package_document: "pk_did_document demo_package = demo_document"
    by (simp add: demo_package_def Let_def)
  show "validate_infrastructure_profile (pk_did_document demo_package) RRootNode = Inr ()"
    unfolding package_document by code_simp
qed

lemma demo_package_json:
  "case did_document_json demo_externs demo_document of None \<Rightarrow> False | Some v \<Rightarrow> json_ok v"
  "case resource_metadata_json demo_externs demo_package_metadata of None \<Rightarrow> False | Some v \<Rightarrow> json_ok v"
  by code_simp+

lemma demo_hash_Some: "v \<noteq> None \<Longrightarrow> hash_json_with_suite demo_externs Ed25519Sha256 v = Inr (demo_hash v)"
  by (auto simp: demo_hash_def hash_json_with_suite_def canonical_json_def)

lemma demo_package_simps:
  "effective_crypto_suite demo_package = Ed25519Sha256"
  "pk_did_document demo_package = demo_document" "pk_metadata demo_package = demo_package_metadata"
  "pk_did_document_hash demo_package = demo_hash (did_document_json demo_externs demo_document)"
  "pk_metadata_hash demo_package = demo_hash (resource_metadata_json demo_externs demo_package_metadata)"
  "pk_package_hash demo_package = demo_hash (Some (package_core_json demo_package))"
  "demo_package_metadata\<lparr>rm_metadata_hash := [], rm_package_hash := []\<rparr> = demo_package_metadata"
  by (simp_all add: demo_package_def Let_def effective_crypto_suite_def package_core_json_def
      demo_package_metadata_def)

lemma demo_package_checks:
  "verify_package_hash demo_externs demo_package = Inr ()"
  "verify_did_document_hash demo_externs demo_package = Inr ()"
  "verify_metadata_hash demo_externs demo_package = Inr ()"
  using demo_package_json unfolding case_option_False_iff
  by (auto simp: verify_package_hash_def verify_did_document_hash_def verify_metadata_hash_def
      hash_resource_metadata_with_suite_def demo_package_simps demo_hash_Some hash_matches_def)

theorem package_hash_binds_witness:
  "did_document_json demo_externs (pk_did_document demo_package)
     = did_document_json demo_externs (pk_did_document demo_package)
   \<or> packages_collide demo_externs demo_package demo_package"
  using package_hash_binds [OF demo_externs_quote demo_hex_ok refl [of "pk_package_hash demo_package"]
      demo_package_checks(1) demo_package_checks(1) demo_package_checks(2) demo_package_checks(2)
      demo_package_checks(3) demo_package_checks(3)]
    demo_package_json [unfolded case_option_False_iff]
  by (auto simp: demo_package_simps)

end
