(* ===== verification/Messages.thy ===== *)
theory Messages
  imports Package Security
begin

text \<open>
  The remaining messages of \<open>crates/oan-protocol\<close> with the JSON that \<open>serde\<close> writes for them, and for
  the messages of plain fields the reading of that JSON, defaults of missing members included. At the
  end, what the signed envelope of a request says about its body.
\<close>

section \<open>Constants\<close>

definition PROTOCOL_VERSION :: string where
  "PROTOCOL_VERSION = OAN_RESOURCE_PROTOCOL_VERSION"

definition PURPOSE_VERIFY_AND_PUBLISH :: string where
  "PURPOSE_VERIFY_AND_PUBLISH = ''verify-and-publish''"

definition PURPOSE_CDN_PUBLISH :: string where "PURPOSE_CDN_PUBLISH = ''cdn-publish''"

definition PURPOSE_INFRASTRUCTURE_AUTHORIZATION_VC_ISSUE :: string where
  "PURPOSE_INFRASTRUCTURE_AUTHORIZATION_VC_ISSUE = ''infrastructure-authorization-vc-issue''"

definition PATH_ROOT_RESOURCES_VERIFY_AND_PUBLISH :: string where
  "PATH_ROOT_RESOURCES_VERIFY_AND_PUBLISH = ''/root/resources/verify-and-publish''"

definition PATH_ROOT_INFRASTRUCTURE_AUTHORIZATION_VCS_ISSUE :: string where
  "PATH_ROOT_INFRASTRUCTURE_AUTHORIZATION_VCS_ISSUE = ''/root/infrastructure/authorization-vcs/issue''"

definition PATH_CDN_RESOURCES :: string where "PATH_CDN_RESOURCES = ''/cdn/resources''"

definition PATH_CDN_RESOURCES_BATCH :: string where
  "PATH_CDN_RESOURCES_BATCH = ''/cdn/resources/batch''"

section \<open>Node requests\<close>

record health_response =
  hr_status :: string
  hr_node_type :: string
  hr_did :: "string option"

definition health_response_json :: "health_response \<Rightarrow> json" where
  "health_response_json h = json_object
     ([(''status'', JString (hr_status h)), (''nodeType'', JString (hr_node_type h))]
      @ null_field ''did'' JString (hr_did h))"

record node_authorize_request =
  na_node_did :: string
  na_node_role :: string
  na_did_document :: did_document

definition node_authorize_json :: "externs \<Rightarrow> node_authorize_request \<Rightarrow> json option" where
  "node_authorize_json X r = map_option (\<lambda>d. json_object
     [(''nodeDid'', JString (na_node_did r)), (''nodeRole'', JString (na_node_role r)),
      (''didDocument'', d)]) (did_document_json X (na_did_document r))"

record discovery_authorize_request =
  da_discovery_did :: string
  da_did_document :: did_document
  da_endpoint :: string
  da_authorized_domains :: "string list"

definition discovery_authorize_json :: "externs \<Rightarrow> discovery_authorize_request \<Rightarrow> json option" where
  "discovery_authorize_json X r = map_option (\<lambda>d. json_object
     [(''discoveryDid'', JString (da_discovery_did r)), (''didDocument'', d),
      (''endpoint'', JString (da_endpoint r)),
      (''authorizedDomains'', json_strings (da_authorized_domains r))])
     (did_document_json X (da_did_document r))"

record discovery_domain_update_request =
  du_discovery_did :: string
  du_authorized_domains :: "string list"
  du_tag_tree_version :: "64 word"

definition discovery_domain_update_json :: "discovery_domain_update_request \<Rightarrow> json" where
  "discovery_domain_update_json r = json_object
     [(''discoveryDid'', JString (du_discovery_did r)),
      (''authorizedDomains'', json_strings (du_authorized_domains r)),
      (''tagTreeVersion'', JNumber (JInt (uint (du_tag_tree_version r))))]"

record resource_register_request =
  rr_resource_did :: string
  rr_resource_type :: resource_type
  rr_did_document :: did_document
  rr_metadata :: json
  rr_signature :: string

definition resource_register_json :: "externs \<Rightarrow> resource_register_request \<Rightarrow> json option" where
  "resource_register_json X r = map_option (\<lambda>d. json_object
     [(''resourceDid'', JString (rr_resource_did r)),
      (''resourceType'', resource_type_json (rr_resource_type r)), (''didDocument'', d),
      (''metadata'', rr_metadata r), (''signature'', JString (rr_signature r))])
     (did_document_json X (rr_did_document r))"

record root_authorize_request =
  ra_target_did :: string
  ra_target_role :: string
  ra_did_document :: did_document

definition root_authorize_json :: "externs \<Rightarrow> root_authorize_request \<Rightarrow> json option" where
  "root_authorize_json X r = map_option (\<lambda>d. json_object
     [(''targetDid'', JString (ra_target_did r)), (''targetRole'', JString (ra_target_role r)),
      (''didDocument'', d)]) (did_document_json X (ra_did_document r))"

record registration_credential_query_response =
  qp_resource_did :: string
  qp_controller_did :: string
  qp_registration_credential :: json

definition query_response_json :: "registration_credential_query_response \<Rightarrow> json" where
  "query_response_json r = json_object
     [(''resourceDid'', JString (qp_resource_did r)), (''controllerDid'', JString (qp_controller_did r)),
      (''registrationCredential'', qp_registration_credential r)]"

section \<open>Signed requests\<close>

definition signed_envelope_json :: "externs \<Rightarrow> signed_request_envelope \<Rightarrow> json" where
  "signed_envelope_json X e = json_object
     [(''requestId'', JString (sr_request_id e)), (''protocolVersion'', JString (sr_protocol_version e)),
      (''purpose'', JString (sr_purpose e)), (''method'', JString (sr_method e)),
      (''path'', JString (sr_path e)), (''aud'', JString (sr_aud e)),
      (''requestTimestamp'', JString (time_text X (sr_request_timestamp e))),
      (''requestNonce'', JString (sr_request_nonce e)), (''bodyHash'', JString (sr_body_hash e)),
      (''proof'', proof_json X (sr_proof e))]"

definition subject_control_json :: "externs \<Rightarrow> subject_control_proof_bundle \<Rightarrow> json" where
  "subject_control_json X b = json_object
     ([(''challenge'', did_control_challenge_json X (sb_challenge b)), (''proof'', proof_json X (sb_proof b))]
      @ opt_field ''verifiedAt'' (\<lambda>t. JString (time_text X t)) (sb_verified_at b)
      @ opt_field ''verifiedVerificationMethod'' JString (sb_verified_verification_method b)
      @ opt_field ''proofHash'' JString (sb_proof_hash b))"

definition controller_bundle_json ::
  "externs \<Rightarrow> controller_authorization_proof_bundle \<Rightarrow> json option" where
  "controller_bundle_json X b = map_option (\<lambda>d. json_object
     [(''challenge'', controller_challenge_json X (cb_challenge b)), (''controllerDidDocument'', d),
      (''proof'', proof_json X (cb_proof b))])
     (did_document_json X (cb_controller_did_document b))"

text \<open>The credential is left out when it is \<open>null\<close>.\<close>

definition submission_json :: "externs \<Rightarrow> resource_registration_submission \<Rightarrow> json option" where
  "submission_json X s =
     Option.bind (did_document_json X (sub_did_document s)) (\<lambda>d.
     Option.bind (case sub_controller_authorization_proof s of
         None \<Rightarrow> Some None | Some b \<Rightarrow> map_option Some (controller_bundle_json X b)) (\<lambda>bundle.
     Some (json_object
       ([(''resourceDid'', JString (sub_resource_did s)),
         (''resourceType'', resource_type_json (sub_resource_type s)), (''didDocument'', d),
         (''didDocumentHash'', JString (sub_did_document_hash s)), (''metadata'', sub_metadata s),
         (''packageVersion'', JString (sub_package_version s)),
         (''packageHash'', JString (sub_package_hash s)),
         (''metadataHash'', JString (sub_metadata_hash s)),
         (''hashAlgorithm'', JString (sub_hash_algorithm s))]
        @ (if sub_registration_credential s = JNull then []
           else [(''registrationCredential'', sub_registration_credential s)])
        @ [(''subjectControlProof'', subject_control_json X (sub_subject_control_proof s))]
        @ opt_field ''controllerAuthorizationProof'' (\<lambda>j. j) bundle))))"

record verify_and_publish_request =
  vq_registrar_did :: string
  vq_submission :: resource_registration_submission
  vq_did_document_raw :: "json option"
  vq_upstream_auth :: signed_request_envelope

definition verify_and_publish_json :: "externs \<Rightarrow> verify_and_publish_request \<Rightarrow> json option" where
  "verify_and_publish_json X r = map_option (\<lambda>submission. json_object
     ([(''registrarDid'', JString (vq_registrar_did r)), (''submission'', submission)]
      @ opt_field ''didDocumentRaw'' (\<lambda>j. j) (vq_did_document_raw r)
      @ [(''upstreamAuth'', signed_envelope_json X (vq_upstream_auth r))]))
     (submission_json X (vq_submission r))"

record issue_payload =
  ip_subject_did :: string
  ip_role :: string
  ip_did_document :: did_document
  ip_did_document_stable_hash :: string
  ip_authorized_domains :: "string list"
  ip_endpoint :: "string option"

definition issue_payload_json :: "externs \<Rightarrow> issue_payload \<Rightarrow> json option" where
  "issue_payload_json X p = map_option (\<lambda>d. json_object
     ([(''subjectDid'', JString (ip_subject_did p)), (''role'', JString (ip_role p)), (''didDocument'', d),
       (''didDocumentStableHash'', JString (ip_did_document_stable_hash p)),
       (''authorizedDomains'', json_strings (ip_authorized_domains p))]
      @ opt_field ''endpoint'' JString (ip_endpoint p)))
     (did_document_json X (ip_did_document p))"

record issue_request =
  iq_payload :: issue_payload
  iq_upstream_auth :: signed_request_envelope

definition issue_request_json :: "externs \<Rightarrow> issue_request \<Rightarrow> json option" where
  "issue_request_json X r = map_option (\<lambda>p. json_object
     [(''payload'', p), (''upstreamAuth'', signed_envelope_json X (iq_upstream_auth r))])
     (issue_payload_json X (iq_payload r))"

section \<open>Packages for the CDN\<close>

definition root_proof_json :: "externs \<Rightarrow> root_proof \<Rightarrow> json" where
  "root_proof_json X p = json_object
     ([(''rootDid'', JString (rp_root_did p))]
      @ null_field ''bulletinEventHash'' JString (rp_bulletin_event_hash p)
      @ null_field ''signature'' JString (rp_signature p)
      @ opt_field ''packageClaims'' (\<lambda>j. j) (rp_package_claims p)
      @ opt_field ''proof'' (proof_json X) (rp_proof p)
      @ opt_field ''cryptoSuite'' suite_json (rp_crypto_suite p)
      @ opt_field ''hashAlgorithm'' JString (rp_hash_algorithm p))"

definition resource_package_json :: "externs \<Rightarrow> resource_package \<Rightarrow> json option" where
  "resource_package_json X p =
     Option.bind (did_document_json X (pk_did_document p)) (\<lambda>d.
     Option.bind (resource_metadata_json X (pk_metadata p)) (\<lambda>m.
     Some (json_object
       ([(''packageVersion'', JString (pk_package_version p)),
         (''resourceDid'', JString (pk_resource_did p)),
         (''resourceType'', resource_type_json (pk_resource_type p)), (''didDocument'', d)]
        @ opt_field ''didDocumentRaw'' (\<lambda>j. j) (pk_did_document_raw p)
        @ [(''didDocumentHash'', JString (pk_did_document_hash p)),
           (''metadataHash'', JString (pk_metadata_hash p)),
           (''packageHash'', JString (pk_package_hash p)),
           (''hashAlgorithm'', JString (pk_hash_algorithm p)), (''metadata'', m),
           (''rootProof'', root_proof_json X (pk_root_proof p)),
           (''createdAt'', JString (time_text X (pk_created_at p)))]))))"

record cdn_publish_request =
  cp_package :: resource_package
  cp_upstream_auth :: signed_request_envelope

definition cdn_publish_json :: "externs \<Rightarrow> cdn_publish_request \<Rightarrow> json option" where
  "cdn_publish_json X r = map_option (\<lambda>p. json_object
     [(''package'', p), (''upstreamAuth'', signed_envelope_json X (cp_upstream_auth r))])
     (resource_package_json X (cp_package r))"

text \<open>Cursors are \<open>i64\<close>.\<close>

record cdn_publish_batch_item =
  cb_publication_cursor :: "64 word"
  cb_package :: resource_package

definition cdn_batch_item_json :: "externs \<Rightarrow> cdn_publish_batch_item \<Rightarrow> json option" where
  "cdn_batch_item_json X i = map_option (\<lambda>p. json_object
     [(''publicationCursor'', JNumber (JInt (sint (cb_publication_cursor i)))), (''package'', p)])
     (resource_package_json X (cb_package i))"

record cdn_batch_publish_request =
  bp_items :: "cdn_publish_batch_item list"
  bp_upstream_auth :: signed_request_envelope

definition cdn_batch_publish_json :: "externs \<Rightarrow> cdn_batch_publish_request \<Rightarrow> json option" where
  "cdn_batch_publish_json X r = map_option (\<lambda>items. json_object
     [(''items'', JArray items), (''upstreamAuth'', signed_envelope_json X (bp_upstream_auth r))])
     (all_some (map (cdn_batch_item_json X) (bp_items r)))"

record cdn_index_item =
  ci_cursor :: "64 word"
  ci_package :: resource_package

definition cdn_index_item_json :: "externs \<Rightarrow> cdn_index_item \<Rightarrow> json option" where
  "cdn_index_item_json X i = map_option (\<lambda>p. json_object
     [(''cursor'', JNumber (JInt (sint (ci_cursor i)))), (''package'', p)])
     (resource_package_json X (ci_package i))"

record cdn_index_response =
  cx_items :: "cdn_index_item list"
  cx_count :: "64 word"
  cx_after_cursor :: "64 word"
  cx_next_cursor :: "64 word"
  cx_has_more :: bool

definition cdn_index_response_json :: "externs \<Rightarrow> cdn_index_response \<Rightarrow> json option" where
  "cdn_index_response_json X r = map_option (\<lambda>items. json_object
     [(''items'', JArray items), (''count'', JNumber (JInt (uint (cx_count r)))),
      (''afterCursor'', JNumber (JInt (sint (cx_after_cursor r)))),
      (''nextCursor'', JNumber (JInt (sint (cx_next_cursor r)))), (''hasMore'', JBool (cx_has_more r))])
     (all_some (map (cdn_index_item_json X) (cx_items r)))"

section \<open>Discovery\<close>

record pagination_request =
  pq_cursor :: "string option"
  pq_limit :: "32 word option"

definition pagination_request_json :: "pagination_request \<Rightarrow> json" where
  "pagination_request_json p = json_object
     (opt_field ''cursor'' JString (pq_cursor p)
      @ opt_field ''limit'' (\<lambda>l. JNumber (JInt (uint l))) (pq_limit p))"

record 'a pagination_response =
  pr_items :: "'a list"
  pr_count :: "64 word"
  pr_next_cursor :: "string option"
  pr_has_more :: bool

definition pagination_response_json :: "('a \<Rightarrow> json) \<Rightarrow> 'a pagination_response \<Rightarrow> json" where
  "pagination_response_json f p = json_object
     ([(''items'', JArray (map f (pr_items p))), (''count'', JNumber (JInt (uint (pr_count p))))]
      @ opt_field ''nextCursor'' JString (pr_next_cursor p)
      @ [(''hasMore'', JBool (pr_has_more p))])"

record resource_discovery_query =
  rq_query :: "string option"
  rq_resource_type :: "resource_type option"
  rq_capability_tags :: "string list"
  rq_protocol :: "string option"
  rq_version :: "string option"
  rq_version_mode :: string
  rq_limit :: "32 word"

definition default_limit :: "32 word" where "default_limit = 10"

definition default_version_mode :: string where "default_version_mode = ''latest''"

definition discovery_query_json :: "resource_discovery_query \<Rightarrow> json" where
  "discovery_query_json q = json_object
     (opt_field ''query'' JString (rq_query q)
      @ opt_field ''resourceType'' resource_type_json (rq_resource_type q)
      @ [(''capabilityTags'', json_strings (rq_capability_tags q))]
      @ opt_field ''protocol'' JString (rq_protocol q)
      @ opt_field ''version'' JString (rq_version q)
      @ [(''versionMode'', JString (rq_version_mode q)),
         (''limit'', JNumber (JInt (uint (rq_limit q))))])"

text \<open>The score is an \<open>f32\<close>: the number that is written for it, and \<open>null\<close> when it is not finite.\<close>

record discovery_candidate =
  dn_resource_did :: string
  dn_resource_type :: resource_type
  dn_score :: "jnum option"
  dn_version :: "string option"
  dn_lifecycle_state :: "string option"
  dn_capability_tags :: "string list"
  dn_authorized_domains :: "string list"
  dn_services :: "service_endpoint list"
  dn_protocol_bindings :: "json list"
  dn_package_info :: "json option"
  dn_root_proof :: "json option"

definition discovery_candidate_json :: "discovery_candidate \<Rightarrow> json" where
  "discovery_candidate_json c = json_object
     ([(''resourceDid'', JString (dn_resource_did c)),
       (''resourceType'', resource_type_json (dn_resource_type c))]
      @ null_field ''score'' JNumber (dn_score c)
      @ opt_field ''version'' JString (dn_version c)
      @ opt_field ''lifecycleState'' JString (dn_lifecycle_state c)
      @ [(''capabilityTags'', json_strings (dn_capability_tags c)),
         (''authorizedDomains'', json_strings (dn_authorized_domains c)),
         (''services'', JArray (map service_json (dn_services c))),
         (''protocolBindings'', JArray (dn_protocol_bindings c))]
      @ opt_field ''packageInfo'' (\<lambda>j. j) (dn_package_info c)
      @ opt_field ''rootProof'' (\<lambda>j. j) (dn_root_proof c))"

record discovery_response =
  dr_discovery_did :: string
  dr_candidates :: "discovery_candidate list"
  dr_created_at :: datetime
  dr_proof :: "data_integrity_proof option"

definition discovery_response_json :: "externs \<Rightarrow> discovery_response \<Rightarrow> json" where
  "discovery_response_json X r = json_object
     ([(''discoveryDid'', JString (dr_discovery_did r)),
       (''candidates'', JArray (map discovery_candidate_json (dr_candidates r))),
       (''createdAt'', JString (time_text X (dr_created_at r)))]
      @ null_field ''proof'' (proof_json X) (dr_proof r))"

record notification_item =
  no_resource_did :: string
  no_resource_type :: resource_type
  no_operation :: string
  no_package_version :: string
  no_did_document_hash :: string
  no_metadata_hash :: string
  no_package_hash :: string
  no_hash_algorithm :: string
  no_lifecycle_state :: string
  no_bulletin_sequence :: "64 word"
  no_bulletin_event_hash :: string
  no_capability_tags :: "string list"
  no_authorized_domains :: "string list"

definition notification_item_json :: "notification_item \<Rightarrow> json" where
  "notification_item_json i = json_object
     [(''resourceDid'', JString (no_resource_did i)),
      (''resourceType'', resource_type_json (no_resource_type i)),
      (''operation'', JString (no_operation i)), (''packageVersion'', JString (no_package_version i)),
      (''didDocumentHash'', JString (no_did_document_hash i)),
      (''metadataHash'', JString (no_metadata_hash i)), (''packageHash'', JString (no_package_hash i)),
      (''hashAlgorithm'', JString (no_hash_algorithm i)),
      (''lifecycleState'', JString (no_lifecycle_state i)),
      (''bulletinSequence'', JNumber (JInt (uint (no_bulletin_sequence i)))),
      (''bulletinEventHash'', JString (no_bulletin_event_hash i)),
      (''capabilityTags'', json_strings (no_capability_tags i)),
      (''authorizedDomains'', json_strings (no_authorized_domains i))]"

record batch_notification =
  bn_notification_batch_id :: string
  bn_root_did :: string
  bn_target_discovery_did :: string
  bn_authorized_domains :: "string list"
  bn_sequence_from :: "64 word"
  bn_sequence_to :: "64 word"
  bn_items :: "notification_item list"
  bn_cdn_manifest_url :: string
  bn_cdn_updates_url :: string
  bn_proof :: json

definition batch_notification_json :: "batch_notification \<Rightarrow> json" where
  "batch_notification_json n = json_object
     [(''notificationBatchId'', JString (bn_notification_batch_id n)),
      (''rootDid'', JString (bn_root_did n)),
      (''targetDiscoveryDid'', JString (bn_target_discovery_did n)),
      (''authorizedDomains'', json_strings (bn_authorized_domains n)),
      (''sequenceFrom'', JNumber (JInt (uint (bn_sequence_from n)))),
      (''sequenceTo'', JNumber (JInt (uint (bn_sequence_to n)))),
      (''items'', JArray (map notification_item_json (bn_items n))),
      (''cdnManifestUrl'', JString (bn_cdn_manifest_url n)),
      (''cdnUpdatesUrl'', JString (bn_cdn_updates_url n)), (''proof'', bn_proof n)]"

record invocation_envelope =
  iv_id :: string
  iv_caller_did :: string
  iv_target_did :: string
  iv_protocol :: string
  iv_payload :: json
  iv_created_at :: datetime
  iv_signature :: string

definition invocation_json :: "externs \<Rightarrow> invocation_envelope \<Rightarrow> json" where
  "invocation_json X e = json_object
     [(''id'', JString (iv_id e)), (''callerDid'', JString (iv_caller_did e)),
      (''targetDid'', JString (iv_target_did e)), (''protocol'', JString (iv_protocol e)),
      (''payload'', iv_payload e), (''createdAt'', JString (time_text X (iv_created_at e))),
      (''signature'', JString (iv_signature e))]"

section \<open>Reading messages\<close>

definition parse_health_response :: "json \<Rightarrow> health_response option" where
  "parse_health_response v =
     (case struct_fields [required ''status'', required ''nodeType'', optional ''did''] v of
        Some [s, t, d] \<Rightarrow>
          Option.bind (json_as_str s) (\<lambda>s. Option.bind (json_as_str t) (\<lambda>t.
          Option.bind (parse_option json_as_str d) (\<lambda>d.
          Some \<lparr>hr_status = s, hr_node_type = t, hr_did = d\<rparr>)))
      | _ \<Rightarrow> None)"

definition parse_discovery_domain_update :: "json \<Rightarrow> discovery_domain_update_request option" where
  "parse_discovery_domain_update v =
     (case struct_fields [required ''discoveryDid'', required ''authorizedDomains'',
                          required ''tagTreeVersion''] v of
        Some [d, ds, t] \<Rightarrow>
          Option.bind (json_as_str d) (\<lambda>d. Option.bind (parse_strings ds) (\<lambda>ds.
          Option.bind (parse_word t) (\<lambda>t.
          Some \<lparr>du_discovery_did = d, du_authorized_domains = ds, du_tag_tree_version = t\<rparr>)))
      | _ \<Rightarrow> None)"

definition parse_pagination_request :: "json \<Rightarrow> pagination_request option" where
  "parse_pagination_request v =
     (case struct_fields [optional ''cursor'', optional ''limit''] v of
        Some [c, l] \<Rightarrow>
          Option.bind (parse_option json_as_str c) (\<lambda>c.
          Option.bind (parse_option parse_word l) (\<lambda>l.
          Some \<lparr>pq_cursor = c, pq_limit = l\<rparr>))
      | _ \<Rightarrow> None)"

definition parse_discovery_query :: "json \<Rightarrow> resource_discovery_query option" where
  "parse_discovery_query v =
     (case struct_fields [optional ''query'', optional ''resourceType'',
             with_default ''capabilityTags'' (JArray []), optional ''protocol'', optional ''version'',
             with_default ''versionMode'' (JString default_version_mode),
             with_default ''limit'' (JNumber (JInt (uint default_limit)))] v of
        Some [q, t, ts, p, w, m, l] \<Rightarrow>
          Option.bind (parse_option json_as_str q) (\<lambda>q.
          Option.bind (parse_option parse_resource_type t) (\<lambda>t.
          Option.bind (parse_strings ts) (\<lambda>ts.
          Option.bind (parse_option json_as_str p) (\<lambda>p.
          Option.bind (parse_option json_as_str w) (\<lambda>w.
          Option.bind (json_as_str m) (\<lambda>m.
          Option.bind (parse_word l) (\<lambda>l.
          Some \<lparr>rq_query = q, rq_resource_type = t, rq_capability_tags = ts, rq_protocol = p,
                rq_version = w, rq_version_mode = m, rq_limit = l\<rparr>)))))))
      | _ \<Rightarrow> None)"

definition parse_notification_item :: "json \<Rightarrow> notification_item option" where
  "parse_notification_item v =
     (case struct_fields (map required [''resourceDid'', ''resourceType'', ''operation'',
             ''packageVersion'', ''didDocumentHash'', ''metadataHash'', ''packageHash'',
             ''hashAlgorithm'', ''lifecycleState'', ''bulletinSequence'', ''bulletinEventHash'']
           @ map (\<lambda>k. with_default k (JArray [])) [''capabilityTags'', ''authorizedDomains'']) v of
        Some [d, t, op, pv, dh, mh, ph, ha, ls, sq, eh, ct, ad] \<Rightarrow>
          Option.bind (parse_resource_type t) (\<lambda>t.
          Option.bind (parse_word sq) (\<lambda>sq.
          Option.bind (parse_strings ct) (\<lambda>ct.
          Option.bind (parse_strings ad) (\<lambda>ad.
          case all_some (map json_as_str [d, op, pv, dh, mh, ph, ha, ls, eh]) of
            Some [d, op, pv, dh, mh, ph, ha, ls, eh] \<Rightarrow> Some
              \<lparr>no_resource_did = d, no_resource_type = t, no_operation = op, no_package_version = pv,
               no_did_document_hash = dh, no_metadata_hash = mh, no_package_hash = ph,
               no_hash_algorithm = ha, no_lifecycle_state = ls,
               no_bulletin_sequence = sq, no_bulletin_event_hash = eh,
               no_capability_tags = ct, no_authorized_domains = ad\<rparr>
          | _ \<Rightarrow> None))))
      | _ \<Rightarrow> None)"

lemma parse_health_response_inverse: "parse_health_response (health_response_json h) = Some h"
  unfolding parse_health_response_def health_response_json_def
  by (subst struct_fields_object) (simp_all add: field_values reads)

lemma parse_discovery_domain_update_inverse: "parse_discovery_domain_update (discovery_domain_update_json u) = Some u"
  unfolding parse_discovery_domain_update_def discovery_domain_update_json_def
  by (subst struct_fields_object) (simp_all add: field_values reads)

lemma parse_pagination_request_inverse: "parse_pagination_request (pagination_request_json p) = Some p"
  unfolding parse_pagination_request_def pagination_request_json_def
  by (subst struct_fields_object) (simp_all add: field_values reads)

lemma parse_discovery_query_inverse: "parse_discovery_query (discovery_query_json q) = Some q"
  unfolding parse_discovery_query_def discovery_query_json_def
  by (subst struct_fields_object) (simp_all add: field_values reads)

lemma parse_notification_item_inverse: "parse_notification_item (notification_item_json i) = Some i"
  unfolding parse_notification_item_def notification_item_json_def
  by (subst struct_fields_object) (simp_all add: field_values reads)

lemma discovery_query_defaults:
  "parse_discovery_query (JObject []) = Some \<lparr>rq_query = None, rq_resource_type = None,
     rq_capability_tags = [], rq_protocol = None, rq_version = None,
     rq_version_mode = ''latest'', rq_limit = 10\<rparr>"
  "parse_discovery_query (JArray []) = None"
  by (simp_all add: parse_discovery_query_def struct_fields_def field_values reads parse_word_def
      parse_uint_def default_limit_def default_version_mode_def)

text \<open>
  Messages survive their JSON: what is written for a message is read as that message, missing members
  of a discovery query are read as its defaults, and an array may leave out none of the optional
  fields before them.
\<close>

theorem messages_roundtrip:
  "parse_health_response (health_response_json h) = Some h
   \<and> parse_discovery_domain_update (discovery_domain_update_json u) = Some u
   \<and> parse_pagination_request (pagination_request_json p) = Some p
   \<and> parse_discovery_query (discovery_query_json q) = Some q
   \<and> parse_notification_item (notification_item_json i) = Some i
   \<and> parse_discovery_query (JObject []) = Some \<lparr>rq_query = None, rq_resource_type = None,
        rq_capability_tags = [], rq_protocol = None, rq_version = None,
        rq_version_mode = ''latest'', rq_limit = 10\<rparr>
   \<and> parse_discovery_query (JArray []) = None"
  by (intro conjI parse_health_response_inverse parse_discovery_domain_update_inverse
      parse_pagination_request_inverse parse_discovery_query_inverse parse_notification_item_inverse
      discovery_query_defaults)

section \<open>What the envelope of a request binds\<close>

lemma accepted_body_hash:
  assumes "verify_signed_request_envelope X wr f e payload did d policy now = (g, Inr c)"
  shows "\<exists>m suite. find_relationship_method d AssertionMethod
      (case pf_verification_method (sr_proof e) of Some m \<Rightarrow> Some m | None \<Rightarrow> Some (key_1 did)) = Inr m
    \<and> crypto_suite_from_verification_method m = Inr suite
    \<and> hash_json_with_suite X suite payload = Inr (sr_body_hash e)"
proof -
  from assms have "verify_envelope_signature X e payload did d = Inr c"
    by (auto simp: verify_signed_request_envelope_def split: if_split_asm sum.split_asm prod.split_asm)
  then show ?thesis
    by (auto simp: verify_envelope_signature_def Let_def rbind_Inr_iff split: if_split_asm)
qed

lemma accepted_bodies_agree:
  assumes "quote_ok X"
    and "verify_signed_request_envelope X wr f e (Some v) did d policy now = (g, Inr c)"
    and "verify_signed_request_envelope X wr' f' e (Some w) did d policy' now' = (g', Inr c')"
    and "json_ok v" and "json_ok w"
  shows "v = w \<or> collision X v w"
proof -
  obtain suite where "hash_hex X suite (canonical_json_value X v) = hash_hex X suite (canonical_json_value X w)"
    using accepted_body_hash [OF assms(2)] accepted_body_hash [OF assms(3)]
    by (auto simp: hash_json_Inr) metis
  then show ?thesis
    using canonical_json_inject [OF assms(1,4,5)] unfolding collision_def by blast
qed

end
