(* ===== verification/Wire.thy ===== *)
theory Wire
  imports Messages
begin

text \<open>
  Signed requests and packages as the services receive them: the readers of \<open>SignedRequestEnvelope\<close>
  and of the request for an authorisation credential (\<open>crates/oan-protocol\<close>) and of
  \<open>ResourcePackage\<close> with its parts (\<open>crates/oan-package\<close>). They undo the writers, so a checked
  signature or hash speaks about the value that was sent, not only about its text.
\<close>

section \<open>Readers\<close>

definition parse_signed_envelope ::
  "(string \<Rightarrow> datetime option) \<Rightarrow> json \<Rightarrow> signed_request_envelope option" where
  "parse_signed_envelope parse_time v =
     (case struct_fields (map required [''requestId'', ''protocolVersion'', ''purpose'', ''method'',
             ''path'', ''aud'', ''requestTimestamp'', ''requestNonce'', ''bodyHash'', ''proof'']) v of
        Some [i, pv, p, m, pa, a, t, n, h, pf] \<Rightarrow>
          Option.bind (json_as_str i) (\<lambda>i. Option.bind (json_as_str pv) (\<lambda>pv.
          Option.bind (json_as_str p) (\<lambda>p. Option.bind (json_as_str m) (\<lambda>m.
          Option.bind (json_as_str pa) (\<lambda>pa. Option.bind (json_as_str a) (\<lambda>a.
          Option.bind (parse_datetime parse_time t) (\<lambda>t. Option.bind (json_as_str n) (\<lambda>n.
          Option.bind (json_as_str h) (\<lambda>h. Option.bind (parse_proof parse_time pf) (\<lambda>pf.
          Some \<lparr>sr_request_id = i, sr_protocol_version = pv, sr_purpose = p, sr_method = m,
                sr_path = pa, sr_aud = a, sr_request_timestamp = t, sr_request_nonce = n,
                sr_body_hash = h, sr_proof = pf\<rparr>))))))))))
      | _ \<Rightarrow> None)"

definition parse_issue_payload :: "(string \<Rightarrow> datetime option) \<Rightarrow> json \<Rightarrow> issue_payload option" where
  "parse_issue_payload parse_time v =
     (case struct_fields [required ''subjectDid'', required ''role'', required ''didDocument'',
             required ''didDocumentStableHash'', with_default ''authorizedDomains'' (JArray []),
             optional ''endpoint''] v of
        Some [s, r, d, h, az, e] \<Rightarrow>
          Option.bind (json_as_str s) (\<lambda>s. Option.bind (json_as_str r) (\<lambda>r.
          Option.bind (parse_did_document parse_time d) (\<lambda>d. Option.bind (json_as_str h) (\<lambda>h.
          Option.bind (parse_strings az) (\<lambda>az. Option.bind (parse_option json_as_str e) (\<lambda>e.
          Some \<lparr>ip_subject_did = s, ip_role = r, ip_did_document = d,
                ip_did_document_stable_hash = h, ip_authorized_domains = az, ip_endpoint = e\<rparr>))))))
      | _ \<Rightarrow> None)"

definition parse_issue_request :: "(string \<Rightarrow> datetime option) \<Rightarrow> json \<Rightarrow> issue_request option" where
  "parse_issue_request parse_time v =
     (case struct_fields [required ''payload'', required ''upstreamAuth''] v of
        Some [p, e] \<Rightarrow>
          Option.bind (parse_issue_payload parse_time p) (\<lambda>p.
          Option.bind (parse_signed_envelope parse_time e) (\<lambda>e.
          Some \<lparr>iq_payload = p, iq_upstream_auth = e\<rparr>))
      | _ \<Rightarrow> None)"

definition parse_root_proof :: "(string \<Rightarrow> datetime option) \<Rightarrow> json \<Rightarrow> root_proof option" where
  "parse_root_proof parse_time v =
     (case struct_fields (required ''rootDid'' # map optional [''bulletinEventHash'', ''signature'',
             ''packageClaims'', ''proof'', ''cryptoSuite'', ''hashAlgorithm'']) v of
        Some [d, e, s, c, p, a, h] \<Rightarrow>
          Option.bind (json_as_str d) (\<lambda>d. Option.bind (parse_option json_as_str e) (\<lambda>e.
          Option.bind (parse_option json_as_str s) (\<lambda>s. Option.bind (parse_option Some c) (\<lambda>c.
          Option.bind (parse_option (parse_proof parse_time) p) (\<lambda>p.
          Option.bind (parse_option parse_suite a) (\<lambda>a. Option.bind (parse_option json_as_str h) (\<lambda>h.
          Some \<lparr>rp_root_did = d, rp_bulletin_event_hash = e, rp_signature = s, rp_package_claims = c,
                rp_proof = p, rp_crypto_suite = a, rp_hash_algorithm = h\<rparr>)))))))
      | _ \<Rightarrow> None)"

definition parse_resource_metadata ::
  "(string \<Rightarrow> datetime option) \<Rightarrow> json \<Rightarrow> resource_metadata option" where
  "parse_resource_metadata parse_time v =
     (case struct_fields (map required [''resourceDid'', ''resourceType'', ''subjectType'']
             @ map optional [''publisherDid'', ''subjectDid'']
             @ [required ''name'', with_default ''description'' (JString [])]
             @ map (\<lambda>k. with_default k (JArray []))
                 [''capabilityTags'', ''authorizedDomains'', ''protocolBindings'', ''services'']
             @ map required [''lifecycleState'', ''packageVersion'', ''packageHash'', ''metadataHash'',
                 ''hashAlgorithm'', ''updatedAt'']) v of
        Some [rd, rt, st, pd, sd, n, d, ct, az, pb, se, ls, pv, ph, mh, ha, u] \<Rightarrow>
          Option.bind (json_as_str rd) (\<lambda>rd. Option.bind (parse_resource_type rt) (\<lambda>rt.
          Option.bind (parse_variant subject_type_of_text st) (\<lambda>st.
          Option.bind (parse_option json_as_str pd) (\<lambda>pd. Option.bind (parse_option json_as_str sd) (\<lambda>sd.
          Option.bind (json_as_str n) (\<lambda>n. Option.bind (json_as_str d) (\<lambda>d.
          Option.bind (parse_strings ct) (\<lambda>ct. Option.bind (parse_strings az) (\<lambda>az.
          Option.bind (json_as_array pb) (\<lambda>pb. Option.bind (parse_array parse_service se) (\<lambda>se.
          Option.bind (json_as_str ls) (\<lambda>ls. Option.bind (json_as_str pv) (\<lambda>pv.
          Option.bind (json_as_str ph) (\<lambda>ph. Option.bind (json_as_str mh) (\<lambda>mh.
          Option.bind (json_as_str ha) (\<lambda>ha. Option.bind (parse_datetime parse_time u) (\<lambda>u.
          Some \<lparr>rm_resource_did = rd, rm_resource_type = rt, rm_subject_type = st,
                rm_publisher_did = pd, rm_subject_did = sd, rm_name = n, rm_description = d,
                rm_capability_tags = ct, rm_authorized_domains = az, rm_protocol_bindings = pb,
                rm_services = se, rm_lifecycle_state = ls, rm_package_version = pv,
                rm_package_hash = ph, rm_metadata_hash = mh, rm_hash_algorithm = ha,
                rm_updated_at = u\<rparr>)))))))))))))))))
      | _ \<Rightarrow> None)"

definition parse_resource_package ::
  "(string \<Rightarrow> datetime option) \<Rightarrow> json \<Rightarrow> resource_package option" where
  "parse_resource_package parse_time v =
     (case struct_fields (map required [''packageVersion'', ''resourceDid'', ''resourceType'', ''didDocument'']
             @ [with_default ''didDocumentRaw'' JNull]
             @ map required [''didDocumentHash'', ''metadataHash'', ''packageHash'', ''hashAlgorithm'',
                 ''metadata'', ''rootProof'', ''createdAt'']) v of
        Some [pv, rd, rt, d, raw, dh, mh, ph, ha, m, rp, c] \<Rightarrow>
          Option.bind (json_as_str pv) (\<lambda>pv. Option.bind (json_as_str rd) (\<lambda>rd.
          Option.bind (parse_resource_type rt) (\<lambda>rt. Option.bind (parse_did_document parse_time d) (\<lambda>d.
          Option.bind (parse_option Some raw) (\<lambda>raw. Option.bind (json_as_str dh) (\<lambda>dh.
          Option.bind (json_as_str mh) (\<lambda>mh. Option.bind (json_as_str ph) (\<lambda>ph.
          Option.bind (json_as_str ha) (\<lambda>ha. Option.bind (parse_resource_metadata parse_time m) (\<lambda>m.
          Option.bind (parse_root_proof parse_time rp) (\<lambda>rp.
          Option.bind (parse_datetime parse_time c) (\<lambda>c.
          Some \<lparr>pk_package_version = pv, pk_resource_did = rd, pk_resource_type = rt,
                pk_did_document = d, pk_did_document_raw = raw, pk_did_document_hash = dh,
                pk_metadata_hash = mh, pk_package_hash = ph, pk_hash_algorithm = ha,
                pk_metadata = m, pk_root_proof = rp, pk_created_at = c\<rparr>))))))))))))
      | _ \<Rightarrow> None)"

section \<open>Reading what was written\<close>

definition package_readable :: "resource_package \<Rightarrow> bool" where
  "package_readable p \<longleftrightarrow> document_readable (pk_did_document p)
     \<and> pk_did_document_raw p \<noteq> Some JNull \<and> rp_package_claims (pk_root_proof p) \<noteq> Some JNull"

lemma parse_signed_envelope_inverse:
  assumes "\<And>t. parse_time (time_text X t) = Some t"
  shows "parse_signed_envelope parse_time (signed_envelope_json X e) = Some e"
  unfolding parse_signed_envelope_def signed_envelope_json_def
  by (subst struct_fields_object) (simp_all add: field_values reads assms parse_proof_inverse)

lemma parse_issue_payload_inverse:
  assumes "\<And>t. parse_time (time_text X t) = Some t" and "document_readable (ip_did_document p)"
    and "issue_payload_json X p = Some v"
  shows "parse_issue_payload parse_time v = Some p"
proof -
  obtain d where d: "did_document_json X (ip_did_document p) = Some d"
    using assms(3) by (auto simp: issue_payload_json_def)
  note v = assms(3) [unfolded issue_payload_json_def d option.map option.inject, symmetric]
  show ?thesis
    unfolding v parse_issue_payload_def
    by (subst struct_fields_object)
      (simp_all add: field_values reads parse_did_document_inverse [OF assms(1,2) d])
qed

lemma parse_issue_request_inverse:
  assumes "\<And>t. parse_time (time_text X t) = Some t"
    and "document_readable (ip_did_document (iq_payload r))" and "issue_request_json X r = Some v"
  shows "parse_issue_request parse_time v = Some r"
proof -
  obtain p where p: "issue_payload_json X (iq_payload r) = Some p"
    using assms(3) by (auto simp: issue_request_json_def)
  note v = assms(3) [unfolded issue_request_json_def p option.map option.inject, symmetric]
  show ?thesis
    unfolding v parse_issue_request_def
    by (subst struct_fields_object)
      (simp_all add: field_values parse_issue_payload_inverse [OF assms(1,2) p]
        parse_signed_envelope_inverse assms(1))
qed

lemma parse_root_proof_inverse:
  assumes "\<And>t. parse_time (time_text X t) = Some t" and "rp_package_claims p \<noteq> Some JNull"
  shows "parse_root_proof parse_time (root_proof_json X p) = Some p"
proof -
  have "parse_option (parse_proof parse_time) (nullable (proof_json X) (rp_proof p)) = Some (rp_proof p)"
    by (rule parse_option_nullable) (simp add: parse_proof_inverse assms(1))
  then show ?thesis
    unfolding parse_root_proof_def root_proof_json_def
    by (subst struct_fields_object) (simp_all add: field_values reads assms(2))
qed

lemma parse_resource_metadata_inverse:
  assumes "\<And>t. parse_time (time_text X t) = Some t" and "resource_metadata_json X m = Some v"
  shows "parse_resource_metadata parse_time v = Some m"
proof -
  obtain subject where subject: "subject_type_text (rm_subject_type m) = Some subject"
    using assms(2) by (auto simp: resource_metadata_json_def)
  note v = assms(2) [unfolded resource_metadata_json_def subject option.map option.inject, symmetric]
  have services: "parse_array parse_service (JArray (map service_json (rm_services m))) = Some (rm_services m)"
    by (intro parse_array_inverse parse_service_inverse)
  show ?thesis
    unfolding v parse_resource_metadata_def
    by (subst struct_fields_object)
      (simp_all add: field_values reads services subject_type_of_text_inverse [OF subject] assms(1))
qed

lemma parse_resource_package_inverse:
  assumes "\<And>t. parse_time (time_text X t) = Some t" and "package_readable p"
    and "resource_package_json X p = Some v"
  shows "parse_resource_package parse_time v = Some p"
proof -
  obtain d m where d: "did_document_json X (pk_did_document p) = Some d"
    and m: "resource_metadata_json X (pk_metadata p) = Some m"
    using assms(3) by (auto simp: resource_package_json_def bind_eq_Some_conv)
  note v = assms(3) [unfolded resource_package_json_def d m Option.bind_lunit option.inject, symmetric]
  have readable: "document_readable (pk_did_document p)" "pk_did_document_raw p \<noteq> Some JNull"
    "rp_package_claims (pk_root_proof p) \<noteq> Some JNull"
    using assms(2) by (simp_all add: package_readable_def)
  show ?thesis
    unfolding v parse_resource_package_def
    by (subst struct_fields_object)
      (simp_all add: field_values reads readable(2) assms(1)
        parse_did_document_inverse [OF assms(1) readable(1) d] parse_resource_metadata_inverse [OF assms(1) m]
        parse_root_proof_inverse [OF assms(1) readable(3)])
qed

section \<open>Properties\<close>

text \<open>
  Packages and authorisation requests survive the wire: what is written for one is read as the same
  value, document, proofs and envelope included, when its JSON values are not null and no flattened
  member shadows a field.
\<close>

theorem wire_roundtrip:
  assumes "\<forall>t. parse_time (time_text X t) = Some t"
  shows "(package_readable p \<and> resource_package_json X p = Some v \<longrightarrow>
            parse_resource_package parse_time v = Some p)
    \<and> (document_readable (ip_did_document (iq_payload r)) \<and> issue_request_json X r = Some w \<longrightarrow>
         parse_issue_request parse_time w = Some r)"
  using parse_resource_package_inverse [of parse_time X p v]
    parse_issue_request_inverse [of parse_time X r w] assms by blast

lemma demo_package_readable:
  "package_readable demo_package"
  "\<exists>v. resource_package_json demo_externs demo_package = Some v"
proof -
  have "case resource_package_json demo_externs demo_package of None \<Rightarrow> False | Some v \<Rightarrow> True"
    by code_simp
  then show "\<exists>v. resource_package_json demo_externs demo_package = Some v" by (simp split: option.splits)
  have "pk_did_document_raw demo_package = None" "rp_package_claims (pk_root_proof demo_package) = None"
    by (simp_all add: demo_package_def Let_def)
  then show "package_readable demo_package"
    by (simp add: package_readable_def demo_package_simps demo_document_readable)
qed

theorem wire_roundtrip_witness:
  "\<exists>v. resource_package_json demo_externs demo_package = Some v
     \<and> parse_resource_package demo_parse_time v = Some demo_package"
proof -
  obtain v where "resource_package_json demo_externs demo_package = Some v"
    using demo_package_readable(2) by blast
  then show ?thesis
    using wire_roundtrip [of demo_parse_time demo_externs demo_package v] demo_parse_time_text
      demo_package_readable(1) by blast
qed

definition demo_issue :: issue_payload where
  "demo_issue = \<lparr>ip_subject_did = demo_did, ip_role = ''registrar'', ip_did_document = demo_document,
     ip_did_document_stable_hash = ''h'', ip_authorized_domains = [''legal''], ip_endpoint = None\<rparr>"

text \<open>
  C13. A signed request stands for one body: two authorisation requests that are accepted under one
  envelope of one signer, at whatever times and under whatever policies, are equal in every member,
  down to the DID Document, or their payloads are a hash collision.
\<close>

theorem issue_request_binds_payload:
  assumes "quote_ok X" and "\<forall>t. parse_time (time_text X t) = Some t"
    and "verify_signed_request_envelope X wr f e (issue_payload_json X p) did d policy now = (g, Inr c)"
    and "verify_signed_request_envelope X wr' f' e (issue_payload_json X q) did d policy' now' = (g', Inr c')"
    and "document_readable (ip_did_document p)" and "document_readable (ip_did_document q)"
    and "\<forall>v. issue_payload_json X p = Some v \<or> issue_payload_json X q = Some v \<longrightarrow> json_ok v"
  shows "p = q
    \<or> (\<exists>v w. issue_payload_json X p = Some v \<and> issue_payload_json X q = Some w \<and> collision X v w)"
proof -
  obtain v w where vw: "issue_payload_json X p = Some v" "issue_payload_json X q = Some w"
    using accepted_body_hash [OF assms(3)] accepted_body_hash [OF assms(4)] by (auto simp: hash_json_Inr)
  then have "v = w \<or> collision X v w"
    using accepted_bodies_agree [OF assms(1) assms(3,4) [unfolded vw]] assms(7) by blast
  moreover have "p = q" if "v = w"
  proof -
    have "parse_issue_payload parse_time v = Some p" "parse_issue_payload parse_time w = Some q"
      using assms(2,5,6) vw by (blast intro: parse_issue_payload_inverse)+
    with that show ?thesis by simp
  qed
  ultimately show ?thesis using vw by blast
qed

text \<open>
  The concrete digest keeps the first bytes of the text only: two payloads with different roles are
  accepted under one envelope, and collide.
\<close>

definition demo_issue_2 :: issue_payload where
  "demo_issue_2 = demo_issue\<lparr>ip_role := ''discovery''\<rparr>"

lemma demo_payloads:
  "case issue_payload_json demo_externs demo_issue of None \<Rightarrow> False
   | Some v \<Rightarrow> (case issue_payload_json demo_externs demo_issue_2 of None \<Rightarrow> False
     | Some w \<Rightarrow> json_ok v \<and> json_ok w
         \<and> hash_hex demo_externs Ed25519Sha256 (canonical_json_value demo_externs w)
           = hash_hex demo_externs Ed25519Sha256 (canonical_json_value demo_externs v))"
  by code_simp

theorem issue_request_binds_payload_witness:
  "\<exists>v w. issue_payload_json demo_externs demo_issue = Some v
     \<and> issue_payload_json demo_externs demo_issue_2 = Some w \<and> collision demo_externs v w"
proof -
  obtain v w where vw: "issue_payload_json demo_externs demo_issue = Some v"
      "issue_payload_json demo_externs demo_issue_2 = Some w"
    and ok: "json_ok v" "json_ok w"
    and hash: "hash_hex demo_externs Ed25519Sha256 (canonical_json_value demo_externs w)
      = hash_hex demo_externs Ed25519Sha256 (canonical_json_value demo_externs v)"
    using demo_payloads by (auto split: option.splits)
  have now: "(0::int) \<le> 5" "(5::int) \<le> seconds 60" by (simp_all add: seconds_def)
  note accepted = demo_accepted [OF refl now, of v, folded vw(1)] demo_accepted [OF hash now, folded vw(2)]
  have times: "\<forall>t. demo_parse_time (time_text demo_externs t) = Some t"
    by (simp add: demo_parse_time_text)
  have readable: "document_readable (ip_did_document demo_issue)"
      "document_readable (ip_did_document demo_issue_2)"
    by (simp_all add: demo_issue_def demo_issue_2_def demo_document_readable)
  have json: "\<forall>v. issue_payload_json demo_externs demo_issue = Some v
      \<or> issue_payload_json demo_externs demo_issue_2 = Some v \<longrightarrow> json_ok v"
    using vw ok by auto
  have "demo_issue \<noteq> demo_issue_2" by (simp add: demo_issue_def demo_issue_2_def)
  with issue_request_binds_payload [OF demo_externs_quote times accepted readable json]
  show ?thesis by blast
qed

end
