(* ===== verification/Submission.thy ===== *)
theory Submission
  imports Wire
begin

text \<open>
  The messages of a registration as the services receive them (\<open>crates/oan-protocol\<close>): challenges,
  proofs of control and of authorisation, the submission, the request to publish it, and the query for
  the credential. Their readers undo the writers, so what a registrar and the root check is what the
  subject and its controller have signed.
\<close>

section \<open>Readers\<close>

definition parse_did_control_challenge ::
  "(string \<Rightarrow> datetime option) \<Rightarrow> json \<Rightarrow> did_control_challenge option" where
  "parse_did_control_challenge parse_time v =
     (case struct_fields (map required [''challengeId'', ''draftId'', ''subjectDid'',
         ''didDocumentHash'', ''registrarDid'', ''purpose'', ''verificationMethod'', ''nonce'',
         ''issuedAt'', ''expiresAt'']) v of
        Some [ci, di, sd, ddh, rd, p, vm, n, ia, ea] \<Rightarrow>
          Option.bind (json_as_str ci) (\<lambda>ci. Option.bind (json_as_str di) (\<lambda>di.
          Option.bind (json_as_str sd) (\<lambda>sd. Option.bind (json_as_str ddh) (\<lambda>ddh.
          Option.bind (json_as_str rd) (\<lambda>rd. Option.bind (json_as_str p) (\<lambda>p.
          Option.bind (json_as_str vm) (\<lambda>vm. Option.bind (json_as_str n) (\<lambda>n.
          Option.bind (parse_datetime parse_time ia) (\<lambda>ia.
          Option.bind (parse_datetime parse_time ea) (\<lambda>ea.
          Some \<lparr>dc_challenge_id = ci, dc_draft_id = di, dc_subject_did = sd,
                dc_did_document_hash = ddh, dc_registrar_did = rd, dc_purpose = p,
                dc_verification_method = vm, dc_nonce = n, dc_issued_at = ia, dc_expires_at = ea\<rparr>))))))))))
      | _ \<Rightarrow> None)"

definition parse_subject_control ::
  "(string \<Rightarrow> datetime option) \<Rightarrow> json \<Rightarrow> subject_control_proof_bundle option" where
  "parse_subject_control parse_time v =
     (case struct_fields (map required [''challenge'', ''proof''] @ map optional [''verifiedAt'',
         ''verifiedVerificationMethod'', ''proofHash'']) v of
        Some [c, p, va, vvm, ph] \<Rightarrow>
          Option.bind (parse_did_control_challenge parse_time c) (\<lambda>c.
          Option.bind (parse_proof parse_time p) (\<lambda>p.
          Option.bind (parse_option (parse_datetime parse_time) va) (\<lambda>va.
          Option.bind (parse_option json_as_str vvm) (\<lambda>vvm.
          Option.bind (parse_option json_as_str ph) (\<lambda>ph.
          Some \<lparr>sb_challenge = c, sb_proof = p, sb_verified_at = va,
                sb_verified_verification_method = vvm, sb_proof_hash = ph\<rparr>)))))
      | _ \<Rightarrow> None)"

definition parse_controller_challenge ::
  "(string \<Rightarrow> datetime option) \<Rightarrow> json \<Rightarrow> controller_authorization_challenge option" where
  "parse_controller_challenge parse_time v =
     (case struct_fields (map required [''challengeId'', ''resourceDid'', ''controllerDid''] @
         [optional ''publisherDid''] @ map required [''didDocumentHash'', ''metadataHash'',
         ''registrarDid'', ''purpose'', ''verificationMethod'', ''nonce'', ''issuedAt'',
         ''expiresAt'']) v of
        Some [ci, rd, cd, pd, ddh, mh, rd2, p, vm, n, ia, ea] \<Rightarrow>
          Option.bind (json_as_str ci) (\<lambda>ci. Option.bind (json_as_str rd) (\<lambda>rd.
          Option.bind (json_as_str cd) (\<lambda>cd.
          Option.bind (parse_option json_as_str pd) (\<lambda>pd.
          Option.bind (json_as_str ddh) (\<lambda>ddh. Option.bind (json_as_str mh) (\<lambda>mh.
          Option.bind (json_as_str rd2) (\<lambda>rd2. Option.bind (json_as_str p) (\<lambda>p.
          Option.bind (json_as_str vm) (\<lambda>vm. Option.bind (json_as_str n) (\<lambda>n.
          Option.bind (parse_datetime parse_time ia) (\<lambda>ia.
          Option.bind (parse_datetime parse_time ea) (\<lambda>ea.
          Some \<lparr>cc_challenge_id = ci, cc_resource_did = rd, cc_controller_did = cd,
                cc_publisher_did = pd, cc_did_document_hash = ddh, cc_metadata_hash = mh,
                cc_registrar_did = rd2, cc_purpose = p, cc_verification_method = vm, cc_nonce = n,
                cc_issued_at = ia, cc_expires_at = ea\<rparr>))))))))))))
      | _ \<Rightarrow> None)"

definition parse_controller_bundle ::
  "(string \<Rightarrow> datetime option) \<Rightarrow> json \<Rightarrow> controller_authorization_proof_bundle option" where
  "parse_controller_bundle parse_time v =
     (case struct_fields (map required [''challenge'', ''controllerDidDocument'', ''proof'']) v of
        Some [c, cdd, p] \<Rightarrow>
          Option.bind (parse_controller_challenge parse_time c) (\<lambda>c.
          Option.bind (parse_did_document parse_time cdd) (\<lambda>cdd.
          Option.bind (parse_proof parse_time p) (\<lambda>p.
          Some \<lparr>cb_challenge = c, cb_controller_did_document = cdd, cb_proof = p\<rparr>)))
      | _ \<Rightarrow> None)"

definition parse_query_challenge ::
  "(string \<Rightarrow> datetime option) \<Rightarrow> json \<Rightarrow> registration_credential_query_challenge option" where
  "parse_query_challenge parse_time v =
     (case struct_fields (map required [''method'', ''path'', ''resourceDid'', ''controllerDid'',
         ''verificationMethod'', ''purpose'', ''requestTimestamp'', ''requestNonce'', ''aud'',
         ''protocolVersion''] @ [optional ''bodyHash'']) v of
        Some [m, p, rd, cd, vm, p2, rt, rn, a, pv, bh] \<Rightarrow>
          Option.bind (json_as_str m) (\<lambda>m. Option.bind (json_as_str p) (\<lambda>p.
          Option.bind (json_as_str rd) (\<lambda>rd. Option.bind (json_as_str cd) (\<lambda>cd.
          Option.bind (json_as_str vm) (\<lambda>vm. Option.bind (json_as_str p2) (\<lambda>p2.
          Option.bind (parse_datetime parse_time rt) (\<lambda>rt.
          Option.bind (json_as_str rn) (\<lambda>rn. Option.bind (json_as_str a) (\<lambda>a.
          Option.bind (json_as_str pv) (\<lambda>pv.
          Option.bind (parse_option json_as_str bh) (\<lambda>bh.
          Some \<lparr>qc_method = m, qc_path = p, qc_resource_did = rd, qc_controller_did = cd,
                qc_verification_method = vm, qc_purpose = p2, qc_request_timestamp = rt,
                qc_request_nonce = rn, qc_aud = a, qc_protocol_version = pv, qc_body_hash = bh\<rparr>)))))))))))
      | _ \<Rightarrow> None)"

definition query_request_json :: "externs \<Rightarrow> registration_credential_query_request \<Rightarrow> json option" where
  "query_request_json X r = map_option (\<lambda>d. json_object
     [(''challenge'', query_challenge_json X (qr_challenge r)), (''controllerDidDocument'', d),
      (''proof'', proof_json X (qr_proof r))])
     (did_document_json X (qr_controller_did_document r))"

definition parse_query_request ::
  "(string \<Rightarrow> datetime option) \<Rightarrow> json \<Rightarrow> registration_credential_query_request option" where
  "parse_query_request parse_time v =
     (case struct_fields (map required [''challenge'', ''controllerDidDocument'', ''proof'']) v of
        Some [c, cdd, p] \<Rightarrow>
          Option.bind (parse_query_challenge parse_time c) (\<lambda>c.
          Option.bind (parse_did_document parse_time cdd) (\<lambda>cdd.
          Option.bind (parse_proof parse_time p) (\<lambda>p.
          Some \<lparr>qr_challenge = c, qr_controller_did_document = cdd, qr_proof = p\<rparr>)))
      | _ \<Rightarrow> None)"

definition parse_submission ::
  "(string \<Rightarrow> datetime option) \<Rightarrow> json \<Rightarrow> resource_registration_submission option" where
  "parse_submission parse_time v =
     (case struct_fields (map required [''resourceDid'', ''resourceType'', ''didDocument'',
         ''didDocumentHash'', ''metadata'', ''packageVersion'', ''packageHash'', ''metadataHash'',
         ''hashAlgorithm''] @ [with_default ''registrationCredential'' JNull] @ [required
         ''subjectControlProof''] @ [optional ''controllerAuthorizationProof'']) v of
        Some [rd, rt, dd, ddh, m, pv, ph, mh, ha, rc, scp, cap] \<Rightarrow>
          Option.bind (json_as_str rd) (\<lambda>rd.
          Option.bind (parse_resource_type rt) (\<lambda>rt.
          Option.bind (parse_did_document parse_time dd) (\<lambda>dd.
          Option.bind (json_as_str ddh) (\<lambda>ddh. Option.bind (json_as_str pv) (\<lambda>pv.
          Option.bind (json_as_str ph) (\<lambda>ph. Option.bind (json_as_str mh) (\<lambda>mh.
          Option.bind (json_as_str ha) (\<lambda>ha.
          Option.bind (parse_subject_control parse_time scp) (\<lambda>scp.
          Option.bind (parse_option (parse_controller_bundle parse_time) cap) (\<lambda>cap.
          Some \<lparr>sub_resource_did = rd, sub_resource_type = rt, sub_did_document = dd,
                sub_did_document_hash = ddh, sub_metadata = m, sub_package_version = pv,
                sub_package_hash = ph, sub_metadata_hash = mh, sub_hash_algorithm = ha,
                sub_registration_credential = rc, sub_subject_control_proof = scp,
                sub_controller_authorization_proof = cap\<rparr>))))))))))
      | _ \<Rightarrow> None)"

definition parse_verify_and_publish ::
  "(string \<Rightarrow> datetime option) \<Rightarrow> json \<Rightarrow> verify_and_publish_request option" where
  "parse_verify_and_publish parse_time v =
     (case struct_fields (map required [''registrarDid'', ''submission''] @ [with_default
         ''didDocumentRaw'' JNull] @ [required ''upstreamAuth'']) v of
        Some [rd, s, ddr, ua] \<Rightarrow>
          Option.bind (json_as_str rd) (\<lambda>rd.
          Option.bind (parse_submission parse_time s) (\<lambda>s.
          Option.bind (parse_option Some ddr) (\<lambda>ddr.
          Option.bind (parse_signed_envelope parse_time ua) (\<lambda>ua.
          Some \<lparr>vq_registrar_did = rd, vq_submission = s, vq_did_document_raw = ddr,
                vq_upstream_auth = ua\<rparr>))))
      | _ \<Rightarrow> None)"

section \<open>Reading what was written\<close>

lemma parse_did_control_challenge_inverse:
  assumes "\<And>t. parse_time (time_text X t) = Some t"
  shows "parse_did_control_challenge parse_time (did_control_challenge_json X c) = Some c"
  unfolding parse_did_control_challenge_def did_control_challenge_json_def
  by (subst struct_fields_object) (simp_all add: field_values reads assms)

lemma parse_subject_control_inverse:
  assumes "\<And>t. parse_time (time_text X t) = Some t"
  shows "parse_subject_control parse_time (subject_control_json X c) = Some c"
  unfolding parse_subject_control_def subject_control_json_def
  by (subst struct_fields_object) (simp_all add: field_values reads assms parse_did_control_challenge_inverse parse_proof_inverse)

lemma parse_controller_challenge_inverse:
  assumes "\<And>t. parse_time (time_text X t) = Some t"
  shows "parse_controller_challenge parse_time (controller_challenge_json X c) = Some c"
  unfolding parse_controller_challenge_def controller_challenge_json_def
  by (subst struct_fields_object) (simp_all add: field_values reads assms)

lemma parse_query_challenge_inverse:
  assumes "\<And>t. parse_time (time_text X t) = Some t"
  shows "parse_query_challenge parse_time (query_challenge_json X c) = Some c"
  unfolding parse_query_challenge_def query_challenge_json_def
  by (subst struct_fields_object) (simp_all add: field_values reads assms)

lemma parse_controller_bundle_inverse:
  assumes "\<And>t. parse_time (time_text X t) = Some t" and "document_readable (cb_controller_did_document b)"
    and "controller_bundle_json X b = Some v"
  shows "parse_controller_bundle parse_time v = Some b"
proof -
  obtain d where d: "did_document_json X (cb_controller_did_document b) = Some d"
    using assms(3) by (auto simp: controller_bundle_json_def)
  note v = assms(3) [unfolded controller_bundle_json_def d option.map option.inject, symmetric]
  show ?thesis
    unfolding v parse_controller_bundle_def
    by (subst struct_fields_object)
      (simp_all add: field_values parse_controller_challenge_inverse parse_proof_inverse assms(1)
        parse_did_document_inverse [OF assms(1,2) d])
qed

lemma parse_query_request_inverse:
  assumes "\<And>t. parse_time (time_text X t) = Some t" and "document_readable (qr_controller_did_document b)"
    and "query_request_json X b = Some v"
  shows "parse_query_request parse_time v = Some b"
proof -
  obtain d where d: "did_document_json X (qr_controller_did_document b) = Some d"
    using assms(3) by (auto simp: query_request_json_def)
  note v = assms(3) [unfolded query_request_json_def d option.map option.inject, symmetric]
  show ?thesis
    unfolding v parse_query_request_def
    by (subst struct_fields_object)
      (simp_all add: field_values parse_query_challenge_inverse parse_proof_inverse assms(1)
        parse_did_document_inverse [OF assms(1,2) d])
qed

definition submission_readable :: "resource_registration_submission \<Rightarrow> bool" where
  "submission_readable s \<longleftrightarrow> document_readable (sub_did_document s)
     \<and> pred_option (\<lambda>b. document_readable (cb_controller_did_document b))
         (sub_controller_authorization_proof s)"

lemma parse_submission_inverse:
  assumes "\<And>t. parse_time (time_text X t) = Some t" and "submission_readable s"
    and "submission_json X s = Some v"
  shows "parse_submission parse_time v = Some s"
proof -
  let ?written = "case sub_controller_authorization_proof s of
      None \<Rightarrow> Some None | Some b \<Rightarrow> map_option Some (controller_bundle_json X b)"
  obtain d auth where d: "did_document_json X (sub_did_document s) = Some d" and auth: "?written = Some auth"
    using assms(3) by (auto simp: submission_json_def bind_eq_Some_conv)
  note v = assms(3) [unfolded submission_json_def d auth Option.bind_lunit option.inject, symmetric]
  have readable: "document_readable (sub_did_document s)" using assms(2) by (simp add: submission_readable_def)
  have authorised: "parse_option (parse_controller_bundle parse_time) (nullable (\<lambda>j. j) auth)
      = Some (sub_controller_authorization_proof s)"
  proof (cases "sub_controller_authorization_proof s")
    case None
    then show ?thesis using auth by (auto simp: nullable_def)
  next
    case (Some b)
    then obtain j where j: "controller_bundle_json X b = Some j" "auth = Some j" using auth by auto
    then have "j \<noteq> JNull" by (auto simp: controller_bundle_json_def)
    moreover have "document_readable (cb_controller_did_document b)"
      using assms(2) Some by (simp add: submission_readable_def)
    ultimately show ?thesis
      using parse_controller_bundle_inverse [OF assms(1) _ j(1)] Some j(2)
      by (simp add: parse_option_def nullable_def)
  qed
  show ?thesis
    unfolding v parse_submission_def
    by (subst struct_fields_object)
      (simp_all add: field_values reads authorised parse_subject_control_inverse assms(1)
        parse_did_document_inverse [OF assms(1) readable d])
qed

lemma parse_verify_and_publish_inverse:
  assumes "\<And>t. parse_time (time_text X t) = Some t" and "submission_readable (vq_submission r)"
    and "vq_did_document_raw r \<noteq> Some JNull" and "verify_and_publish_json X r = Some v"
  shows "parse_verify_and_publish parse_time v = Some r"
proof -
  obtain s where s: "submission_json X (vq_submission r) = Some s"
    using assms(4) by (auto simp: verify_and_publish_json_def)
  note v = assms(4) [unfolded verify_and_publish_json_def s option.map option.inject, symmetric]
  show ?thesis
    unfolding v parse_verify_and_publish_def
    by (subst struct_fields_object)
      (simp_all add: field_values reads assms(1,3) parse_signed_envelope_inverse
        parse_submission_inverse [OF assms(1,2) s])
qed

end
