(* ===== verification/Delivery.thy ===== *)
theory Delivery
  imports Submission
begin

text \<open>
  The readers of the remaining messages of \<open>crates/oan-protocol\<close>: requests to authorise nodes,
  publication to the CDN and its index, pages, discovery, notifications and invocations; and the round
  trip of all signed requests.
\<close>

section \<open>Values\<close>

text \<open>An \<open>i64\<close>; and an \<open>f32\<close>, whose reader rounds a number to one, and never reads \<open>null\<close>.\<close>

definition parse_int64 :: "json \<Rightarrow> 64 word option" where
  "parse_int64 v =
     (case v of
        JNumber (JInt i) \<Rightarrow> if - (2 ^ 63) \<le> i \<and> i < 2 ^ 63 then Some (word_of_int i) else None
      | _ \<Rightarrow> None)"

definition parse_score :: "(jnum \<Rightarrow> jnum option) \<Rightarrow> json \<Rightarrow> jnum option option" where
  "parse_score as_f32 v = (case v of JNumber n \<Rightarrow> Some (as_f32 n) | _ \<Rightarrow> None)"

lemma parse_int64_inverse [reads]: "parse_int64 (JNumber (JInt (sint w))) = Some w"
  using sint_range_size [of w] by (simp add: parse_int64_def word_size)

section \<open>Readers\<close>

definition parse_node_authorize ::
  "(string \<Rightarrow> datetime option) \<Rightarrow> json \<Rightarrow> node_authorize_request option" where
  "parse_node_authorize parse_time v =
     (case struct_fields (map required [''nodeDid'', ''nodeRole'', ''didDocument'']) v of
        Some [nd, nr, dd] \<Rightarrow>
          Option.bind (json_as_str nd) (\<lambda>nd. Option.bind (json_as_str nr) (\<lambda>nr.
          Option.bind (parse_did_document parse_time dd) (\<lambda>dd.
          Some \<lparr>na_node_did = nd, na_node_role = nr, na_did_document = dd\<rparr>)))
      | _ \<Rightarrow> None)"

definition parse_discovery_authorize ::
  "(string \<Rightarrow> datetime option) \<Rightarrow> json \<Rightarrow> discovery_authorize_request option" where
  "parse_discovery_authorize parse_time v =
     (case struct_fields (map required [''discoveryDid'', ''didDocument'', ''endpoint''] @
         [with_default ''authorizedDomains'' (JArray [])]) v of
        Some [dd, dd2, e, ad] \<Rightarrow>
          Option.bind (json_as_str dd) (\<lambda>dd.
          Option.bind (parse_did_document parse_time dd2) (\<lambda>dd2.
          Option.bind (json_as_str e) (\<lambda>e. Option.bind (parse_strings ad) (\<lambda>ad.
          Some \<lparr>da_discovery_did = dd, da_did_document = dd2, da_endpoint = e,
                da_authorized_domains = ad\<rparr>))))
      | _ \<Rightarrow> None)"

definition parse_resource_register ::
  "(string \<Rightarrow> datetime option) \<Rightarrow> json \<Rightarrow> resource_register_request option" where
  "parse_resource_register parse_time v =
     (case struct_fields (map required [''resourceDid'', ''resourceType'', ''didDocument'',
         ''metadata'', ''signature'']) v of
        Some [rd, rt, dd, m, s] \<Rightarrow>
          Option.bind (json_as_str rd) (\<lambda>rd.
          Option.bind (parse_resource_type rt) (\<lambda>rt.
          Option.bind (parse_did_document parse_time dd) (\<lambda>dd.
          Option.bind (json_as_str s) (\<lambda>s.
          Some \<lparr>rr_resource_did = rd, rr_resource_type = rt, rr_did_document = dd,
                rr_metadata = m, rr_signature = s\<rparr>))))
      | _ \<Rightarrow> None)"

definition parse_root_authorize ::
  "(string \<Rightarrow> datetime option) \<Rightarrow> json \<Rightarrow> root_authorize_request option" where
  "parse_root_authorize parse_time v =
     (case struct_fields (map required [''targetDid'', ''targetRole'', ''didDocument'']) v of
        Some [td, tr, dd] \<Rightarrow>
          Option.bind (json_as_str td) (\<lambda>td. Option.bind (json_as_str tr) (\<lambda>tr.
          Option.bind (parse_did_document parse_time dd) (\<lambda>dd.
          Some \<lparr>ra_target_did = td, ra_target_role = tr, ra_did_document = dd\<rparr>)))
      | _ \<Rightarrow> None)"

definition parse_query_response ::
  "json \<Rightarrow> registration_credential_query_response option" where
  "parse_query_response v =
     (case struct_fields (map required [''resourceDid'', ''controllerDid'',
         ''registrationCredential'']) v of
        Some [rd, cd, rc] \<Rightarrow>
          Option.bind (json_as_str rd) (\<lambda>rd. Option.bind (json_as_str cd) (\<lambda>cd.
          Some \<lparr>qp_resource_did = rd, qp_controller_did = cd, qp_registration_credential = rc\<rparr>))
      | _ \<Rightarrow> None)"

definition parse_cdn_publish ::
  "(string \<Rightarrow> datetime option) \<Rightarrow> json \<Rightarrow> cdn_publish_request option" where
  "parse_cdn_publish parse_time v =
     (case struct_fields (map required [''package'', ''upstreamAuth'']) v of
        Some [p, ua] \<Rightarrow>
          Option.bind (parse_resource_package parse_time p) (\<lambda>p.
          Option.bind (parse_signed_envelope parse_time ua) (\<lambda>ua.
          Some \<lparr>cp_package = p, cp_upstream_auth = ua\<rparr>))
      | _ \<Rightarrow> None)"

definition parse_cdn_batch_item ::
  "(string \<Rightarrow> datetime option) \<Rightarrow> json \<Rightarrow> cdn_publish_batch_item option" where
  "parse_cdn_batch_item parse_time v =
     (case struct_fields (map required [''publicationCursor'', ''package'']) v of
        Some [pc, p] \<Rightarrow>
          Option.bind (parse_int64 pc) (\<lambda>pc.
          Option.bind (parse_resource_package parse_time p) (\<lambda>p.
          Some \<lparr>cb_publication_cursor = pc, cb_package = p\<rparr>))
      | _ \<Rightarrow> None)"

definition parse_cdn_batch_publish ::
  "(string \<Rightarrow> datetime option) \<Rightarrow> json \<Rightarrow> cdn_batch_publish_request option" where
  "parse_cdn_batch_publish parse_time v =
     (case struct_fields (map required [''items'', ''upstreamAuth'']) v of
        Some [i, ua] \<Rightarrow>
          Option.bind (parse_array (parse_cdn_batch_item parse_time) i) (\<lambda>i.
          Option.bind (parse_signed_envelope parse_time ua) (\<lambda>ua.
          Some \<lparr>bp_items = i, bp_upstream_auth = ua\<rparr>))
      | _ \<Rightarrow> None)"

definition parse_cdn_index_item ::
  "(string \<Rightarrow> datetime option) \<Rightarrow> json \<Rightarrow> cdn_index_item option" where
  "parse_cdn_index_item parse_time v =
     (case struct_fields (map required [''cursor'', ''package'']) v of
        Some [c, p] \<Rightarrow>
          Option.bind (parse_int64 c) (\<lambda>c.
          Option.bind (parse_resource_package parse_time p) (\<lambda>p.
          Some \<lparr>ci_cursor = c, ci_package = p\<rparr>))
      | _ \<Rightarrow> None)"

definition parse_cdn_index_response ::
  "(string \<Rightarrow> datetime option) \<Rightarrow> json \<Rightarrow> cdn_index_response option" where
  "parse_cdn_index_response parse_time v =
     (case struct_fields (map required [''items'', ''count'', ''afterCursor'', ''nextCursor'',
         ''hasMore'']) v of
        Some [i, c, ac, nc, hm] \<Rightarrow>
          Option.bind (parse_array (parse_cdn_index_item parse_time) i) (\<lambda>i.
          Option.bind (parse_word c) (\<lambda>c. Option.bind (parse_int64 ac) (\<lambda>ac.
          Option.bind (parse_int64 nc) (\<lambda>nc. Option.bind (json_as_bool hm) (\<lambda>hm.
          Some \<lparr>cx_items = i, cx_count = c, cx_after_cursor = ac, cx_next_cursor = nc,
                cx_has_more = hm\<rparr>)))))
      | _ \<Rightarrow> None)"

definition parse_pagination_response ::
  "(json \<Rightarrow> 'a option) \<Rightarrow> json \<Rightarrow> 'a pagination_response option" where
  "parse_pagination_response p v =
     (case struct_fields (map required [''items'', ''count''] @ [optional ''nextCursor''] @
         [required ''hasMore'']) v of
        Some [i, c, nc, hm] \<Rightarrow>
          Option.bind (parse_array p i) (\<lambda>i. Option.bind (parse_word c) (\<lambda>c.
          Option.bind (parse_option json_as_str nc) (\<lambda>nc.
          Option.bind (json_as_bool hm) (\<lambda>hm.
          Some \<lparr>pr_items = i, pr_count = c, pr_next_cursor = nc, pr_has_more = hm\<rparr>))))
      | _ \<Rightarrow> None)"

definition parse_discovery_candidate ::
  "(jnum \<Rightarrow> jnum option) \<Rightarrow> json \<Rightarrow> discovery_candidate option" where
  "parse_discovery_candidate as_f32 v =
     (case struct_fields (map required [''resourceDid'', ''resourceType'', ''score''] @ map
         optional [''version'', ''lifecycleState''] @ [with_default ''capabilityTags'' (JArray
         [])] @ [with_default ''authorizedDomains'' (JArray [])] @ [with_default ''services''
         (JArray [])] @ [with_default ''protocolBindings'' (JArray [])] @ map optional
         [''packageInfo'', ''rootProof'']) v of
        Some [rd, rt, s, v2, ls, ct, ad, s2, pb, pi, rp] \<Rightarrow>
          Option.bind (json_as_str rd) (\<lambda>rd.
          Option.bind (parse_resource_type rt) (\<lambda>rt.
          Option.bind (parse_score as_f32 s) (\<lambda>s.
          Option.bind (parse_option json_as_str v2) (\<lambda>v2.
          Option.bind (parse_option json_as_str ls) (\<lambda>ls.
          Option.bind (parse_strings ct) (\<lambda>ct. Option.bind (parse_strings ad) (\<lambda>ad.
          Option.bind (parse_array parse_service s2) (\<lambda>s2.
          Option.bind (json_as_array pb) (\<lambda>pb.
          Option.bind (parse_option Some pi) (\<lambda>pi.
          Option.bind (parse_option Some rp) (\<lambda>rp.
          Some \<lparr>dn_resource_did = rd, dn_resource_type = rt, dn_score = s, dn_version = v2,
                dn_lifecycle_state = ls, dn_capability_tags = ct, dn_authorized_domains = ad,
                dn_services = s2, dn_protocol_bindings = pb, dn_package_info = pi, dn_root_proof = rp\<rparr>)))))))))))
      | _ \<Rightarrow> None)"

definition parse_discovery_response ::
  "(jnum \<Rightarrow> jnum option) \<Rightarrow> (string \<Rightarrow> datetime option) \<Rightarrow> json \<Rightarrow> discovery_response option" where
  "parse_discovery_response as_f32 parse_time v =
     (case struct_fields (map required [''discoveryDid'', ''candidates'', ''createdAt''] @
         [optional ''proof'']) v of
        Some [dd, c, ca, p] \<Rightarrow>
          Option.bind (json_as_str dd) (\<lambda>dd.
          Option.bind (parse_array (parse_discovery_candidate as_f32) c) (\<lambda>c.
          Option.bind (parse_datetime parse_time ca) (\<lambda>ca.
          Option.bind (parse_option (parse_proof parse_time) p) (\<lambda>p.
          Some \<lparr>dr_discovery_did = dd, dr_candidates = c, dr_created_at = ca, dr_proof = p\<rparr>))))
      | _ \<Rightarrow> None)"

definition parse_batch_notification ::
  "json \<Rightarrow> batch_notification option" where
  "parse_batch_notification v =
     (case struct_fields (map required [''notificationBatchId'', ''rootDid'',
         ''targetDiscoveryDid''] @ [with_default ''authorizedDomains'' (JArray [])] @ map required
         [''sequenceFrom'', ''sequenceTo'', ''items'', ''cdnManifestUrl'', ''cdnUpdatesUrl'',
         ''proof'']) v of
        Some [nbi, rd, tdd, ad, sf, st, i, cmu, cuu, p] \<Rightarrow>
          Option.bind (json_as_str nbi) (\<lambda>nbi. Option.bind (json_as_str rd) (\<lambda>rd.
          Option.bind (json_as_str tdd) (\<lambda>tdd. Option.bind (parse_strings ad) (\<lambda>ad.
          Option.bind (parse_word sf) (\<lambda>sf. Option.bind (parse_word st) (\<lambda>st.
          Option.bind (parse_array parse_notification_item i) (\<lambda>i.
          Option.bind (json_as_str cmu) (\<lambda>cmu. Option.bind (json_as_str cuu) (\<lambda>cuu.
          Some \<lparr>bn_notification_batch_id = nbi, bn_root_did = rd,
                bn_target_discovery_did = tdd, bn_authorized_domains = ad, bn_sequence_from = sf,
                bn_sequence_to = st, bn_items = i, bn_cdn_manifest_url = cmu,
                bn_cdn_updates_url = cuu, bn_proof = p\<rparr>)))))))))
      | _ \<Rightarrow> None)"

definition parse_invocation ::
  "(string \<Rightarrow> datetime option) \<Rightarrow> json \<Rightarrow> invocation_envelope option" where
  "parse_invocation parse_time v =
     (case struct_fields (map required [''id'', ''callerDid'', ''targetDid'', ''protocol'',
         ''payload'', ''createdAt'', ''signature'']) v of
        Some [i, cd, td, p, p2, ca, s] \<Rightarrow>
          Option.bind (json_as_str i) (\<lambda>i. Option.bind (json_as_str cd) (\<lambda>cd.
          Option.bind (json_as_str td) (\<lambda>td. Option.bind (json_as_str p) (\<lambda>p.
          Option.bind (parse_datetime parse_time ca) (\<lambda>ca.
          Option.bind (json_as_str s) (\<lambda>s.
          Some \<lparr>iv_id = i, iv_caller_did = cd, iv_target_did = td, iv_protocol = p,
                iv_payload = p2, iv_created_at = ca, iv_signature = s\<rparr>))))))
      | _ \<Rightarrow> None)"

section \<open>Reading what was written\<close>

lemma parse_node_authorize_inverse:
  assumes "\<And>t. parse_time (time_text X t) = Some t" and "document_readable (na_did_document r)" and "node_authorize_json X r = Some v"
  shows "parse_node_authorize parse_time v = Some r"
proof -
  obtain d where d: "did_document_json X (na_did_document r) = Some d"
    using assms(3) by (auto simp: node_authorize_json_def)
  note v = assms(3) [unfolded node_authorize_json_def d option.map option.inject, symmetric]
  show ?thesis
    unfolding v parse_node_authorize_def
    by (subst struct_fields_object)
      (simp_all add: field_values reads parse_did_document_inverse [OF assms(1,2) d])
qed

lemma parse_discovery_authorize_inverse:
  assumes "\<And>t. parse_time (time_text X t) = Some t" and "document_readable (da_did_document r)" and "discovery_authorize_json X r = Some v"
  shows "parse_discovery_authorize parse_time v = Some r"
proof -
  obtain d where d: "did_document_json X (da_did_document r) = Some d"
    using assms(3) by (auto simp: discovery_authorize_json_def)
  note v = assms(3) [unfolded discovery_authorize_json_def d option.map option.inject, symmetric]
  show ?thesis
    unfolding v parse_discovery_authorize_def
    by (subst struct_fields_object)
      (simp_all add: field_values reads parse_did_document_inverse [OF assms(1,2) d])
qed

lemma parse_resource_register_inverse:
  assumes "\<And>t. parse_time (time_text X t) = Some t" and "document_readable (rr_did_document r)" and "resource_register_json X r = Some v"
  shows "parse_resource_register parse_time v = Some r"
proof -
  obtain d where d: "did_document_json X (rr_did_document r) = Some d"
    using assms(3) by (auto simp: resource_register_json_def)
  note v = assms(3) [unfolded resource_register_json_def d option.map option.inject, symmetric]
  show ?thesis
    unfolding v parse_resource_register_def
    by (subst struct_fields_object)
      (simp_all add: field_values reads parse_did_document_inverse [OF assms(1,2) d])
qed

lemma parse_root_authorize_inverse:
  assumes "\<And>t. parse_time (time_text X t) = Some t" and "document_readable (ra_did_document r)" and "root_authorize_json X r = Some v"
  shows "parse_root_authorize parse_time v = Some r"
proof -
  obtain d where d: "did_document_json X (ra_did_document r) = Some d"
    using assms(3) by (auto simp: root_authorize_json_def)
  note v = assms(3) [unfolded root_authorize_json_def d option.map option.inject, symmetric]
  show ?thesis
    unfolding v parse_root_authorize_def
    by (subst struct_fields_object)
      (simp_all add: field_values reads parse_did_document_inverse [OF assms(1,2) d])
qed

lemma parse_query_response_inverse: "parse_query_response (query_response_json r) = Some r"
  unfolding parse_query_response_def query_response_json_def
  by (subst struct_fields_object) (simp_all add: field_values reads)

lemma parse_cdn_publish_inverse:
  assumes "\<And>t. parse_time (time_text X t) = Some t" and "package_readable (cp_package r)" and "cdn_publish_json X r = Some v"
  shows "parse_cdn_publish parse_time v = Some r"
proof -
  obtain p where p: "resource_package_json X (cp_package r) = Some p"
    using assms(3) by (auto simp: cdn_publish_json_def)
  note v = assms(3) [unfolded cdn_publish_json_def p option.map option.inject, symmetric]
  show ?thesis
    unfolding v parse_cdn_publish_def
    by (subst struct_fields_object)
      (simp_all add: field_values reads parse_resource_package_inverse [OF assms(1,2) p]
        parse_signed_envelope_inverse assms(1))
qed

lemma parse_cdn_batch_item_inverse:
  assumes "\<And>t. parse_time (time_text X t) = Some t" and "package_readable (cb_package r)" and "cdn_batch_item_json X r = Some v"
  shows "parse_cdn_batch_item parse_time v = Some r"
proof -
  obtain p where p: "resource_package_json X (cb_package r) = Some p"
    using assms(3) by (auto simp: cdn_batch_item_json_def)
  note v = assms(3) [unfolded cdn_batch_item_json_def p option.map option.inject, symmetric]
  show ?thesis
    unfolding v parse_cdn_batch_item_def
    by (subst struct_fields_object)
      (simp_all add: field_values reads parse_resource_package_inverse [OF assms(1,2) p])
qed

lemma parse_cdn_index_item_inverse:
  assumes "\<And>t. parse_time (time_text X t) = Some t" and "package_readable (ci_package r)" and "cdn_index_item_json X r = Some v"
  shows "parse_cdn_index_item parse_time v = Some r"
proof -
  obtain p where p: "resource_package_json X (ci_package r) = Some p"
    using assms(3) by (auto simp: cdn_index_item_json_def)
  note v = assms(3) [unfolded cdn_index_item_json_def p option.map option.inject, symmetric]
  show ?thesis
    unfolding v parse_cdn_index_item_def
    by (subst struct_fields_object)
      (simp_all add: field_values reads parse_resource_package_inverse [OF assms(1,2) p])
qed

lemma parse_array_written:
  assumes "all_some (map f xs) = Some vs" and "\<And>x v. x \<in> set xs \<Longrightarrow> f x = Some v \<Longrightarrow> p v = Some x"
  shows "parse_array p (JArray vs) = Some xs"
proof -
  have "all_some (map p vs) = Some xs"
    using assms by (induction xs arbitrary: vs) (auto simp: bind_eq_Some_conv)
  then show ?thesis by (simp add: parse_array_def json_as_array_def)
qed

lemma parse_cdn_batch_publish_inverse:
  assumes "\<And>t. parse_time (time_text X t) = Some t" and "\<forall>i \<in> set (bp_items r). package_readable (cb_package i)"
    and "cdn_batch_publish_json X r = Some v"
  shows "parse_cdn_batch_publish parse_time v = Some r"
proof -
  obtain items where items: "all_some (map (cdn_batch_item_json X) (bp_items r)) = Some items"
    using assms(3) by (auto simp: cdn_batch_publish_json_def)
  note v = assms(3) [unfolded cdn_batch_publish_json_def items option.map option.inject, symmetric]
  have read: "parse_array (parse_cdn_batch_item parse_time) (JArray items) = Some (bp_items r)"
    by (rule parse_array_written [OF items]) (use assms(1,2) parse_cdn_batch_item_inverse in blast)
  show ?thesis
    unfolding v parse_cdn_batch_publish_def
    by (subst struct_fields_object)
      (simp_all add: field_values read parse_signed_envelope_inverse assms(1))
qed

lemma parse_cdn_index_response_inverse:
  assumes "\<And>t. parse_time (time_text X t) = Some t" and "\<forall>i \<in> set (cx_items r). package_readable (ci_package i)"
    and "cdn_index_response_json X r = Some v"
  shows "parse_cdn_index_response parse_time v = Some r"
proof -
  obtain items where items: "all_some (map (cdn_index_item_json X) (cx_items r)) = Some items"
    using assms(3) by (auto simp: cdn_index_response_json_def)
  note v = assms(3) [unfolded cdn_index_response_json_def items option.map option.inject, symmetric]
  have read: "parse_array (parse_cdn_index_item parse_time) (JArray items) = Some (cx_items r)"
    by (rule parse_array_written [OF items]) (use assms(1,2) parse_cdn_index_item_inverse in blast)
  show ?thesis
    unfolding v parse_cdn_index_response_def
    by (subst struct_fields_object) (simp_all add: field_values reads read)
qed

lemma parse_pagination_response_inverse:
  assumes "\<And>x. x \<in> set (pr_items r) \<Longrightarrow> p (f x) = Some x"
  shows "parse_pagination_response p (pagination_response_json f r) = Some r"
proof -
  have read: "parse_array p (JArray (map f (pr_items r))) = Some (pr_items r)"
    by (rule parse_array_inverse) (rule assms)
  show ?thesis
    unfolding parse_pagination_response_def pagination_response_json_def
    by (subst struct_fields_object) (simp_all add: field_values reads read)
qed

lemma parse_batch_notification_inverse: "parse_batch_notification (batch_notification_json n) = Some n"
proof -
  have read: "parse_array parse_notification_item (JArray (map notification_item_json (bn_items n)))
      = Some (bn_items n)"
    by (rule parse_array_inverse) (rule parse_notification_item_inverse)
  show ?thesis
    unfolding parse_batch_notification_def batch_notification_json_def
    by (subst struct_fields_object) (simp_all add: field_values reads read)
qed

lemma parse_invocation_inverse:
  assumes "\<And>t. parse_time (time_text X t) = Some t"
  shows "parse_invocation parse_time (invocation_json X e) = Some e"
  unfolding parse_invocation_def invocation_json_def
  by (subst struct_fields_object) (simp_all add: field_values reads assms)

text \<open>
  A candidate is read back when its score is a number that an \<open>f32\<close> prints. A score that is not finite
  is written as \<open>null\<close>, and the response that holds it cannot be read.
\<close>

definition candidate_readable :: "(jnum \<Rightarrow> jnum option) \<Rightarrow> discovery_candidate \<Rightarrow> bool" where
  "candidate_readable as_f32 c \<longleftrightarrow> (\<exists>n. dn_score c = Some n \<and> as_f32 n = Some n)
     \<and> dn_package_info c \<noteq> Some JNull \<and> dn_root_proof c \<noteq> Some JNull"

lemma parse_discovery_candidate_inverse:
  assumes "candidate_readable as_f32 c"
  shows "parse_discovery_candidate as_f32 (discovery_candidate_json c) = Some c"
proof -
  obtain n where n: "dn_score c = Some n" "as_f32 n = Some n" and "dn_package_info c \<noteq> Some JNull"
    "dn_root_proof c \<noteq> Some JNull" using assms by (auto simp: candidate_readable_def)
  moreover have "parse_score as_f32 (nullable JNumber (dn_score c)) = Some (dn_score c)"
    using n by (simp add: parse_score_def nullable_def)
  moreover have "parse_array parse_service (JArray (map service_json (dn_services c))) = Some (dn_services c)"
    by (intro parse_array_inverse parse_service_inverse)
  ultimately show ?thesis
    unfolding parse_discovery_candidate_def discovery_candidate_json_def
    by (subst struct_fields_object) (simp_all add: field_values reads)
qed

lemma unscored_candidate_unreadable:
  assumes "dn_score c = None"
  shows "parse_discovery_candidate as_f32 (discovery_candidate_json c) = None"
  unfolding parse_discovery_candidate_def discovery_candidate_json_def
  by (subst struct_fields_object)
    (simp_all add: field_values reads assms parse_score_def nullable_def)

lemma parse_discovery_response_inverse:
  assumes "\<And>t. parse_time (time_text X t) = Some t" and "list_all (candidate_readable as_f32) (dr_candidates r)"
  shows "parse_discovery_response as_f32 parse_time (discovery_response_json X r) = Some r"
proof -
  have "parse_array (parse_discovery_candidate as_f32)
      (JArray (map discovery_candidate_json (dr_candidates r))) = Some (dr_candidates r)"
    by (rule parse_array_inverse, rule parse_discovery_candidate_inverse)
      (use assms(2) in \<open>auto simp: list_all_iff\<close>)
  moreover have "parse_option (parse_proof parse_time) (nullable (proof_json X) (dr_proof r)) = Some (dr_proof r)"
    by (rule parse_option_nullable) (simp add: parse_proof_inverse assms(1))
  ultimately show ?thesis
    unfolding parse_discovery_response_def discovery_response_json_def
    by (subst struct_fields_object) (simp_all add: field_values reads assms(1))
qed

section \<open>Properties\<close>

text \<open>
  C36. The messages between the services survive the wire: the request for an authorisation credential, the
  request to publish a registration, the batch for the CDN, the query for a credential, the response
  of a discovery and the notification of it are read as they were written, when no JSON value
  is a null where none is read, no flattened member shadows a field, and all scores are numbers.
\<close>

theorem protocol_roundtrip:
  assumes "\<forall>t. parse_time (time_text X t) = Some t"
  shows "(document_readable (ip_did_document (iq_payload q)) \<and> issue_request_json X q = Some v \<longrightarrow>
            parse_issue_request parse_time v = Some q)
    \<and> (submission_readable (vq_submission s) \<and> vq_did_document_raw s \<noteq> Some JNull
         \<and> verify_and_publish_json X s = Some v \<longrightarrow> parse_verify_and_publish parse_time v = Some s)
    \<and> ((\<forall>i \<in> set (bp_items b). package_readable (cb_package i)) \<and> cdn_batch_publish_json X b = Some v \<longrightarrow>
         parse_cdn_batch_publish parse_time v = Some b)
    \<and> (document_readable (qr_controller_did_document c) \<and> query_request_json X c = Some v \<longrightarrow>
         parse_query_request parse_time v = Some c)
    \<and> (list_all (candidate_readable as_f32) (dr_candidates r) \<longrightarrow>
         parse_discovery_response as_f32 parse_time (discovery_response_json X r) = Some r)
    \<and> parse_batch_notification (batch_notification_json n) = Some n"
proof (intro conjI impI)
  show "parse_batch_notification (batch_notification_json n) = Some n"
    by (rule parse_batch_notification_inverse)
qed (use assms in \<open>auto intro!: parse_issue_request_inverse parse_verify_and_publish_inverse
    parse_cdn_batch_publish_inverse parse_query_request_inverse parse_discovery_response_inverse\<close>)

definition demo_publish :: verify_and_publish_request where
  "demo_publish = \<lparr>vq_registrar_did = demo_did, vq_submission = demo_submission, vq_did_document_raw = None,
     vq_upstream_auth = demo_envelope\<rparr>"

definition demo_batch :: cdn_batch_publish_request where
  "demo_batch = \<lparr>bp_items = [\<lparr>cb_publication_cursor = - 1, cb_package = demo_package\<rparr>],
     bp_upstream_auth = demo_envelope\<rparr>"

theorem protocol_roundtrip_witness:
  "(\<exists>v. verify_and_publish_json demo_externs demo_publish = Some v
      \<and> parse_verify_and_publish demo_parse_time v = Some demo_publish)
   \<and> (\<exists>v. cdn_batch_publish_json demo_externs demo_batch = Some v
      \<and> parse_cdn_batch_publish demo_parse_time v = Some demo_batch)"
proof -
  have times: "\<forall>t. demo_parse_time (time_text demo_externs t) = Some t"
    by (simp add: demo_parse_time_text)
  obtain d where "did_document_json demo_externs demo_document = Some d"
    using did_document_json_None_iff [of demo_externs demo_document]
    by (cases "did_document_json demo_externs demo_document") (auto simp: demo_document_def demo_metadata_def)
  then have "\<exists>v. verify_and_publish_json demo_externs demo_publish = Some v"
    by (simp add: verify_and_publish_json_def submission_json_def demo_publish_def demo_submission_def)
  moreover have "submission_readable demo_submission"
    by (simp add: submission_readable_def demo_submission_def demo_document_readable)
  moreover have "\<exists>v. cdn_batch_publish_json demo_externs demo_batch = Some v"
    using demo_package_readable(2)
    by (auto simp: cdn_batch_publish_json_def cdn_batch_item_json_def demo_batch_def)
  moreover have "\<forall>i \<in> set (bp_items demo_batch). package_readable (cb_package i)"
    using demo_package_readable(1) by (simp add: demo_batch_def)
  ultimately show ?thesis
    using protocol_roundtrip [OF times, of _ _ demo_publish demo_batch]
    by (auto simp: demo_publish_def)
qed

end
