(* ===== verification/NonceLock.thy ===== *)
theory NonceLock
  imports Security
begin

text \<open>
  Nonce checks that run at the same time (\<open>verify_and_store_nonce\<close> and \<open>nonce_store_lock\<close> of
  \<open>oan-service-security\<close>). A call clones the mutex of its path from the registry, locks it, reads the
  file, writes it, and unlocks when it returns; between any two of these steps other calls may
  step. \<open>Security\<close> has a call as one function on the file: here this is proved of the interleaved
  steps. Threads are numbers, a mutex is the number of its entry in the registry, and \<open>file_of\<close>
  tells which file a path leads to. No code that runs under a lock panics, so none is poisoned.
\<close>

section \<open>The steps of a call\<close>

record nonce_call =
  nc_path :: string
  nc_nonce :: string
  nc_seen_at :: datetime
  nc_now :: datetime
  nc_ttl_seconds :: int
  nc_write :: write_outcome

text \<open>The registry: \<open>or_insert_with\<close> makes a mutex for a path that has none.\<close>

definition nonce_store_lock :: "string \<Rightarrow> (string \<times> nat) list \<Rightarrow> (string \<times> nat) list \<times> nat" where
  "nonce_store_lock path registry =
     (case map_of registry path of
        Some lock \<Rightarrow> (registry, lock)
      | None \<Rightarrow> (btree_insert path (length registry) registry, length registry))"

datatype progress =
    Started
  | Cloned nat
  | Guarded nat
  | Loaded nat nonce_store
  | Decided nat "string + unit"
  | Returned "string + unit"

record 'f lock_state =
  ls_registry :: "(string \<times> nat) list"
  ls_held :: "nat \<Rightarrow> nat option"
  ls_files :: "'f \<Rightarrow> nonce_file"
  ls_progress :: "nat \<Rightarrow> progress"

text \<open>Reading the store, and what follows the reading.\<close>

definition read_nonces :: "nonce_file \<Rightarrow> nonce_store option" where
  "read_nonces file = (case file of NoFile \<Rightarrow> Some [] | Unreadable \<Rightarrow> None | Nonces m \<Rightarrow> Some m)"

definition settle_nonce ::
  "nonce_call \<Rightarrow> nonce_store \<Rightarrow> nonce_file \<Rightarrow> nonce_file \<times> (string + unit)" where
  "settle_nonce c m file =
     (case store_nonce m (nc_nonce c) (nc_seen_at c) (nc_now c) (nc_ttl_seconds c) of
        Inl e \<Rightarrow> (file, Inl e)
      | Inr m' \<Rightarrow> after_write (nc_write c) file m')"

inductive lock_step ::
  "(string \<Rightarrow> 'f) \<Rightarrow> (nat \<Rightarrow> nonce_call) \<Rightarrow> 'f lock_state \<Rightarrow> 'f lock_state \<Rightarrow> bool"
  for file_of calls where
  clone_lock:
    "ls_progress s t = Started \<Longrightarrow>
     nonce_store_lock (nc_path (calls t)) (ls_registry s) = (registry, l) \<Longrightarrow>
     lock_step file_of calls s
       (s\<lparr>ls_registry := registry, ls_progress := (ls_progress s)(t := Cloned l)\<rparr>)"
| take_lock:
    "ls_progress s t = Cloned l \<Longrightarrow> ls_held s l = None \<Longrightarrow>
     lock_step file_of calls s
       (s\<lparr>ls_held := (ls_held s)(l \<mapsto> t), ls_progress := (ls_progress s)(t := Guarded l)\<rparr>)"
| load_nonces:
    "ls_progress s t = Guarded l \<Longrightarrow>
     read_nonces (ls_files s (file_of (nc_path (calls t)))) = Some m \<Longrightarrow>
     lock_step file_of calls s (s\<lparr>ls_progress := (ls_progress s)(t := Loaded l m)\<rparr>)"
| load_fails:
    "ls_progress s t = Guarded l \<Longrightarrow>
     read_nonces (ls_files s (file_of (nc_path (calls t)))) = None \<Longrightarrow>
     lock_step file_of calls s
       (s\<lparr>ls_progress := (ls_progress s)(t := Decided l (Inl ''invalid_nonce_store''))\<rparr>)"
| settle:
    "ls_progress s t = Loaded l m \<Longrightarrow>
     settle_nonce (calls t) m (ls_files s (file_of (nc_path (calls t)))) = (file, r) \<Longrightarrow>
     lock_step file_of calls s
       (s\<lparr>ls_files := (ls_files s)(file_of (nc_path (calls t)) := file),
          ls_progress := (ls_progress s)(t := Decided l r)\<rparr>)"
| drop_lock:
    "ls_progress s t = Decided l r \<Longrightarrow>
     lock_step file_of calls s
       (s\<lparr>ls_held := (ls_held s)(l := None), ls_progress := (ls_progress s)(t := Returned r)\<rparr>)"

definition lock_start :: "('f \<Rightarrow> nonce_file) \<Rightarrow> 'f lock_state" where
  "lock_start files =
     \<lparr>ls_registry = [], ls_held = (\<lambda>_. None), ls_files = files, ls_progress = (\<lambda>_. Started)\<rparr>"

text \<open>The same as a function: the step of one thread, and a schedule of threads that step if they can.\<close>

definition thread_step ::
  "(string \<Rightarrow> 'f) \<Rightarrow> (nat \<Rightarrow> nonce_call) \<Rightarrow> nat \<Rightarrow> 'f lock_state \<Rightarrow> 'f lock_state option" where
  "thread_step file_of calls t s =
     (let c = calls t; at = file_of (nc_path c); go = (\<lambda>p. (ls_progress s)(t := p)) in
      case ls_progress s t of
        Started \<Rightarrow> (case nonce_store_lock (nc_path c) (ls_registry s) of
          (registry, l) \<Rightarrow> Some (s\<lparr>ls_registry := registry, ls_progress := go (Cloned l)\<rparr>))
      | Cloned l \<Rightarrow>
          if ls_held s l = None
          then Some (s\<lparr>ls_held := (ls_held s)(l \<mapsto> t), ls_progress := go (Guarded l)\<rparr>) else None
      | Guarded l \<Rightarrow> (case read_nonces (ls_files s at) of
          Some m \<Rightarrow> Some (s\<lparr>ls_progress := go (Loaded l m)\<rparr>)
        | None \<Rightarrow> Some (s\<lparr>ls_progress := go (Decided l (Inl ''invalid_nonce_store''))\<rparr>))
      | Loaded l m \<Rightarrow> (case settle_nonce c m (ls_files s at) of
          (file, r) \<Rightarrow> Some (s\<lparr>ls_files := (ls_files s)(at := file), ls_progress := go (Decided l r)\<rparr>))
      | Decided l r \<Rightarrow> Some (s\<lparr>ls_held := (ls_held s)(l := None), ls_progress := go (Returned r)\<rparr>)
      | Returned r \<Rightarrow> None)"

fun run_schedule ::
  "(string \<Rightarrow> 'f) \<Rightarrow> (nat \<Rightarrow> nonce_call) \<Rightarrow> nat list \<Rightarrow> 'f lock_state \<Rightarrow> 'f lock_state" where
  "run_schedule file_of calls [] s = s"
| "run_schedule file_of calls (t # ts) s =
     run_schedule file_of calls ts (case thread_step file_of calls t s of Some s' \<Rightarrow> s' | None \<Rightarrow> s)"

lemma lock_step_iff_thread_step:
  "lock_step file_of calls s s' \<longleftrightarrow> (\<exists>t. thread_step file_of calls t s = Some s')"
proof
  assume "lock_step file_of calls s s'"
  then show "\<exists>t. thread_step file_of calls t s = Some s'"
  proof cases
    case (clone_lock t registry l)
    then show ?thesis by (intro exI [of _ t]) (simp add: thread_step_def)
  next
    case (take_lock t l)
    then show ?thesis by (intro exI [of _ t]) (simp add: thread_step_def)
  next
    case (load_nonces t l m)
    then show ?thesis by (intro exI [of _ t]) (simp add: thread_step_def)
  next
    case (load_fails t l)
    then show ?thesis by (intro exI [of _ t]) (simp add: thread_step_def)
  next
    case (settle t l m f r)
    then show ?thesis by (intro exI [of _ t]) (simp add: thread_step_def)
  next
    case (drop_lock t l r)
    then show ?thesis by (intro exI [of _ t]) (simp add: thread_step_def)
  qed
next
  assume "\<exists>t. thread_step file_of calls t s = Some s'"
  then obtain t where step: "thread_step file_of calls t s = Some s'" by blast
  show "lock_step file_of calls s s'"
  proof (cases "ls_progress s t")
    case Started
    with step show ?thesis by (auto simp: thread_step_def Let_def split: prod.split_asm intro: lock_step.clone_lock)
  next
    case (Cloned l)
    with step show ?thesis by (auto simp: thread_step_def Let_def split: if_split_asm intro: lock_step.take_lock)
  next
    case (Guarded l)
    with step show ?thesis
      by (auto simp: thread_step_def Let_def split: option.split_asm intro: lock_step.load_nonces lock_step.load_fails)
  next
    case (Loaded l m)
    with step show ?thesis by (auto simp: thread_step_def Let_def split: prod.split_asm intro: lock_step.settle)
  next
    case (Decided l r)
    with step show ?thesis by (auto simp: thread_step_def Let_def intro: lock_step.drop_lock)
  qed (use step in \<open>simp add: thread_step_def\<close>)
qed

lemma run_schedule_reachable:
  "(lock_step file_of calls)\<^sup>*\<^sup>* s (run_schedule file_of calls ts s)"
proof (induction ts arbitrary: s)
  case (Cons t ts)
  show ?case
  proof (cases "thread_step file_of calls t s")
    case (Some s')
    then have "lock_step file_of calls s s'" by (auto simp: lock_step_iff_thread_step)
    with Cons [of s'] Some show ?thesis by (simp add: converse_rtranclp_into_rtranclp)
  qed (use Cons in simp)
qed simp

lemma thread_step_other: "thread_step file_of calls u s = Some s' \<Longrightarrow> u \<noteq> t \<Longrightarrow> ls_progress s' t = ls_progress s t"
  by (auto simp: thread_step_def Let_def
      split: progress.split_asm prod.split_asm option.split_asm if_split_asm)

lemma run_schedule_other:
  "t \<notin> set ts \<Longrightarrow> ls_progress (run_schedule file_of calls ts s) t = ls_progress s t"
  by (induction ts arbitrary: s) (auto simp: thread_step_other split: option.split)

section \<open>Calls one after the other\<close>

definition call_once ::
  "(string \<Rightarrow> 'f) \<Rightarrow> (nat \<Rightarrow> nonce_call) \<Rightarrow> nat
     \<Rightarrow> ('f \<Rightarrow> nonce_file) \<times> (nat \<Rightarrow> (string + unit) option)
     \<Rightarrow> ('f \<Rightarrow> nonce_file) \<times> (nat \<Rightarrow> (string + unit) option)" where
  "call_once file_of calls t state =
     (case state of (files, results) \<Rightarrow>
      let c = calls t; at = file_of (nc_path c);
          (file, r) = verify_and_store_nonce (nc_write c) (files at) (nc_nonce c) (nc_seen_at c)
            (nc_now c) (nc_ttl_seconds c)
      in (files(at := file), results(t \<mapsto> r)))"

lemma verify_and_store_nonce_settles:
  "verify_and_store_nonce (nc_write c) f (nc_nonce c) (nc_seen_at c) (nc_now c) (nc_ttl_seconds c) =
     (case read_nonces f of
        None \<Rightarrow> (f, Inl ''invalid_nonce_store'') | Some m \<Rightarrow> settle_nonce c m f)"
  by (cases f) (auto simp: verify_and_store_nonce_def read_nonces_def settle_nonce_def split: sum.split)

text \<open>What a call has decided, and the lock it has.\<close>

fun outcome :: "progress \<Rightarrow> (string + unit) option" where
  "outcome (Decided l r) = Some r"
| "outcome (Returned r) = Some r"
| "outcome _ = None"

fun lock_of :: "progress \<Rightarrow> nat option" where
  "lock_of (Cloned l) = Some l"
| "lock_of (Guarded l) = Some l"
| "lock_of (Loaded l m) = Some l"
| "lock_of (Decided l r) = Some l"
| "lock_of _ = None"

fun inside :: "progress \<Rightarrow> bool" where
  "inside (Guarded l) = True"
| "inside (Loaded l m) = True"
| "inside (Decided l r) = True"
| "inside _ = False"

fun_cases lock_of_SomeE: "lock_of p = Some l"
  and insideE: "inside p"

section \<open>The invariant\<close>

text \<open>The registry gives different paths different mutexes.\<close>

definition registry_ok :: "(string \<times> nat) list \<Rightarrow> bool" where
  "registry_ok m \<longleftrightarrow> sorted_wrt (<) (keys m) \<and> distinct (map snd m) \<and> (\<forall>l \<in> snd ` set m. l < length m)"

lemma registry_ok_inj:
  assumes "registry_ok m" and "map_of m p = Some l" and "map_of m q = Some l"
  shows "p = q"
proof -
  have "(p, l) \<in> set m" "(q, l) \<in> set m" using assms(2,3) by (auto dest: map_of_SomeD)
  with assms(1) show ?thesis
    by (auto simp: registry_ok_def distinct_map dest!: inj_onD [where x = "(p, l)" and y = "(q, l)"])
qed

lemma mset_btree_insert_new: "k \<notin> fst ` set m \<Longrightarrow> mset (btree_insert k v m) = add_mset (k, v) (mset m)"
  by (induction k v m rule: btree_insert.induct) auto

lemma nonce_store_lock_ok:
  assumes "nonce_store_lock p m = (m', l)" and "registry_ok m"
  shows "registry_ok m' \<and> map_of m' p = Some l \<and> (\<forall>q k. map_of m q = Some k \<longrightarrow> map_of m' q = Some k)"
proof (cases "map_of m p")
  case None
  then have new: "p \<notin> fst ` set m" by (simp add: map_of_eq_None_iff)
  have m': "m' = btree_insert p (length m) m" "l = length m"
    using assms(1) None by (auto simp: nonce_store_lock_def)
  have "mset (map snd m') = add_mset (length m) (mset (map snd m))"
    unfolding m' mset_map by (simp add: mset_btree_insert_new [OF new])
  then have "mset (map snd m') = mset (length m # map snd m)" by simp
  then have "distinct (map snd m') \<longleftrightarrow> distinct (length m # map snd m)"
    by (rule mset_eq_imp_distinct_iff)
  then have "distinct (map snd m')" using assms(2) by (auto simp: registry_ok_def)
  then show ?thesis
    using assms(2) None new
    by (auto simp: registry_ok_def m' map_of_btree_insert sorted_btree_insert
        set_btree_insert_new length_btree_insert_new less_Suc_eq)
qed (use assms in \<open>auto simp: nonce_store_lock_def\<close>)

text \<open>
  Who has a mutex: a thread that is inside, and the mutex is the one of its path. What a thread has
  loaded is what its file still holds. What has been decided is what the calls give one by one.
\<close>

definition held_inv ::
  "(nat \<Rightarrow> nonce_call) \<Rightarrow> (string \<times> nat) list \<Rightarrow> (nat \<Rightarrow> nat option) \<Rightarrow> (nat \<Rightarrow> progress) \<Rightarrow> bool" where
  "held_inv calls registry held pr \<longleftrightarrow>
     registry_ok registry
   \<and> (\<forall>t l. lock_of (pr t) = Some l \<longrightarrow> map_of registry (nc_path (calls t)) = Some l)
   \<and> (\<forall>t l. held l = Some t \<longleftrightarrow> inside (pr t) \<and> lock_of (pr t) = Some l)"

definition loaded_inv ::
  "(string \<Rightarrow> 'f) \<Rightarrow> (nat \<Rightarrow> nonce_call) \<Rightarrow> ('f \<Rightarrow> nonce_file) \<Rightarrow> (nat \<Rightarrow> progress) \<Rightarrow> bool" where
  "loaded_inv file_of calls files pr \<longleftrightarrow>
     (\<forall>t l m. pr t = Loaded l m \<longrightarrow> read_nonces (files (file_of (nc_path (calls t)))) = Some m)"

definition order_inv ::
  "(string \<Rightarrow> 'f) \<Rightarrow> (nat \<Rightarrow> nonce_call) \<Rightarrow> ('f \<Rightarrow> nonce_file) \<Rightarrow> ('f \<Rightarrow> nonce_file) \<Rightarrow> (nat \<Rightarrow> progress) \<Rightarrow> bool"
where
  "order_inv file_of calls start files pr \<longleftrightarrow>
     (\<exists>order. distinct order \<and> set order = {t. outcome (pr t) \<noteq> None}
        \<and> fold (call_once file_of calls) order (start, \<lambda>_. None) = (files, \<lambda>t. outcome (pr t)))"

definition lock_inv ::
  "(string \<Rightarrow> 'f) \<Rightarrow> (nat \<Rightarrow> nonce_call) \<Rightarrow> ('f \<Rightarrow> nonce_file) \<Rightarrow> 'f lock_state \<Rightarrow> bool" where
  "lock_inv file_of calls start s \<longleftrightarrow>
     held_inv calls (ls_registry s) (ls_held s) (ls_progress s)
   \<and> loaded_inv file_of calls (ls_files s) (ls_progress s)
   \<and> order_inv file_of calls start (ls_files s) (ls_progress s)"

lemma lock_inv_start: "lock_inv file_of calls files (lock_start files)"
  by (simp add: lock_inv_def held_inv_def loaded_inv_def order_inv_def lock_start_def registry_ok_def)

lemma held_same:
  assumes "held_inv calls registry held pr" and "lock_of p = lock_of (pr t)" and "inside p = inside (pr t)"
  shows "held_inv calls registry held (pr(t := p))"
  using assms unfolding held_inv_def by (auto split: if_split_asm)

lemma held_clone:
  assumes "held_inv calls registry held pr" and "\<not> inside (pr t)"
    and "nonce_store_lock (nc_path (calls t)) registry = (registry', l)"
  shows "held_inv calls registry' held (pr(t := Cloned l))"
proof -
  from assms(1) have "registry_ok registry" by (simp add: held_inv_def)
  from nonce_store_lock_ok [OF assms(3) this] assms(1,2) show ?thesis
    unfolding held_inv_def by (auto split: if_split_asm)
qed

lemma held_take:
  assumes "held_inv calls registry held pr" and "pr t = Cloned l" and "held l = None"
  shows "held_inv calls registry (held(l \<mapsto> t)) (pr(t := Guarded l))"
  using assms unfolding held_inv_def
  by (auto split: if_split_asm) (metis inside.simps(4) lock_of.simps(1) option.distinct(1))+

lemma held_drop:
  assumes "held_inv calls registry held pr" and "pr t = Decided l r"
  shows "held_inv calls registry (held(l := None)) (pr(t := Returned r))"
proof -
  from assms have l: "held l = Some t" by (simp add: held_inv_def)
  have alone: "u = t" if "inside (pr u)" "lock_of (pr u) = Some l" for u
  proof -
    from assms(1) that have "held l = Some u" by (simp add: held_inv_def)
    with l show ?thesis by simp
  qed
  from assms show ?thesis unfolding held_inv_def by (auto split: if_split_asm dest: alone)
qed

text \<open>One thread at a time is inside for a path.\<close>

lemma inside_alone:
  assumes "held_inv calls registry held pr" and "inside (pr t)" "inside (pr u)"
    and "nc_path (calls t) = nc_path (calls u)"
  shows "t = u"
proof -
  obtain l k where l: "lock_of (pr t) = Some l" "lock_of (pr u) = Some k"
    using assms(2,3) by (auto elim!: insideE)
  with assms(1,4) have "l = k" unfolding held_inv_def by (metis option.inject)
  with assms l show ?thesis unfolding held_inv_def by (metis option.inject)
qed

lemma loaded_other:
  assumes "loaded_inv file_of calls files pr" and "\<And>l m. p \<noteq> Loaded l m"
  shows "loaded_inv file_of calls files (pr(t := p))"
  using assms by (auto simp: loaded_inv_def)

lemma loaded_settle:
  assumes "loaded_inv file_of calls files pr" and "held_inv calls registry held pr" and "inside (pr t)"
    and inj: "\<And>t u. file_of (nc_path (calls t)) = file_of (nc_path (calls u)) \<Longrightarrow>
      nc_path (calls t) = nc_path (calls u)"
  shows "loaded_inv file_of calls (files(file_of (nc_path (calls t)) := f)) (pr(t := Decided l r))"
  unfolding loaded_inv_def
proof (intro allI impI)
  fix u k m
  assume u: "(pr(t := Decided l r)) u = Loaded k m"
  then have "u \<noteq> t" "inside (pr u)" by (auto split: if_split_asm)
  with inside_alone [OF assms(2,3)] inj
  have "file_of (nc_path (calls u)) \<noteq> file_of (nc_path (calls t))" by metis
  with assms(1) u \<open>u \<noteq> t\<close>
  show "read_nonces ((files(file_of (nc_path (calls t)) := f)) (file_of (nc_path (calls u)))) = Some m"
    by (simp add: loaded_inv_def)
qed

lemma order_same:
  assumes "order_inv file_of calls start files pr" and "outcome p = outcome (pr t)"
  shows "order_inv file_of calls start files (pr(t := p))"
proof -
  from assms(2) have "(\<lambda>u. outcome ((pr(t := p)) u)) = (\<lambda>u. outcome (pr u))" by auto
  then have "outcome ((pr(t := p)) u) = outcome (pr u)" for u by metis
  with assms(1) show ?thesis unfolding order_inv_def by simp
qed

text \<open>A call that decides comes last in the order.\<close>

lemma order_snoc:
  assumes "order_inv file_of calls start files pr" and "outcome (pr t) = None" and "outcome p = Some r"
    and "\<And>results. call_once file_of calls t (files, results) = (files', results(t \<mapsto> r))"
  shows "order_inv file_of calls start files' (pr(t := p))"
proof -
  from assms(1) obtain order where order: "distinct order" "set order = {t. outcome (pr t) \<noteq> None}"
    "fold (call_once file_of calls) order (start, \<lambda>_. None) = (files, \<lambda>t. outcome (pr t))"
    unfolding order_inv_def by blast
  have "(\<lambda>u. outcome ((pr(t := p)) u)) = (\<lambda>t. outcome (pr t))(t \<mapsto> r)" using assms(3) by auto
  with order(3) assms(4) have "fold (call_once file_of calls) (order @ [t]) (start, \<lambda>_. None)
      = (files', \<lambda>u. outcome ((pr(t := p)) u))" by simp
  moreover have "distinct (order @ [t])" "set (order @ [t]) = {u. outcome ((pr(t := p)) u) \<noteq> None}"
    using order(1,2) assms(2,3) by auto
  ultimately show ?thesis unfolding order_inv_def by blast
qed

lemma lock_step_inv:
  assumes "lock_step file_of calls s s'" and "lock_inv file_of calls start s"
    and inj: "\<And>t u. file_of (nc_path (calls t)) = file_of (nc_path (calls u)) \<Longrightarrow>
      nc_path (calls t) = nc_path (calls u)"
  shows "lock_inv file_of calls start s'"
proof -
  from assms(2) have inv: "held_inv calls (ls_registry s) (ls_held s) (ls_progress s)"
    "loaded_inv file_of calls (ls_files s) (ls_progress s)"
    "order_inv file_of calls start (ls_files s) (ls_progress s)"
    by (auto simp: lock_inv_def)
  from assms(1) show ?thesis
  proof cases
    case (clone_lock t registry l)
    with inv show ?thesis by (simp add: lock_inv_def held_clone loaded_other order_same)
  next
    case (take_lock t l)
    with inv show ?thesis by (simp add: lock_inv_def held_take loaded_other order_same)
  next
    case (load_nonces t l m)
    with inv(2) have "loaded_inv file_of calls (ls_files s) ((ls_progress s)(t := Loaded l m))"
      by (simp add: loaded_inv_def)
    with load_nonces inv show ?thesis by (simp add: lock_inv_def held_same order_same)
  next
    case (load_fails t l)
    let ?r = "Inl ''invalid_nonce_store'' :: string + unit"
    have "call_once file_of calls t (ls_files s, results) = (ls_files s, results(t \<mapsto> ?r))" for results
      using load_fails(3) by (simp add: call_once_def Let_def verify_and_store_nonce_settles fun_upd_idem)
    with load_fails inv order_snoc [OF inv(3), of t "Decided l ?r" ?r] show ?thesis
      by (simp add: lock_inv_def held_same loaded_other)
  next
    case (settle t l m f r)
    with inv(2) have "read_nonces (ls_files s (file_of (nc_path (calls t)))) = Some m"
      by (simp add: loaded_inv_def)
    with settle(3) have "call_once file_of calls t (ls_files s, results)
        = ((ls_files s)(file_of (nc_path (calls t)) := f), results(t \<mapsto> r))" for results
      by (simp add: call_once_def Let_def verify_and_store_nonce_settles)
    with settle inv order_snoc [OF inv(3), of t "Decided l r" r] loaded_settle [OF inv(2,1) _ inj]
    show ?thesis by (simp add: lock_inv_def held_same)
  next
    case (drop_lock t l r)
    with inv show ?thesis by (simp add: lock_inv_def held_drop loaded_other order_same)
  qed
qed

lemma reachable_inv:
  assumes "(lock_step file_of calls)\<^sup>*\<^sup>* (lock_start files) s"
    and inj: "\<And>t u. file_of (nc_path (calls t)) = file_of (nc_path (calls u)) \<Longrightarrow>
      nc_path (calls t) = nc_path (calls u)"
  shows "lock_inv file_of calls files s"
  using assms(1)
proof (induction rule: rtranclp_induct)
  case (step s s')
  then show ?case using lock_step_inv inj by blast
qed (rule lock_inv_start)

section \<open>Interleaved calls are sequential calls\<close>

text \<open>
  C2. Concurrent nonce checks linearise: whatever the schedule, there is an order of the calls that have
  decided so far in which, made one after the other, they leave the same files and have the same
  results, provided that different paths lead to different files.
\<close>

theorem concurrent_nonce_calls_linearise:
  assumes "(lock_step file_of calls)\<^sup>*\<^sup>* (lock_start files) s"
    and "\<forall>t u. file_of (nc_path (calls t)) = file_of (nc_path (calls u)) \<longrightarrow>
      nc_path (calls t) = nc_path (calls u)"
  shows "\<exists>order. distinct order \<and> set order = {t. outcome (ls_progress s t) \<noteq> None}
    \<and> fold (call_once file_of calls) order (files, \<lambda>_. None)
        = (ls_files s, \<lambda>t. outcome (ls_progress s t))"
  using reachable_inv [OF assms(1)] assms(2) unfolding lock_inv_def order_inv_def by blast

section \<open>No deadlock\<close>

text \<open>
  C23. Nonce checks never block each other for good: at any time a call that has not returned can step
  itself, or waits for the mutex of its path, and the call that has this mutex can step.
\<close>

theorem nonce_calls_progress:
  assumes "(lock_step file_of calls)\<^sup>*\<^sup>* (lock_start files) s"
    and "\<forall>t u. file_of (nc_path (calls t)) = file_of (nc_path (calls u)) \<longrightarrow>
      nc_path (calls t) = nc_path (calls u)"
    and "\<forall>r. ls_progress s t \<noteq> Returned r"
  shows "thread_step file_of calls t s \<noteq> None
    \<or> (\<exists>u l. ls_progress s t = Cloned l \<and> ls_held s l = Some u \<and> nc_path (calls u) = nc_path (calls t)
        \<and> thread_step file_of calls u s \<noteq> None)"
proof (cases "\<exists>l u. ls_progress s t = Cloned l \<and> ls_held s l = Some u")
  case True
  then obtain l u where t: "ls_progress s t = Cloned l" "ls_held s l = Some u" by blast
  have "lock_inv file_of calls files s" using reachable_inv [OF assms(1)] assms(2) by blast
  then have inv: "held_inv calls (ls_registry s) (ls_held s) (ls_progress s)" by (simp add: lock_inv_def)
  then have u: "inside (ls_progress s u)" "lock_of (ls_progress s u) = Some l"
    using t(2) by (auto simp: held_inv_def)
  with inv t(1) have "nc_path (calls u) = nc_path (calls t)"
    unfolding held_inv_def by (metis lock_of.simps(1) registry_ok_inj)
  moreover have "thread_step file_of calls u s \<noteq> None"
    using u(1) by (auto simp: thread_step_def Let_def split: progress.split prod.split option.split)
  ultimately show ?thesis using t by blast
next
  case False
  with assms(3) show ?thesis
    by (auto simp: thread_step_def Let_def split: progress.split prod.split option.split)
qed

section \<open>Concurrent replays\<close>

lemma length_btree_insert: "length (btree_insert k v m) \<le> Suc (length m)"
  by (induction k v m rule: btree_insert.induct) auto

lemma length_store_nonce: "store_nonce m n t now ttl = Inr m' \<Longrightarrow> length m' \<le> Suc (length m)"
proof -
  assume "store_nonce m n t now ttl = Inr m'"
  then have m': "m' = prune_nonce_store (btree_insert n t (retain_since (now - seconds ttl) m)) now ttl
      DEFAULT_MAX_NONCE_ENTRIES"
    by (auto simp: store_nonce_def Let_def split: if_split_asm)
  have "length m' \<le> length (btree_insert n t (retain_since (now - seconds ttl) m))"
    unfolding m' prune_nonce_store_def Let_def retain_since_def
    by (auto intro: order_trans [OF length_filter_le])
  also have "\<dots> \<le> Suc (length (retain_since (now - seconds ttl) m))"
    by (rule length_btree_insert)
  also have "\<dots> \<le> Suc (length m)" by (simp add: retain_since_def)
  finally show ?thesis .
qed

text \<open>
  A call leaves its file alone or stores its nonce there, where a failing write may leave the file
  unreadable; it touches no other file.
\<close>

lemma call_once_cases:
  assumes "call_once file_of calls t (files, results) = (files', results')"
  obtains (refused) e where "files' = files" "results' = results(t \<mapsto> Inl e)"
  | (stored) r m' f where "results' = results(t \<mapsto> r)" "files' = files(file_of (nc_path (calls t)) := f)"
      "f = Nonces m' \<or> f = Unreadable \<and> r \<noteq> Inr ()" "files (file_of (nc_path (calls t))) \<noteq> Unreadable"
      "store_nonce (file_nonces (files (file_of (nc_path (calls t))))) (nc_nonce (calls t))
         (nc_seen_at (calls t)) (nc_now (calls t)) (nc_ttl_seconds (calls t)) = Inr m'"
  using assms
  by (cases "files (file_of (nc_path (calls t)))"; cases "nc_write (calls t)")
    (auto simp: call_once_def Let_def verify_and_store_nonce_def file_nonces_def fun_upd_idem
      split: sum.split_asm)

lemma call_once_other: "t \<noteq> u \<Longrightarrow> snd (call_once file_of calls t state) u = snd state u"
  by (auto simp: call_once_def Let_def split: prod.split)

lemma fold_call_once_other:
  "u \<notin> set order \<Longrightarrow> snd (fold (call_once file_of calls) order state) u = snd state u"
  by (induction order arbitrary: state) (auto simp: call_once_other)

lemma fold_call_once_length:
  "length (file_nonces (fst (fold (call_once file_of calls) order state) p))
     \<le> length (file_nonces (fst state p)) + length order"
proof (induction order arbitrary: state)
  case (Cons t order)
  obtain files results files' results' where state: "state = (files, results)"
    and once: "call_once file_of calls t state = (files', results')"
    by (metis surj_pair)
  from once [unfolded state]
  have "length (file_nonces (files' p)) \<le> Suc (length (file_nonces (files p)))"
  proof (cases rule: call_once_cases)
    case (stored r m' f)
    with length_store_nonce [OF stored(5)] show ?thesis by (auto simp: file_nonces_def)
  qed simp
  with Cons.IH [of "call_once file_of calls t state"] once state show ?case by simp
qed simp

lemma fold_call_once_keeps:
  assumes "file_remembers (fst state p) n s"
    and "\<forall>t \<in> set order. file_of (nc_path (calls t)) = p \<longrightarrow>
      nc_ttl_seconds (calls t) = ttl \<and> nonce_alive ttl s (nc_now (calls t))"
    and "length (file_nonces (fst state p)) + length order \<le> DEFAULT_MAX_NONCE_ENTRIES"
  shows "file_remembers (fst (fold (call_once file_of calls) order state) p) n s"
  using assms
proof (induction order arbitrary: state)
  case (Cons t order)
  obtain files results files' results' where state: "state = (files, results)"
    and once: "call_once file_of calls t state = (files', results')"
    by (metis surj_pair)
  from once [unfolded state]
  have "file_remembers (files' p) n s
    \<and> length (file_nonces (files' p)) \<le> Suc (length (file_nonces (files p)))"
  proof (cases rule: call_once_cases)
    case (stored r m' f)
    have "store_room (file_nonces (files p))"
      using Cons.prems(3) state by (simp add: store_room_def)
    with stored Cons.prems(1,2) state nonces.remembered_kept length_store_nonce [OF stored(5)]
    show ?thesis by (auto simp: file_nonces_def file_remembers_def)
  qed (use Cons.prems(1) state in simp)
  with Cons state once show ?case by simp
qed simp

lemma split_two:
  assumes "t \<in> set xs" and "u \<in> set xs" and "t \<noteq> u"
  shows "\<exists>as bs cs x y. xs = as @ x # bs @ y # cs \<and> (x = t \<and> y = u \<or> x = u \<and> y = t)"
proof -
  obtain as r where xs: "xs = as @ t # r" using assms(1) by (meson split_list)
  with assms(2,3) consider "u \<in> set r" | "u \<in> set as" by auto
  then show ?thesis
  proof cases
    case 1
    then obtain bs cs where "r = bs @ u # cs" by (meson split_list)
    with xs show ?thesis by blast
  next
    case 2
    then obtain as' bs where "as = as' @ u # bs" by (meson split_list)
    with xs have "xs = as' @ u # bs @ t # r" by simp
    then show ?thesis by blast
  qed
qed

text \<open>Of two calls with one nonce, the later one in an order is refused.\<close>

lemma second_call_refused:
  assumes "fold (call_once file_of calls) (as @ t # bs @ u # cs) (files, \<lambda>_. None) = (files', results)"
    and "distinct (as @ t # bs @ u # cs)"
    and "file_of (nc_path (calls t)) = p" "file_of (nc_path (calls u)) = p"
    and "nc_nonce (calls t) = n" "nc_nonce (calls u) = n" "nc_seen_at (calls t) = s"
    and "\<forall>v \<in> set (as @ t # bs @ u # cs). file_of (nc_path (calls v)) = p \<longrightarrow>
      nc_ttl_seconds (calls v) = ttl \<and> nonce_alive ttl s (nc_now (calls v))"
    and "length (file_nonces (files p)) + length (as @ t # bs @ u # cs) \<le> DEFAULT_MAX_NONCE_ENTRIES"
    and "results t = Some (Inr ())"
  shows "results u \<noteq> Some (Inr ())"
proof
  assume u: "results u = Some (Inr ())"
  let ?run = "fold (call_once file_of calls)"
  obtain fs1 rs1 where s1: "?run as (files, \<lambda>_. None) = (fs1, rs1)" by (metis surj_pair)
  obtain fs2 rs2 where s2: "call_once file_of calls t (fs1, rs1) = (fs2, rs2)" by (metis surj_pair)
  obtain fs3 rs3 where s3: "?run bs (fs2, rs2) = (fs3, rs3)" by (metis surj_pair)
  obtain fs4 rs4 where s4: "call_once file_of calls u (fs3, rs3) = (fs4, rs4)" by (metis surj_pair)
  have s5: "?run cs (fs4, rs4) = (files', results)" using assms(1) s1 s2 s3 s4 by simp
  have "rs4 u = Some (Inr ())" "rs2 t = Some (Inr ())"
    using fold_call_once_other [of u cs file_of calls "(fs4, rs4)"]
      fold_call_once_other [of t cs file_of calls "(fs4, rs4)"]
      fold_call_once_other [of t bs file_of calls "(fs2, rs2)"]
      call_once_other [of u t file_of calls "(fs3, rs3)"] assms(2,10) u s3 s4 s5 by auto
  note accepted = this
  have room1: "length (file_nonces (fs1 p)) \<le> length (file_nonces (files p)) + length as"
    using fold_call_once_length [of file_of calls as "(files, \<lambda>_. None)" p] s1 by simp
  have "file_remembers (fs2 p) n s \<and> length (file_nonces (fs2 p)) \<le> Suc (length (file_nonces (fs1 p)))"
    using s2
  proof (cases rule: call_once_cases)
    case (stored r m' f)
    have "store_room (file_nonces (fs1 p))" using room1 assms(9) by (simp add: store_room_def)
    with stored assms(3,5,7,8) nonces.accepted_remembered length_store_nonce [OF stored(5)]
    show ?thesis by (auto simp: file_nonces_def file_remembers_def)
  qed (use accepted in simp)
  then have kept: "file_remembers (fs3 p) n s"
    using fold_call_once_keeps [of "(fs2, rs2)" p n s bs file_of calls ttl] assms(8,9) room1 s3 by simp
  show False using s4
  proof (cases rule: call_once_cases)
    case (stored r m' f)
    with kept assms(4) have "store_remembers (file_nonces (fs3 p)) n s" by (simp add: file_remembers_def)
    with stored nonces.remembered_refused assms(4,6,8) show ?thesis by auto
  qed (use accepted in simp)
qed

text \<open>
  C3. Concurrent replays are refused: of two calls with one nonce and time stamp on one path, at most
  one returns success under any schedule, while the nonce is alive for every call on the path, all use
  one time to live, and the store cannot overflow.
\<close>

theorem concurrent_replay_refused:
  assumes "(lock_step file_of calls)\<^sup>*\<^sup>* (lock_start files) s"
    and "\<forall>t u. file_of (nc_path (calls t)) = file_of (nc_path (calls u)) \<longrightarrow>
      nc_path (calls t) = nc_path (calls u)"
    and "t \<noteq> u" and "nc_path (calls t) = nc_path (calls u)"
    and "nc_nonce (calls t) = nc_nonce (calls u)" and "nc_seen_at (calls t) = nc_seen_at (calls u)"
    and "\<forall>v. nc_path (calls v) = nc_path (calls t) \<longrightarrow> nc_ttl_seconds (calls v) = ttl
      \<and> nonce_alive ttl (nc_seen_at (calls t)) (nc_now (calls v))"
    and "length (file_nonces (files (file_of (nc_path (calls t)))))
      + card {v. outcome (ls_progress s v) \<noteq> None} \<le> DEFAULT_MAX_NONCE_ENTRIES"
    and "ls_progress s t = Returned (Inr ())"
  shows "ls_progress s u \<noteq> Returned (Inr ())"
proof
  assume u: "ls_progress s u = Returned (Inr ())"
  have "lock_inv file_of calls files s" using reachable_inv [OF assms(1)] assms(2) by blast
  then obtain order where order: "distinct order" "set order = {v. outcome (ls_progress s v) \<noteq> None}"
    "fold (call_once file_of calls) order (files, \<lambda>_. None) = (ls_files s, \<lambda>v. outcome (ls_progress s v))"
    unfolding lock_inv_def order_inv_def by blast
  have len: "length order = card {v. outcome (ls_progress s v) \<noteq> None}"
    using order(1,2) distinct_card by metis
  have "t \<in> set order" "u \<in> set order" using order(2) assms(9) u by auto
  then obtain as bs cs x y where split: "order = as @ x # bs @ y # cs" and xy: "x = t \<and> y = u \<or> x = u \<and> y = t"
    using assms(3) split_two by metis
  have "results y \<noteq> Some (Inr ())" if "results = (\<lambda>v. outcome (ls_progress s v))" for results
  proof (rule second_call_refused [OF order(3) [unfolded split that [symmetric]]])
    show "distinct (as @ x # bs @ y # cs)" using order(1) split by simp
    show "file_of (nc_path (calls y)) = file_of (nc_path (calls x))" using xy assms(4) by auto
    show "nc_nonce (calls y) = nc_nonce (calls x)" using xy assms(5) by auto
    show "\<forall>v \<in> set (as @ x # bs @ y # cs). file_of (nc_path (calls v)) = file_of (nc_path (calls x)) \<longrightarrow>
        nc_ttl_seconds (calls v) = ttl \<and> nonce_alive ttl (nc_seen_at (calls x)) (nc_now (calls v))"
      using xy assms(2,4,6,7) by metis
    show "length (file_nonces (files (file_of (nc_path (calls x))))) + length (as @ x # bs @ y # cs)
        \<le> DEFAULT_MAX_NONCE_ENTRIES"
      using xy assms(4,8) len split by auto
    show "results x = Some (Inr ())" using xy assms(9) u that by auto
  qed simp_all
  then show False using xy assms(9) u by auto
qed

section \<open>Two requests with one nonce\<close>

definition demo_calls :: "nat \<Rightarrow> nonce_call" where
  "demo_calls t = \<lparr>nc_path = ''nonces.json'', nc_nonce = ''a'', nc_seen_at = 0, nc_now = 0,
     nc_ttl_seconds = 60, nc_write = Written\<rparr>"

text \<open>Both clone the mutex, the second tries to lock it in vain, and steps on when it is dropped.\<close>

definition demo_run :: "string lock_state" where
  "demo_run = run_schedule id demo_calls [0, 1, 0, 1, 0, 0, 1, 0, 1, 1, 1, 1] (lock_start (\<lambda>_. NoFile))"

lemma demo_run_reachable: "(lock_step id demo_calls)\<^sup>*\<^sup>* (lock_start (\<lambda>_. NoFile)) demo_run"
  unfolding demo_run_def by (rule run_schedule_reachable)

lemma demo_store:
  "store_nonce [] ''a'' 0 0 60 = Inr [(''a'', 0)]"
  "store_nonce [(''a'', 0)] ''a'' 0 0 60 = Inl ''trusted_upstream_nonce_replayed''"
  by (simp_all add: store_nonce_def retain_since_def prune_nonce_store_def seconds_def
      DEFAULT_MAX_NONCE_ENTRIES_def)

lemmas demo_steps = thread_step_def lock_start_def nonce_store_lock_def read_nonces_def
  settle_nonce_def demo_calls_def demo_store Let_def

lemma demo_run_progress:
  "ls_progress demo_run t = (if t = 0 then Returned (Inr ())
     else if t = 1 then Returned (Inl ''trusted_upstream_nonce_replayed'') else Started)"
proof -
  have "ls_progress demo_run 0 = Returned (Inr ())"
    "ls_progress demo_run 1 = Returned (Inl ''trusted_upstream_nonce_replayed'')"
    by (simp_all add: demo_run_def demo_steps)
  moreover have "ls_progress demo_run t = Started" if "t \<noteq> 0" "t \<noteq> 1"
    unfolding demo_run_def using that by (subst run_schedule_other) (simp_all add: lock_start_def)
  ultimately show ?thesis by simp
qed

lemma demo_run_outcomes: "{v. outcome (ls_progress demo_run v) \<noteq> None} = {0, 1}"
  by (auto simp: demo_run_progress split: if_split_asm)

lemma demo_paths: "\<forall>t u. id (nc_path (demo_calls t)) = id (nc_path (demo_calls u)) \<longrightarrow>
    nc_path (demo_calls t) = nc_path (demo_calls u)"
  by simp

theorem concurrent_nonce_calls_linearise_witness:
  "\<exists>order. distinct order \<and> set order = {0, 1}
    \<and> fold (call_once id demo_calls) order (\<lambda>_. NoFile, \<lambda>_. None)
        = (ls_files demo_run, \<lambda>t. outcome (ls_progress demo_run t))"
  using concurrent_nonce_calls_linearise [OF demo_run_reachable demo_paths]
  unfolding demo_run_outcomes .

text \<open>The state in which the second thread waits for the first.\<close>

definition demo_wait :: "string lock_state" where
  "demo_wait = run_schedule id demo_calls [0, 1, 0] (lock_start (\<lambda>_. NoFile))"

theorem nonce_calls_progress_witness:
  "\<exists>u l. ls_progress demo_wait 1 = Cloned l \<and> ls_held demo_wait l = Some u
     \<and> nc_path (demo_calls u) = nc_path (demo_calls 1) \<and> thread_step id demo_calls u demo_wait \<noteq> None"
proof -
  have "(lock_step id demo_calls)\<^sup>*\<^sup>* (lock_start (\<lambda>_. NoFile)) demo_wait"
    unfolding demo_wait_def by (rule run_schedule_reachable)
  moreover have "thread_step id demo_calls 1 demo_wait = None" "\<forall>r. ls_progress demo_wait 1 \<noteq> Returned r"
    by (simp_all add: demo_wait_def demo_steps)
  ultimately show ?thesis
    using nonce_calls_progress [where file_of = id and calls = demo_calls and t = 1, OF _ demo_paths]
    by blast
qed

theorem concurrent_replay_refused_witness:
  "ls_progress demo_run 0 = Returned (Inr ()) \<and> ls_progress demo_run 1 \<noteq> Returned (Inr ())"
proof
  show first: "ls_progress demo_run 0 = Returned (Inr ())" by (simp add: demo_run_progress)
  show "ls_progress demo_run 1 \<noteq> Returned (Inr ())"
  proof (rule concurrent_replay_refused [OF demo_run_reachable demo_paths, where t = 0 and ttl = 60])
    show "length (file_nonces NoFile) + card {v. outcome (ls_progress demo_run v) \<noteq> None}
        \<le> DEFAULT_MAX_NONCE_ENTRIES"
      unfolding demo_run_outcomes by (simp add: file_nonces_def DEFAULT_MAX_NONCE_ENTRIES_def)
  qed (use first in \<open>simp_all add: demo_calls_def nonce_alive_def seconds_def\<close>)
qed

text \<open>Two threads that spell one path in two ways.\<close>

definition spelled_calls :: "nat \<Rightarrow> nonce_call" where
  "spelled_calls t = (demo_calls t)\<lparr>nc_path := if t = 0 then ''s'' else ''./s''\<rparr>"

lemma spelled_calls_at:
  "spelled_calls 0 = \<lparr>nc_path = ''s'', nc_nonce = ''a'', nc_seen_at = 0, nc_now = 0,
     nc_ttl_seconds = 60, nc_write = Written\<rparr>"
  "spelled_calls (Suc 0) = \<lparr>nc_path = ''./s'', nc_nonce = ''a'', nc_seen_at = 0, nc_now = 0,
     nc_ttl_seconds = 60, nc_write = Written\<rparr>"
  by (simp_all add: spelled_calls_def demo_calls_def)

lemma spellings_less: "''./s'' < ''s''" "\<not> ''s'' < ''./s''"
  by code_simp+

lemma run_schedule_append:
  "run_schedule file_of calls (ts @ us) s = run_schedule file_of calls us (run_schedule file_of calls ts s)"
  by (induction ts arbitrary: s) auto

lemma spelled_locked:
  "run_schedule (\<lambda>_. ()) spelled_calls [0, 1, 0, 1] (lock_start (\<lambda>_. NoFile))
     = \<lparr>ls_registry = [(''./s'', 1), (''s'', 0)], ls_held = (\<lambda>_. None)(0 \<mapsto> 0, 1 \<mapsto> 1),
        ls_files = (\<lambda>_. NoFile), ls_progress = (\<lambda>_. Started)(0 := Guarded 0, 1 := Guarded 1)\<rparr>"
  by (simp add: thread_step_def lock_start_def nonce_store_lock_def spelled_calls_at spellings_less fun_upd_twist)

lemma spelled_stored:
  assumes "s = \<lparr>ls_registry = m, ls_held = h, ls_files = (\<lambda>_. NoFile),
    ls_progress = (\<lambda>_. Started)(0 := Guarded 0, 1 := Guarded 1)\<rparr>"
  shows "ls_progress (run_schedule (\<lambda>_. ()) spelled_calls [0, 1, 0, 1, 0, 1] s) 0 = Returned (Inr ())
    \<and> ls_progress (run_schedule (\<lambda>_. ()) spelled_calls [0, 1, 0, 1, 0, 1] s) 1 = Returned (Inr ())"
  unfolding assms
  by (simp add: thread_step_def read_nonces_def settle_nonce_def demo_store spelled_calls_at)

text \<open>
  Different paths are needed to lead to different files: the registry is keyed by the path as it
  is written, so two spellings of one file have two mutexes, and both requests are accepted.
\<close>

theorem two_spellings_accept_replay:
  "let s = run_schedule (\<lambda>_. ()) spelled_calls ([0, 1, 0, 1] @ [0, 1, 0, 1, 0, 1]) (lock_start (\<lambda>_. NoFile))
   in ls_progress s 0 = Returned (Inr ()) \<and> ls_progress s 1 = Returned (Inr ())"
  unfolding Let_def run_schedule_append using spelled_stored [OF spelled_locked] .

end
