(* ===== verification/NonceFile.thy ===== *)
theory NonceFile
  imports NonceLock FileStore DomainTree
begin

text \<open>
  What other crates do with the JSON store of \<open>oan-storage\<close>: \<open>oan-core\<close> loads its trees from files,
  and \<open>oan-service-security\<close> keeps its nonces in one. \<open>Security\<close> and \<open>NonceLock\<close> describe the nonce file by what
  it holds; here the operation is written over the file system, with its calls of the store, and
  proved to implement that description.
\<close>

section \<open>Trees from files\<close>

definition load_capability_tag_tree ::
  "capability_tag_tree codec \<Rightarrow> string \<Rightarrow> files \<Rightarrow> storage_error + capability_tag_tree" where
  "load_capability_tag_tree C path fs =
     rbind (store_read C \<lparr>js_root = ''.''\<rparr> path fs) (\<lambda>tree.
     Inr (if ctt_tags tree = [] \<and> ctt_tree tree \<noteq> [] then flatten_tag_tree tree else tree))"

definition load_authorized_domain_taxonomy ::
  "authorized_domain_taxonomy codec \<Rightarrow> string \<Rightarrow> files \<Rightarrow> storage_error + authorized_domain_taxonomy" where
  "load_authorized_domain_taxonomy C path fs =
     rbind (store_read C \<lparr>js_root = ''.''\<rparr> path fs) (\<lambda>taxonomy.
     Inr (if tax_domains taxonomy = [] \<and> tax_tree taxonomy \<noteq> [] then flatten_domain_tree taxonomy
          else taxonomy))"

text \<open>
  The guard of the loaders is the one of the flattening, so a taxonomy that is loaded, written and
  loaded again is the same.
\<close>

lemma load_is_flatten:
  "load_authorized_domain_taxonomy C path fs
     = rbind (store_read C \<lparr>js_root = ''.''\<rparr> path fs) (\<lambda>t. Inr (flatten_domain_tree t))"
  "load_capability_tag_tree D path fs
     = rbind (store_read D \<lparr>js_root = ''.''\<rparr> path fs) (\<lambda>t. Inr (flatten_tag_tree t))"
  by (auto simp: load_authorized_domain_taxonomy_def load_capability_tag_tree_def
      flatten_domain_tree_def flatten_tag_tree_def intro!: arg_cong2 [where f = rbind])

section \<open>The nonce file\<close>

definition verify_and_store_nonce_at ::
  "nonce_store codec \<Rightarrow> io \<Rightarrow> string list set \<Rightarrow> string \<Rightarrow> string \<Rightarrow> datetime \<Rightarrow> datetime \<Rightarrow> int \<Rightarrow> files
     \<Rightarrow> files \<times> (string + unit)" where
  "verify_and_store_nonce_at C io dirs path nonce seen_at now ttl_seconds fs =
     (let store = \<lparr>js_root = ''.''\<rparr>;
          exists = fs (path_components path) \<noteq> None \<or> path_components path \<in> dirs in
      case (if exists then map_err (\<lambda>_. ''invalid_nonce_store'') (store_read C store path fs) else Inr []) of
        Inl e \<Rightarrow> (fs, Inl e)
      | Inr m \<Rightarrow> (case store_nonce m nonce seen_at now ttl_seconds of
          Inl e \<Rightarrow> (fs, Inl e)
        | Inr m' \<Rightarrow> (case store_write C io store path m' fs of
            (fs', r) \<Rightarrow> (fs', map_err (\<lambda>_. ''invalid_nonce_store'') r))))"

text \<open>What a file holds.\<close>

definition nonce_file_at :: "nonce_store codec \<Rightarrow> string list set \<Rightarrow> string \<Rightarrow> files \<Rightarrow> nonce_file" where
  "nonce_file_at C dirs path fs =
     (case fs (path_components path) of
        None \<Rightarrow> if path_components path \<in> dirs then Unreadable else NoFile
      | Some bytes \<Rightarrow> (case cd_decode C bytes of None \<Rightarrow> Unreadable | Some m \<Rightarrow> Nonces m))"

lemma components_from_here: "path_components (path_join ''.'' p) = path_components p"
proof (cases "starts_with p ''/''")
  case True
  then show ?thesis by (simp add: path_join_def)
next
  case False
  then show ?thesis
    by (simp add: path_components_join) (simp add: path_components_def)
qed

text \<open>How a write to the file system ends for the nonces: a file that was cut short does not parse.\<close>

definition outcome_of :: "io \<Rightarrow> string \<Rightarrow> write_outcome" where
  "outcome_of io content =
     (if \<not> dirs_ok io then Untouched
      else case io_write io of
        Complete \<Rightarrow> Written
      | Unopened \<Rightarrow> Untouched
      | Stopped n \<Rightarrow> if n < length content then Torn else Unconfirmed)"

definition nonce_codec_ok :: "nonce_store codec \<Rightarrow> bool" where
  "nonce_codec_ok C \<longleftrightarrow> (\<forall>m content. cd_encode C m = Some content \<longrightarrow>
     cd_decode C content = Some m \<and> cd_decode C (content @ [CHR 0x0A]) = Some m
     \<and> (\<forall>n < length content. cd_decode C (take n content) = None))"

text \<open>
  The call on the file system has the result of the call on what the file holds, leaves there what that
  call leaves, however the write ends, and touches no other file.
\<close>

lemma nonce_file_refinement:
  assumes "nonce_codec_ok C" and "\<forall>m. cd_encode C m = Some (text m)"
    and "verify_and_store_nonce_at C io dirs path nonce seen_at now ttl fs = (fs', r)"
    and "\<And>m. store_nonce (file_nonces (nonce_file_at C dirs path fs)) nonce seen_at now ttl = Inr m \<Longrightarrow>
      w = outcome_of io (text m)"
  shows "(nonce_file_at C dirs path fs', r)
      = verify_and_store_nonce w (nonce_file_at C dirs path fs) nonce seen_at now ttl
    \<and> (\<forall>other. other \<noteq> path_components path \<longrightarrow> fs' other = fs other)"
proof -
  note defs = verify_and_store_nonce_at_def verify_and_store_nonce_def nonce_file_at_def
    store_read_def store_write_def resolve_def components_from_here decode_json_def
  show ?thesis
  proof (cases "store_nonce (file_nonces (nonce_file_at C dirs path fs)) nonce seen_at now ttl")
    case (Inl e)
    then show ?thesis using assms(3)
      by (auto simp: defs file_nonces_def Let_def split: option.splits if_splits)
  next
    case (Inr m')
    from assms(1,2) have codec: "cd_decode C (text m') = Some m'"
      "cd_decode C (text m' @ [CHR 0x0A]) = Some m'"
      "\<And>n. n < length (text m') \<Longrightarrow> cd_decode C (take n (text m')) = None"
      by (auto simp: nonce_codec_ok_def)
    have "cd_decode C (take n (text m' @ [CHR 0x0A])) = Some m'" if "\<not> n < length (text m')" for n
      using that codec(1,2) by (cases "n = length (text m')") simp_all
    with codec assms(2,3) Inr assms(4) [OF Inr] show ?thesis
      by (cases "io_write io") (auto simp: defs file_nonces_def outcome_of_def Let_def
          split: option.splits if_splits)
  qed
qed

section \<open>What the check does to the file\<close>

text \<open>
  The entries that a full store keeps: all that are given while they are at most 10000, else 10000 of
  them of which none is older than one that is dropped.
\<close>

definition newest_entries :: "(string \<times> datetime) set \<Rightarrow> nonce_store \<Rightarrow> bool" where
  "newest_entries entries m \<longleftrightarrow> sorted_wrt (<) (keys m) \<and> set m \<subseteq> entries
     \<and> (if card entries \<le> 10000 then set m = entries
        else length m = 10000 \<and> (\<forall>x \<in> entries - set m. \<forall>y \<in> set m. snd x \<le> snd y))"

lemma sorted_keys_filter:
  "sorted_wrt (<) (keys m) \<Longrightarrow> sorted_wrt (<) (keys (filter P m))" for m :: nonce_store
  unfolding sorted_wrt_map by (rule sorted_wrt_filter)

lemma distinct_sorted_keys: "sorted_wrt (<) (keys m) \<Longrightarrow> distinct (keys m)" for m :: nonce_store
  by (simp add: strict_sorted_iff)

lemma filter_stale_keys:
  "distinct (map fst (xs @ ys)) \<Longrightarrow> filter (\<lambda>kv. fst kv \<notin> set (map fst xs)) (xs @ ys) = ys"
  by (auto simp: filter_empty_conv filter_id_conv)

lemma mset_without_stale:
  assumes "distinct (keys s)" and "mset xs = mset s"
  shows "mset (filter (\<lambda>kv. fst kv \<notin> set (keys (take n s))) xs) = mset (drop n s)"
proof -
  let ?P = "\<lambda>kv. fst kv \<notin> set (keys (take n s))"
  have "filter ?P (take n s @ drop n s) = drop n s"
    using assms(1) by (intro filter_stale_keys) simp
  then have "mset (filter ?P s) = mset (drop n s)" by simp
  then show ?thesis by (simp only: mset_filter assms(2))
qed

lemma newest_prune:
  assumes "sorted_wrt (<) (keys m)"
  shows "newest_entries (set (retain_since (now - seconds ttl) m))
    (prune_nonce_store m now ttl DEFAULT_MAX_NONCE_ENTRIES)"
proof -
  let ?m = "retain_since (now - seconds ttl) m"
  let ?k = "DEFAULT_MAX_NONCE_ENTRIES" and ?s = "sort_key snd ?m"
  let ?old = "take (length ?m - ?k) ?s" and ?new = "drop (length ?m - ?k) ?s"
  have sorted: "sorted_wrt (<) (keys ?m)" unfolding retain_since_def by (rule sorted_keys_filter [OF assms])
  then have card: "card (set ?m) = length ?m"
    using distinct_sorted_keys [OF sorted] by (simp add: distinct_map distinct_card)
  have k: "?k = 10000" by (simp add: DEFAULT_MAX_NONCE_ENTRIES_def)
  show ?thesis
  proof (cases "length ?m \<le> ?k")
    case True
    then show ?thesis using sorted card by (simp add: newest_entries_def prune_nonce_store_def k)
  next
    case False
    let ?p = "filter (\<lambda>kv. fst kv \<notin> set (map fst ?old)) ?m"
    have pruned: "prune_nonce_store m now ttl ?k = ?p"
      using False by (simp add: prune_nonce_store_def Let_def)
    have "distinct (map fst ?s)"
      using distinct_sorted_keys [OF sorted] by (metis mset_map mset_sort mset_eq_imp_distinct_iff)
    then have "mset ?p = mset ?new" by (rule mset_without_stale) simp
    then have set_p: "set ?p = set ?new" and len_p: "length ?p = length ?new"
      by (rule mset_eq_setD, rule mset_eq_length)
    have "set ?m = set ?old \<union> set ?new" by (metis append_take_drop_id set_append set_sort)
    then have dropped: "set ?m - set ?p \<subseteq> set ?old" unfolding set_p by blast
    have "sorted_wrt (\<lambda>x y. snd x \<le> snd y) (?old @ ?new)"
      using sorted_sort_key [of snd ?m] by (simp add: sorted_map)
    then have "\<forall>x \<in> set ?old. \<forall>y \<in> set ?p. snd x \<le> snd y" unfolding set_p sorted_wrt_append by blast
    moreover have "set ?p \<subseteq> set ?m" by simp
    moreover have "sorted_wrt (<) (keys ?p)" by (rule sorted_keys_filter [OF sorted])
    moreover have "\<not> card (set ?m) \<le> 10000" "length ?p = 10000" using False card len_p k by simp_all
    ultimately show ?thesis
      using dropped unfolding newest_entries_def pruned by (simp only: if_False) blast
  qed
qed

text \<open>The decision, on a store with ascending keys: what is alive counts, and nothing else.\<close>

lemma store_nonce_decides:
  fixes m :: nonce_store and nonce :: string and now seen_at :: datetime and ttl :: int
  assumes "sorted_wrt (<) (keys m)"
  defines "alive \<equiv> {kv \<in> set m. now - ttl * 1000000000 \<le> snd kv}"
  shows "if nonce \<in> fst ` alive then store_nonce m nonce seen_at now ttl = Inl ''trusted_upstream_nonce_replayed''
    else \<exists>m'. store_nonce m nonce seen_at now ttl = Inr m' \<and> newest_entries
      {kv \<in> insert (nonce, seen_at) alive. now - ttl * 1000000000 \<le> snd kv} m'"
proof -
  let ?m = "retain_since (now - seconds ttl) m"
  have alive: "alive = set ?m" by (auto simp: alive_def retain_since_def seconds_def)
  show ?thesis
  proof (cases "nonce \<in> fst ` alive")
    case True
    then show ?thesis by (simp add: store_nonce_def alive)
  next
    case False
    let ?i = "btree_insert nonce seen_at ?m"
    have "sorted_wrt (<) (keys ?m)" unfolding retain_since_def by (rule sorted_keys_filter [OF assms(1)])
    then have "sorted_wrt (<) (keys ?i)" by (rule sorted_btree_insert)
    from newest_prune [OF this] have "newest_entries (set (retain_since (now - seconds ttl) ?i))
      (prune_nonce_store ?i now ttl DEFAULT_MAX_NONCE_ENTRIES)" .
    moreover have "set (retain_since (now - seconds ttl) ?i)
      = {kv \<in> insert (nonce, seen_at) alive. now - ttl * 1000000000 \<le> snd kv}"
      using False set_btree_insert_new [of nonce ?m seen_at]
      by (auto simp: alive retain_since_def seconds_def)
    ultimately show ?thesis using False by (simp add: store_nonce_def alive)
  qed
qed


definition nonce_codec :: "nonce_store codec" where
  "nonce_codec = \<lparr>cd_encode = (\<lambda>m. Some (concat (keys m))),
     cd_decode = (\<lambda>s. if s = ''ab'' then Some [(''a'', 1), (''b'', 9000000000)] else None)\<rparr>"


end
