(* ===== verification/Client.thy ===== *)
theory Client
  imports Json
begin

text \<open>
  The HTTP client \<open>crates/oan-client\<close>: endpoints relative to a base URL, and the two JSON requests.
  URLs and the sending of requests belong to the crates \<open>url\<close> and \<open>reqwest\<close> and are the fields of
  \<open>http_library\<close>; \<open>'w\<close> is the state of the network, which only sending changes. The response type
  \<open>T: DeserializeOwned\<close> is its decoder.
\<close>

datatype client_error = InvalidEndpoint string | Http string

datatype http_method = GET | POST

record 'u http_request =
  rq_method :: http_method
  rq_url :: 'u
  rq_body :: "string option"

text \<open>The body arrives after the status, and its reading may fail.\<close>

record http_response =
  rs_status :: nat
  rs_body :: "string + string"

record ('u, 'w) http_library =
  parse_url :: "string \<Rightarrow> string + 'u"
  join_url :: "'u \<Rightarrow> string \<Rightarrow> string + 'u"
  send_request :: "'u http_request \<Rightarrow> 'w \<Rightarrow> (string + http_response) \<times> 'w"
  status_error :: "nat \<Rightarrow> string"
  parse_json :: "string \<Rightarrow> string + json"

record 'u oan_client =
  base_url :: 'u

definition client_new :: "('u, 'w) http_library \<Rightarrow> string \<Rightarrow> client_error + 'u oan_client" where
  "client_new H url =
     rbind (map_err InvalidEndpoint (parse_url H url)) (\<lambda>u. Inr \<lparr>base_url = u\<rparr>)"

definition endpoint ::
  "('u, 'w) http_library \<Rightarrow> 'u oan_client \<Rightarrow> string \<Rightarrow> client_error + 'u" where
  "endpoint H c path =
     map_err InvalidEndpoint (join_url H (base_url c) (dropWhile (\<lambda>ch. ch = CHR ''/'') path))"

text \<open>\<open>error_for_status\<close> refuses client and server errors, \<open>json\<close> reads and decodes the body.\<close>

definition error_for_status ::
  "('u, 'w) http_library \<Rightarrow> http_response \<Rightarrow> string + http_response" where
  "error_for_status H r =
     (if 400 \<le> rs_status r \<and> rs_status r < 600 then Inl (status_error H (rs_status r)) else Inr r)"

definition response_json ::
  "('u, 'w) http_library \<Rightarrow> (json \<Rightarrow> string + 'a) \<Rightarrow> http_response \<Rightarrow> string + 'a" where
  "response_json H decode r =
     rbind (rs_body r) (\<lambda>body. rbind (parse_json H body) decode)"

definition exchange ::
  "('u, 'w) http_library \<Rightarrow> (json \<Rightarrow> string + 'a) \<Rightarrow> 'u http_request \<Rightarrow> 'w
     \<Rightarrow> (client_error + 'a) \<times> 'w" where
  "exchange H decode q w =
     (case send_request H q w of
        (r, w') \<Rightarrow>
          (map_err Http (rbind r (\<lambda>r. rbind (error_for_status H r) (response_json H decode))), w'))"

definition get_json ::
  "('u, 'w) http_library \<Rightarrow> (json \<Rightarrow> string + 'a) \<Rightarrow> 'u oan_client \<Rightarrow> string \<Rightarrow> 'w
     \<Rightarrow> (client_error + 'a) \<times> 'w" where
  "get_json H decode c path w =
     (case endpoint H c path of
        Inl e \<Rightarrow> (Inl e, w)
      | Inr url \<Rightarrow> exchange H decode \<lparr>rq_method = GET, rq_url = url, rq_body = None\<rparr> w)"

text \<open>The body is serialised when the request is built; a failure is returned by \<open>send\<close>, unsent.\<close>

definition post_json ::
  "('u, 'w) http_library \<Rightarrow> (json \<Rightarrow> string + 'a) \<Rightarrow> 'u oan_client \<Rightarrow> string \<Rightarrow> string + string \<Rightarrow> 'w
     \<Rightarrow> (client_error + 'a) \<times> 'w" where
  "post_json H decode c path body w =
     (case endpoint H c path of
        Inl e \<Rightarrow> (Inl e, w)
      | Inr url \<Rightarrow>
          (case body of
             Inl e \<Rightarrow> (Inl (Http e), w)
           | Inr text \<Rightarrow>
               exchange H decode \<lparr>rq_method = POST, rq_url = url, rq_body = Some text\<rparr> w))"

section \<open>What the client promises\<close>

lemma endpoint_leading_slashes: "endpoint H c (CHR ''/'' # path) = endpoint H c path"
  by (simp add: endpoint_def)

lemma exchange_Ok_iff:
  "fst (exchange H decode q w) = Inr v \<longleftrightarrow>
     (\<exists>r text j. fst (send_request H q w) = Inr r \<and> \<not> (400 \<le> rs_status r \<and> rs_status r < 600)
        \<and> rs_body r = Inr text \<and> parse_json H text = Inr j \<and> decode j = Inr v)"
  by (auto simp: exchange_def error_for_status_def response_json_def
      split: prod.splits sum.splits if_splits)

text \<open>The network changes by the one request whose endpoint and body are valid, or not at all.\<close>

lemma get_json_sends:
  "snd (get_json H decode c path w) =
     (case endpoint H c path of
        Inl e \<Rightarrow> w
      | Inr url \<Rightarrow> snd (send_request H \<lparr>rq_method = GET, rq_url = url, rq_body = None\<rparr> w))"
  by (simp add: get_json_def exchange_def split: sum.splits prod.splits)

lemma post_json_sends:
  "snd (post_json H decode c path body w) =
     (case (endpoint H c path, body) of
        (Inr url, Inr text) \<Rightarrow>
          snd (send_request H \<lparr>rq_method = POST, rq_url = url, rq_body = Some text\<rparr> w)
      | _ \<Rightarrow> w)"
  by (simp add: post_json_def exchange_def split: sum.splits prod.splits)

end
