(* ===== verification/Spec2Isabelle.thy ===== *)
theory Spec2Isabelle
  imports DomainTree BulletinDecode CredentialDecode Publication Registration JobDrain Records FileStore
    Suggestions Delivery NonceFile Client
begin

text \<open>
  Verification development of the OpenAgenet common crates (\<open>src/crates\<close>): the libraries
  that the Root, Registrar, Discovery and CDN services share. Identifiers of resources are parsed
  and derived, DID Documents and resource packages are hashed, signed and validated, governance
  events form a signed hash chain, credentials attest what was registered, authorized domains decide
  what a registrar may register, signed requests between services are protected against replay, and
  the stores keep records, jobs and credential files for all of them.

  \<^bold>\<open>Theories\<close>, in the order of their imports, and the code they model:

  \<^item> \<open>Prelude\<close>: results as sums with their binding operator, strings as lists of
    UTF-8 bytes, the string functions of the standard library, sorted association lists for
    \<open>BTreeMap\<close>.
  \<^item> \<open>DidOan\<close>: crate \<open>oan-did-oan\<close>: \<open>parse\<close>, \<open>generate\<close>, \<open>derive\<close> with its sampling loop.
  \<^item> \<open>Json\<close>: JSON values, canonical text (\<open>canonical_json_value\<close> of \<open>oan-crypto\<close>), and the record
    \<open>externs\<close> of the functions that third-party crates provide.
  \<^item> \<open>CoreTypes\<close>, \<open>CoreDocument\<close>, \<open>CoreProfile\<close>, \<open>DomainTree\<close>: crate
    \<open>oan-core\<close>, its data and serialisation, the validation of DID Documents, the did:oan
    profile with credentials and identities, and the two forests of domains and of tags.
  \<^item> \<open>Crypto\<close>: crate \<open>oan-crypto\<close>, suites, keys, signatures and proofs.
  \<^item> \<open>Decode\<close>: the readers that \<open>Deserialize\<close> derives: structs from objects and arrays, defaults,
    denied and flattened members, and with them the types of \<open>oan-core\<close> down from the DID Document;
    \<open>ProfileDecode\<close>, \<open>CredentialDecode\<close> and \<open>BulletinDecode\<close> have those of the did:oan profile, of
    credentials and of bulletins.
  \<^item> \<open>Bulletin\<close>, \<open>Package\<close>, \<open>Publication\<close>, \<open>Protocol\<close>, \<open>Security\<close>:
    the crates \<open>oan-bulletin\<close>, \<open>oan-package\<close>, \<open>oan-publication-events\<close>,
    \<open>oan-protocol\<close>, \<open>oan-service-security\<close>.
  \<^item> \<open>Registration\<close>: the honest run of a registration through \<open>oan-service-security\<close>.
  \<^item> \<open>NonceLock\<close>, \<open>NonceFile\<close>: the nonce check of \<open>oan-service-security\<close> as steps of threads
    over the registry of mutexes (\<open>nonce_store_lock\<close>), and over the file system of \<open>FileStore\<close>; the
    taxonomies that \<open>oan-core\<close> loads from files.
  \<^item> \<open>Messages\<close>, \<open>Wire\<close>, \<open>Submission\<close>, \<open>Delivery\<close>: the messages of \<open>oan-protocol\<close> with their JSON, and
    their readers: \<open>Wire\<close> has those of signed requests and of packages, \<open>Submission\<close> those of a
    registration, \<open>Delivery\<close> all others.
  \<^item> \<open>Client\<close>: crate \<open>oan-client\<close> over a library that sends requests.
  \<^item> \<open>Credentials\<close>: crate \<open>oan-credentials\<close>, the credential types and their validators, signing,
    verification, and the two validators of a node identity.
  \<^item> \<open>Storage\<close>, \<open>JobStore\<close>, \<open>JobQueue\<close>, \<open>JobDrain\<close>, \<open>RecordStore\<close>, \<open>Pages\<close>, \<open>Records\<close>, \<open>FileStore\<close>: crate
    \<open>oan-storage\<close>. \<open>Storage\<close> has limits, database URLs and pool settings; \<open>JobStore\<close> and
    \<open>RecordStore\<close> have every operation of the SQLite and of the PostgreSQL store as a step on the
    rows of its table, from the SQL text; \<open>FileStore\<close> has the JSON files and the credential store
    over a map from paths to bytes. \<open>JobQueue\<close> and \<open>Records\<close> state what both backends promise as
    locales and interpret them on both; \<open>JobDrain\<close> has the worker that repeats leasing and finishing
    jobs, \<open>Pages\<close> the client that follows cursors.
  \<^item> \<open>Recommender\<close>, \<open>Suggestions\<close>: crate \<open>oan-semantic-recommender\<close> and what holds of it.

  \<^bold>\<open>Correspondence.\<close> A struct is a record, an enum a datatype, a function the definition of its name;
  \<open>?\<close> is \<open>rbind\<close>, a panic is \<open>None\<close> above the result. A store is passed in and returned updated.
  Words keep their width where the code computes with them; sizes and indices are natural numbers,
  and \<open>saturating_add\<close> and every cast are written out.

  \<^bold>\<open>What the lemmas show.\<close> Identifiers: the accepted texts, parsing and printing as inverses, the
  derivation returns, the sampled characters are unbiased. JSON: the canonical text is injective,
  which carries every statement on hashes: they commit to what is hashed or name
  the two values that collide. Documents, packages and requests are read back as they were written.
  Documents, packages, bulletins, credentials: exactly what the validators accept, and what is built
  or signed by one side is accepted by the other. Domains: the ancestor loops end on all inputs and
  decide reachability, coverage is transitive, flattening a tree keeps its subtree relation.
  Requests: an accepted request is refused when it comes again, as long as the store has room, the clock
  does not go back and the skew is below the time to live; nonce stores are bounded. Nonce checks
  of many threads have the results of a sequential order, do not deadlock, and let one of two equal
  nonces pass while the store cannot overflow; over the file system their effect is given byte for byte,
  on writes that fail too. Job tables: every call keeps them well formed, a lease takes the due jobs by next
  attempt, creation and key, and is exclusive until it expires under any interleaving of calls, batches of
  successes equal single calls, and on SQLite a worker whose payloads all decode does all jobs once and comes
  to an end. Records and files: what is written is read back, and clients that follow the cursors of SQLite
  or of a directory get every item once. Recommender: normalisation is idempotent, the
  token index is exact, suggestions stay in the scope of the registrar.

  \<^bold>\<open>Parameters.\<close> Ed25519, SM2, SHA-256, SM3, base58, base64, the JSON-LD suite, URL parsing and the
  formatting of times are fields of \<open>externs\<close>; theorems that need more than their results assume
  that decoders invert encoders (\<open>codecs_ok\<close>) and that honest signatures verify (\<open>schemes_ok\<close>), and
  unforgeability is stated through collisions instead of assumed. Of the SQL servers the opening of
  a pool, the effect of SQL text of the caller, the names a table may have, the collation, the
  cast to a time, the order of returned rows, the choice among joined rows, locked rows and the
  clock are parameters; a commit may fail, and the PostgreSQL server may stop executing the statements of a
  batch. The write of a file may fail before it touches the file, or after any number of bytes,
  because \<open>fs::write\<close> empties the file first. The thread of the JSON-LD verifier may fail to start or panic. The arithmetic of \<open>f32\<close> is the record \<open>arith\<close>.

  \<^bold>\<open>Bounds and fuel.\<close> Three functions have fuel. The derivation of identifiers counts digests, and it
  returns as soon as the digests within the fuel have the accepted bytes it needs; the paging client and
  the worker have as many requests or rounds as are given, and one more than there are rows or jobs is
  enough. All other functions are total.

  \<^bold>\<open>Not modelled.\<close> The payloads of bulletin events, a struct that no code uses;
  key generation beyond its random bytes; poisoned mutexes; single SQL statements of SQLite that fail, which
  change nothing; attempt counts beyond 64 bits; the embedded data files of the recommender, their generator and
  the example programs; \<open>tag_rules\<close>, which no configuration compiles.
\<close>

end
